theory Spec2Isabelle
  imports Complex_Main "HOL-Library.Sublist" "HOL-Library.List_Lexorder" "HOL-Library.Char_ord"
begin

section \<open>JavaScript numbers\<close>

text \<open>
  A JavaScript \<^verbatim>\<open>number\<close> is either finite or one of the three special values
  \<^verbatim>\<open>Infinity\<close>, \<^verbatim>\<open>-Infinity\<close> and \<^verbatim>\<open>NaN\<close>. Finite values are modelled by exact reals, and
  the operators \<^verbatim>\<open>+\<close>, \<^verbatim>\<open>-\<close>, \<^verbatim>\<open>*\<close> and \<^verbatim>\<open>/\<close> below compute exactly: rounding, overflow of
  finite arithmetic and the sign of zero are not represented by them. The special values
  follow IEEE 754: every comparison with \<^verbatim>\<open>NaN\<close> is false, and a special operand of \<^verbatim>\<open>+\<close>
  or \<^verbatim>\<open>*\<close> yields a special result. Where the code decides on a computed number at a
  threshold that ordinary inputs meet (the step-size advisory), the result of each
  operation is rounded to binary64, see \<open>binary64\<close> below.
\<close>

datatype jsnum = Fin real | PInf | NInf | NaN

fun isFinite :: "jsnum \<Rightarrow> bool" where
  "isFinite (Fin _) = True"
| "isFinite _ = False"

instantiation jsnum :: "{plus, minus, uminus, times, inverse, abs, ord}"
begin

fun plus_jsnum :: "jsnum \<Rightarrow> jsnum \<Rightarrow> jsnum" where
  "Fin a + Fin b = Fin (a + b)"
| "NaN + _ = NaN"
| "_ + NaN = NaN"
| "PInf + NInf = NaN"
| "NInf + PInf = NaN"
| "PInf + _ = PInf"
| "_ + PInf = PInf"
| "NInf + _ = NInf"
| "_ + NInf = NInf"

fun uminus_jsnum :: "jsnum \<Rightarrow> jsnum" where
  "- Fin a = Fin (- a)"
| "- PInf = NInf"
| "- NInf = PInf"
| "- NaN = NaN"

definition minus_jsnum :: "jsnum \<Rightarrow> jsnum \<Rightarrow> jsnum" where
  "a - b = a + (- b :: jsnum)"

fun sign_inf :: "bool \<Rightarrow> jsnum" where
  "sign_inf True = PInf"
| "sign_inf False = NInf"

fun times_jsnum :: "jsnum \<Rightarrow> jsnum \<Rightarrow> jsnum" where
  "Fin a * Fin b = Fin (a * b)"
| "NaN * _ = NaN"
| "_ * NaN = NaN"
| "PInf * Fin b = (if b = 0 then NaN else sign_inf (0 < b))"
| "NInf * Fin b = (if b = 0 then NaN else sign_inf (b < 0))"
| "Fin a * PInf = (if a = 0 then NaN else sign_inf (0 < a))"
| "Fin a * NInf = (if a = 0 then NaN else sign_inf (a < 0))"
| "PInf * PInf = PInf"
| "PInf * NInf = NInf"
| "NInf * PInf = NInf"
| "NInf * NInf = PInf"

fun divide_jsnum :: "jsnum \<Rightarrow> jsnum \<Rightarrow> jsnum" where
  "divide_jsnum (Fin a) (Fin b) =
     (if b = 0 then (if a = 0 then NaN else sign_inf (0 < a)) else Fin (a / b))"
| "divide_jsnum NaN _ = NaN"
| "divide_jsnum _ NaN = NaN"
| "divide_jsnum (Fin a) PInf = Fin 0"
| "divide_jsnum (Fin a) NInf = Fin 0"
| "divide_jsnum PInf (Fin b) = sign_inf (0 \<le> b)"
| "divide_jsnum NInf (Fin b) = sign_inf (b < 0)"
| "divide_jsnum PInf PInf = NaN"
| "divide_jsnum PInf NInf = NaN"
| "divide_jsnum NInf PInf = NaN"
| "divide_jsnum NInf NInf = NaN"

definition inverse_jsnum :: "jsnum \<Rightarrow> jsnum" where
  "inverse a = divide (Fin 1) (a :: jsnum)"

fun abs_jsnum :: "jsnum \<Rightarrow> jsnum" where
  "\<bar>Fin a\<bar> = Fin \<bar>a\<bar>"
| "\<bar>PInf\<bar> = PInf"
| "\<bar>NInf\<bar> = PInf"
| "\<bar>NaN\<bar> = NaN"

fun less_jsnum :: "jsnum \<Rightarrow> jsnum \<Rightarrow> bool" where
  "Fin a < Fin b = (a < b)"
| "NaN < _ = False"
| "_ < NaN = False"
| "_ < NInf = False"
| "PInf < _ = False"
| "NInf < _ = True"
| "_ < PInf = True"

fun less_eq_jsnum :: "jsnum \<Rightarrow> jsnum \<Rightarrow> bool" where
  "Fin a \<le> Fin b = (a \<le> b)"
| "NaN \<le> _ = False"
| "_ \<le> NaN = False"
| "NInf \<le> _ = True"
| "_ \<le> PInf = True"
| "_ \<le> NInf = False"
| "PInf \<le> _ = False"

instance ..

end

text \<open>Strict equality \<^verbatim>\<open>===\<close> on numbers: \<^verbatim>\<open>NaN\<close> differs from itself.\<close>

definition strictEq :: "jsnum \<Rightarrow> jsnum \<Rightarrow> bool" where
  "strictEq a b = (a \<noteq> NaN \<and> a = b)"

text \<open>
  Rounding to binary64, the format of a JavaScript \<^verbatim>\<open>number\<close>, in the mode of every
  arithmetic operator: to the nearest representable number, a tie to the one with an
  even significand. A representable number of magnitude at least \<^verbatim>\<open>2^e\<close> and less than
  \<^verbatim>\<open>2^(e+1)\<close> is a multiple of \<^verbatim>\<open>2^(e-52)\<close>, for \<^verbatim>\<open>e\<close> from -1022 to 1023; below \<^verbatim>\<open>2^-1022\<close>
  the spacing stays \<^verbatim>\<open>2^-1074\<close>, and a result that rounds to \<^verbatim>\<open>2^1024\<close> or beyond is
  infinite.
\<close>

definition ties_to_even :: "real \<Rightarrow> int" where
  "ties_to_even x =
     (let n = \<lfloor>x\<rfloor>; r = x - of_int n
      in if r < 1/2 then n else if 1/2 < r then n + 1 else if even n then n else n + 1)"

text \<open>
  The exponent \<^verbatim>\<open>e\<close> of a magnitude is searched from 1023 downwards and stays at -1022
  for a smaller magnitude.
\<close>

fun exponent_from :: "nat \<Rightarrow> int \<Rightarrow> real \<Rightarrow> int" where
  "exponent_from 0 e x = e"
| "exponent_from (Suc n) e x = (if 2 powi e \<le> x then e else exponent_from n (e - 1) x)"

definition ulp_exponent :: "real \<Rightarrow> int" where
  "ulp_exponent x = exponent_from 2045 1023 \<bar>x\<bar> - 52"

definition round64 :: "real \<Rightarrow> jsnum" where
  "round64 x =
     (if x = 0 then Fin 0
      else
        (let u = 2 powi ulp_exponent x;
             r = of_int (ties_to_even (x / u)) * u
         in if 2 ^ 1024 \<le> \<bar>r\<bar> then sign_inf (0 < r) else Fin r))"

fun binary64 :: "jsnum \<Rightarrow> jsnum" where
  "binary64 (Fin x) = round64 x"
| "binary64 v = v"

section \<open>Thrown values and the functions being integrated\<close>

text \<open>
  A \<^verbatim>\<open>throw\<close> is the left summand of a result. The handlers of the solver read
  \<^verbatim>\<open>error instanceof Error ? error.message : 'Unknown error'\<close>, so a thrown value is either
  an \<^verbatim>\<open>Error\<close> with its message or something else.
\<close>

datatype thrown = Error string | NonError

fun message_of :: "thrown \<Rightarrow> string" where
  "message_of (Error m) = m"
| "message_of NonError = ''Unknown error''"

type_synonym ODEFunction = "jsnum \<Rightarrow> jsnum \<Rightarrow> thrown + jsnum"

type_synonym CoupledODEFunction = "jsnum \<Rightarrow> jsnum list \<Rightarrow> thrown + jsnum list"

record ('f, 'y) NumericalMethod =
  name :: string
  description :: string
  order :: nat
  solve :: "'f \<Rightarrow> jsnum \<Rightarrow> 'y \<Rightarrow> jsnum \<Rightarrow> thrown + (jsnum \<times> 'y)"

section \<open>The single-step formulas (numerical-methods.ts)\<close>

definition euler_solve :: "ODEFunction \<Rightarrow> jsnum \<Rightarrow> jsnum \<Rightarrow> jsnum \<Rightarrow> thrown + (jsnum \<times> jsnum)" where
  "euler_solve f x y h =
     (case f x y of Inl e \<Rightarrow> Inl e
      | Inr k1 \<Rightarrow> Inr (x + h, y + h * k1))"

definition heun_solve :: "ODEFunction \<Rightarrow> jsnum \<Rightarrow> jsnum \<Rightarrow> jsnum \<Rightarrow> thrown + (jsnum \<times> jsnum)" where
  "heun_solve f x y h =
     (case f x y of Inl e \<Rightarrow> Inl e
      | Inr k1 \<Rightarrow>
          (let yPredictor = y + h * k1 in
           case f (x + h) yPredictor of Inl e \<Rightarrow> Inl e
           | Inr k2 \<Rightarrow> Inr (x + h, y + h * (k1 + k2) / Fin 2)))"

definition rk4_solve :: "ODEFunction \<Rightarrow> jsnum \<Rightarrow> jsnum \<Rightarrow> jsnum \<Rightarrow> thrown + (jsnum \<times> jsnum)" where
  "rk4_solve f x y h =
     (case f x y of Inl e \<Rightarrow> Inl e
      | Inr k1 \<Rightarrow>
     (case f (x + h / Fin 2) (y + h * k1 / Fin 2) of Inl e \<Rightarrow> Inl e
      | Inr k2 \<Rightarrow>
     (case f (x + h / Fin 2) (y + h * k2 / Fin 2) of Inl e \<Rightarrow> Inl e
      | Inr k3 \<Rightarrow>
     (case f (x + h) (y + h * k3) of Inl e \<Rightarrow> Inl e
      | Inr k4 \<Rightarrow>
          (let dy = h * (k1 + Fin 2 * k2 + Fin 2 * k3 + k4) / Fin 6
           in Inr (x + h, y + dy))))))"

definition euler :: "(ODEFunction, jsnum) NumericalMethod" where
  "euler = \<lparr> name = ''Euler's Method'',
             description = ''First-order method, simple but less accurate'',
             order = 1, solve = euler_solve \<rparr>"

definition heun :: "(ODEFunction, jsnum) NumericalMethod" where
  "heun = \<lparr> name = ''Heun's Method'',
            description = ''Second-order method, improved Euler with better accuracy'',
            order = 2, solve = heun_solve \<rparr>"

definition rk4 :: "(ODEFunction, jsnum) NumericalMethod" where
  "rk4 = \<lparr> name = ''Runge-Kutta 4th Order'',
           description = ''Fourth-order method, highly accurate and widely used'',
           order = 4, solve = rk4_solve \<rparr>"

section \<open>Coupled single-step formulas (numerical-methods.ts)\<close>

text \<open>
  \<^verbatim>\<open>k1[i] ?? 0\<close>: an index past the end of the array reads \<^verbatim>\<open>undefined\<close>, which
  \<^verbatim>\<open>??\<close> replaces by 0. A \<^verbatim>\<open>NaN\<close> entry is not nullish and stays.
\<close>

definition at_or_0 :: "jsnum list \<Rightarrow> nat \<Rightarrow> jsnum" where
  "at_or_0 k i = (if i < length k then k ! i else Fin 0)"

text \<open>\<^verbatim>\<open>y.map((yi, i) => g(yi, i))\<close>.\<close>

definition map_index :: "('a \<Rightarrow> nat \<Rightarrow> 'b) \<Rightarrow> 'a list \<Rightarrow> 'b list" where
  "map_index g ys = map (\<lambda>(yi, i). g yi i) (zip ys [0..<length ys])"

definition coupled_euler_solve ::
  "CoupledODEFunction \<Rightarrow> jsnum \<Rightarrow> jsnum list \<Rightarrow> jsnum \<Rightarrow> thrown + (jsnum \<times> jsnum list)" where
  "coupled_euler_solve f x y h =
     (case f x y of Inl e \<Rightarrow> Inl e
      | Inr k1 \<Rightarrow>
          (let newY = map_index (\<lambda>yi i. yi + h * at_or_0 k1 i) y
           in Inr (x + h, newY)))"

definition coupled_heun_solve ::
  "CoupledODEFunction \<Rightarrow> jsnum \<Rightarrow> jsnum list \<Rightarrow> jsnum \<Rightarrow> thrown + (jsnum \<times> jsnum list)" where
  "coupled_heun_solve f x y h =
     (case f x y of Inl e \<Rightarrow> Inl e
      | Inr k1 \<Rightarrow>
          (let yPredictor = map_index (\<lambda>yi i. yi + h * at_or_0 k1 i) y in
           case f (x + h) yPredictor of Inl e \<Rightarrow> Inl e
           | Inr k2 \<Rightarrow>
               (let newY = map_index (\<lambda>yi i. yi + h * (at_or_0 k1 i + at_or_0 k2 i) / Fin 2) y
                in Inr (x + h, newY))))"

definition coupled_rk4_solve ::
  "CoupledODEFunction \<Rightarrow> jsnum \<Rightarrow> jsnum list \<Rightarrow> jsnum \<Rightarrow> thrown + (jsnum \<times> jsnum list)" where
  "coupled_rk4_solve f x y h =
     (case f x y of Inl e \<Rightarrow> Inl e
      | Inr k1 \<Rightarrow>
     (let y1 = map_index (\<lambda>yi i. yi + h * at_or_0 k1 i / Fin 2) y in
      case f (x + h / Fin 2) y1 of Inl e \<Rightarrow> Inl e
      | Inr k2 \<Rightarrow>
     (let y2 = map_index (\<lambda>yi i. yi + h * at_or_0 k2 i / Fin 2) y in
      case f (x + h / Fin 2) y2 of Inl e \<Rightarrow> Inl e
      | Inr k3 \<Rightarrow>
     (let y3 = map_index (\<lambda>yi i. yi + h * at_or_0 k3 i) y in
      case f (x + h) y3 of Inl e \<Rightarrow> Inl e
      | Inr k4 \<Rightarrow>
          (let newY = map_index (\<lambda>yi i. yi + h * (at_or_0 k1 i + Fin 2 * at_or_0 k2 i
                                     + Fin 2 * at_or_0 k3 i + at_or_0 k4 i) / Fin 6) y
           in Inr (x + h, newY))))))"

definition coupled_euler :: "(CoupledODEFunction, jsnum list) NumericalMethod" where
  "coupled_euler = \<lparr> name = ''Euler's Method (Coupled)'',
                     description = ''First-order method for coupled systems'',
                     order = 1, solve = coupled_euler_solve \<rparr>"

definition coupled_heun :: "(CoupledODEFunction, jsnum list) NumericalMethod" where
  "coupled_heun = \<lparr> name = ''Heun's Method (Coupled)'',
                    description = ''Second-order method for coupled systems'',
                    order = 2, solve = coupled_heun_solve \<rparr>"

definition coupled_rk4 :: "(CoupledODEFunction, jsnum list) NumericalMethod" where
  "coupled_rk4 = \<lparr> name = ''Runge-Kutta 4th Order (Coupled)'',
                   description = ''Fourth-order method for coupled systems'',
                   order = 4, solve = coupled_rk4_solve \<rparr>"

section \<open>The method registries\<close>

text \<open>\<^verbatim>\<open>String.prototype.toLowerCase\<close> on the ASCII letters.\<close>

definition lower_char :: "char \<Rightarrow> char" where
  "lower_char c =
     (if 65 \<le> (of_char c :: nat) \<and> (of_char c :: nat) \<le> 90
      then char_of ((of_char c :: nat) + 32) else c)"

definition toLowerCase :: "string \<Rightarrow> string" where
  "toLowerCase s = map lower_char s"

definition getAllMethods :: "(string \<times> (ODEFunction, jsnum) NumericalMethod) list" where
  "getAllMethods = [(''euler'', euler), (''heun'', heun), (''rk4'', rk4)]"

definition getMethod :: "string \<Rightarrow> (ODEFunction, jsnum) NumericalMethod option" where
  "getMethod nm = map_of getAllMethods (toLowerCase nm)"

definition coupled_getAllMethods ::
  "(string \<times> (CoupledODEFunction, jsnum list) NumericalMethod) list" where
  "coupled_getAllMethods =
     [(''euler'', coupled_euler), (''heun'', coupled_heun), (''rk4'', coupled_rk4)]"

definition coupled_getMethod ::
  "string \<Rightarrow> (CoupledODEFunction, jsnum list) NumericalMethod option" where
  "coupled_getMethod nm = map_of coupled_getAllMethods (toLowerCase nm)"

section \<open>Step-size advisory and option validation\<close>

text \<open>
  The messages of the solver embed numbers through \<^verbatim>\<open>toFixed\<close>, \<^verbatim>\<open>toPrecision\<close> and
  template literals. How a number prints is immaterial to every property below, so the
  three conversions are a parameter of the functions that build messages.
\<close>

record NumberFormat =
  toFixed :: "jsnum \<Rightarrow> nat \<Rightarrow> string"
  toPrecision :: "jsnum \<Rightarrow> nat \<Rightarrow> string"
  toString :: "jsnum \<Rightarrow> string"

text \<open>\<^verbatim>\<open>Math.round\<close>: the nearest integer, halves upwards; special values are kept.\<close>

fun Math_round :: "jsnum \<Rightarrow> jsnum" where
  "Math_round (Fin a) = Fin (of_int \<lfloor>a + 1/2\<rfloor>)"
| "Math_round v = v"

text \<open>\<^verbatim>\<open>Math.min(a, b)\<close> as it is used for the suggested step.\<close>

definition Math_min2 :: "jsnum \<Rightarrow> jsnum \<Rightarrow> jsnum" where
  "Math_min2 a b = (if a = NaN \<or> b = NaN then NaN else if a \<le> b then a else b)"

record StepSizeValidation =
  valid :: bool
  suggested :: "jsnum option"
  warning :: "string option"

text \<open>The byte sequences of the UTF-8 characters that occur in the warnings.\<close>

definition utf8_le :: string where
  "utf8_le = [char_of (0xE2 :: nat), char_of (0x89 :: nat), char_of (0xA4 :: nat)]"

definition utf8_ge :: string where
  "utf8_ge = [char_of (0xE2 :: nat), char_of (0x89 :: nat), char_of (0xA5 :: nat)]"

text \<open>
  The advisory of the scalar solver. Its verdict turns on the quotient \<^verbatim>\<open>numSteps\<close> at the
  thresholds 10 and 100000, which the usual steps meet: the step 0.1 on a domain of
  length 1 gives the quotient 10 only because the division rounds. So the difference and
  the quotients of this function are rounded as the code's are.
\<close>

definition validateStepSize :: "NumberFormat \<Rightarrow> jsnum \<Rightarrow> jsnum \<times> jsnum \<Rightarrow> StepSizeValidation" where
  "validateStepSize fmt stepSize domain =
     (let x0 = fst domain; xEnd = snd domain;
          totalRange = \<bar>binary64 (xEnd - x0)\<bar>;
          numSteps = binary64 (totalRange / stepSize)
      in if numSteps < Fin 10 then
           (let suggested = binary64 (totalRange / Fin 20)
            in \<lparr> valid = False, suggested = Some suggested,
                 warning = Some (''Step size too large. Consider using h '' @ utf8_le @ '' ''
                    @ toPrecision fmt suggested 3 @ '' for better accuracy.'') \<rparr>)
         else if Fin 100000 < numSteps then
           (let suggested = binary64 (totalRange / Fin 10000)
            in \<lparr> valid = False, suggested = Some suggested,
                 warning = Some (''Step size too small. Consider using h '' @ utf8_ge @ '' ''
                    @ toPrecision fmt suggested 3 @ '' for faster computation.'') \<rparr>)
         else if Fin 50000 < numSteps then
           \<lparr> valid = True, suggested = None,
             warning = Some (''Large number of steps ('' @ toString fmt (Math_round numSteps)
                @ ''). Computation may take some time.'') \<rparr>
         else \<lparr> valid = True, suggested = None, warning = None \<rparr>)"

text \<open>
  The advisory of \<^verbatim>\<open>CoupledNumericalMethods\<close>, rounded likewise; the coupled solver does not
  call it.
\<close>

definition coupled_validateStepSize :: "jsnum \<Rightarrow> jsnum \<times> jsnum \<Rightarrow> StepSizeValidation" where
  "coupled_validateStepSize stepSize domain =
     (let x0 = fst domain; xEnd = snd domain;
          totalRange = \<bar>binary64 (xEnd - x0)\<bar>
      in if stepSize \<le> Fin 0 then
           \<lparr> valid = False, suggested = Some (Math_min2 (binary64 (Fin (1/10))) (binary64 (totalRange / Fin 100))),
             warning = Some ''Step size must be positive'' \<rparr>
         else if totalRange < stepSize then
           \<lparr> valid = False, suggested = Some (binary64 (totalRange / Fin 10)),
             warning = Some ''Step size larger than domain range'' \<rparr>
         else if binary64 (totalRange / Fin 10) < stepSize then
           \<lparr> valid = True, suggested = Some (binary64 (totalRange / Fin 50)),
             warning = Some ''Step size might be too large for coupled systems, consider smaller values'' \<rparr>
         else if stepSize < binary64 (totalRange / Fin 100000) then
           \<lparr> valid = True, suggested = Some (binary64 (totalRange / Fin 1000)),
             warning = Some ''Very small step size may lead to slow computation'' \<rparr>
         else \<lparr> valid = True, suggested = None, warning = None \<rparr>)"

record 'y ODEOptions =
  t0 :: jsnum
  y0 :: 'y
  tEnd :: jsnum
  stepSize :: jsnum
  method_key :: "string option"
  maxIterations :: "jsnum option"

record Validation =
  valid :: bool
  error :: "string option"

text \<open>\<^verbatim>\<open>String.prototype.trim\<close> on the ASCII white space.\<close>

definition is_space :: "char \<Rightarrow> bool" where
  "is_space c = (c \<in> set [CHR '' '', CHR 0x09, CHR 0x0A, CHR 0x0B, CHR 0x0C, CHR 0x0D])"

definition trim :: "string \<Rightarrow> string" where
  "trim s = rev (dropWhile is_space (rev (dropWhile is_space s)))"

definition validateOptions :: "NumberFormat \<Rightarrow> jsnum ODEOptions \<Rightarrow> Validation" where
  "validateOptions fmt options =
     (if \<not> isFinite (t0 options) \<or> \<not> isFinite (y0 options) \<or> \<not> isFinite (tEnd options)
         \<or> \<not> isFinite (stepSize options) then
        \<lparr> valid = False, error = Some ''All parameters must be finite numbers'' \<rparr>
      else if stepSize options \<le> Fin 0 then
        \<lparr> valid = False, error = Some ''Step size must be positive'' \<rparr>
      else if \<bar>tEnd options - t0 options\<bar> < stepSize options then
        \<lparr> valid = False, error = Some ''Step size cannot be larger than the integration domain'' \<rparr>
      else if strictEq (t0 options) (tEnd options) then
        \<lparr> valid = False, error = Some ''Start and end t values cannot be equal'' \<rparr>
      else if Fin 1000 < \<bar>tEnd options - t0 options\<bar> then
        \<lparr> valid = False, error = Some ''Integration domain too large (|tEnd - t0| > 1000)'' \<rparr>
      else if Fin 1000000 < \<bar>y0 options\<bar> then
        \<lparr> valid = False, error = Some ''Initial y value too large (|y0| > 1e6)'' \<rparr>
      else
        (let stepValidation = validateStepSize fmt (stepSize options) (t0 options, tEnd options)
         in if \<not> StepSizeValidation.valid stepValidation
               \<and> (case warning stepValidation of None \<Rightarrow> False | Some w \<Rightarrow> trim w \<noteq> [])
            then \<lparr> valid = False, error = warning stepValidation \<rparr>
            else \<lparr> valid = True, error = None \<rparr>))"

definition coupled_validateOptions :: "jsnum list ODEOptions \<Rightarrow> Validation" where
  "coupled_validateOptions options =
     (if \<not> isFinite (t0 options) \<or> \<not> isFinite (tEnd options) \<or> \<not> isFinite (stepSize options) then
        \<lparr> valid = False, error = Some ''t0, tEnd, and stepSize must be finite numbers'' \<rparr>
      else if length (y0 options) = 0 then
        \<lparr> valid = False, error = Some ''y0 must be a non-empty array'' \<rparr>
      else if \<not> list_all isFinite (y0 options) then
        \<lparr> valid = False, error = Some ''All initial y values must be finite numbers'' \<rparr>
      else if stepSize options \<le> Fin 0 then
        \<lparr> valid = False, error = Some ''Step size must be positive'' \<rparr>
      else if \<bar>tEnd options - t0 options\<bar> < stepSize options then
        \<lparr> valid = False, error = Some ''Step size cannot be larger than the integration domain'' \<rparr>
      else if strictEq (t0 options) (tEnd options) then
        \<lparr> valid = False, error = Some ''Start and end t values cannot be equal'' \<rparr>
      else if Fin 1000 < \<bar>tEnd options - t0 options\<bar> then
        \<lparr> valid = False, error = Some ''Integration domain too large (|tEnd - t0| > 1000)'' \<rparr>
      else if list_ex (\<lambda>yi. Fin 1000000 < \<bar>yi\<bar>) (y0 options) then
        \<lparr> valid = False, error = Some ''Initial y values too large (|y0[i]| > 1e6)'' \<rparr>
      else \<lparr> valid = True, error = None \<rparr>)"

text \<open>
  The scalar options read as the options of a one-equation system, to compare the two
  validators on the same input.
\<close>

definition as_system :: "jsnum ODEOptions \<Rightarrow> jsnum list ODEOptions" where
  "as_system opts = \<lparr> t0 = t0 opts, y0 = [y0 opts], tEnd = tEnd opts, stepSize = stepSize opts,
       method_key = method_key opts, maxIterations = maxIterations opts \<rparr>"

text \<open>A formatter for closed examples; the properties hold for every formatter.\<close>

definition plainFormat :: NumberFormat where
  "plainFormat = \<lparr> toFixed = (\<lambda>v d. ''0''), toPrecision = (\<lambda>v d. ''0''), toString = (\<lambda>v. ''0'') \<rparr>"

section \<open>Regular expressions (the patterns of equation-parser.ts)\<close>

text \<open>
  The parser works on its input with JavaScript regular expressions. They are modelled
  by a backtracking matcher that returns every way a pattern can match at a position,
  in the order in which a backtracking engine tries them; the first is the match the
  engine reports. The position in the subject is a pair: the characters before it, in
  reverse, and the characters after it. Character classes are lists of inclusive
  ranges; the classes \<^verbatim>\<open>\w\<close>, \<^verbatim>\<open>\d\<close> and \<^verbatim>\<open>\s\<close> are their ASCII members.
\<close>

datatype cls = In "(char \<times> char) list" | NotIn "(char \<times> char) list"

definition in_ranges :: "(char \<times> char) list \<Rightarrow> char \<Rightarrow> bool" where
  "in_ranges rs c =
     list_ex (\<lambda>(lo, hi). (of_char lo :: nat) \<le> of_char c \<and> (of_char c :: nat) \<le> of_char hi) rs"

text \<open>
  With the \<^verbatim>\<open>i\<close> flag a character matches a class when one of its two letter cases
  does.
\<close>

definition upper_char :: "char \<Rightarrow> char" where
  "upper_char c =
     (if 97 \<le> (of_char c :: nat) \<and> (of_char c :: nat) \<le> 122
      then char_of ((of_char c :: nat) - 32) else c)"

fun cls_ok :: "bool \<Rightarrow> cls \<Rightarrow> char \<Rightarrow> bool" where
  "cls_ok ic (In rs) c =
     (in_ranges rs c \<or> (ic \<and> (in_ranges rs (lower_char c) \<or> in_ranges rs (upper_char c))))"
| "cls_ok ic (NotIn rs) c =
     (\<not> (in_ranges rs c \<or> (ic \<and> (in_ranges rs (lower_char c) \<or> in_ranges rs (upper_char c)))))"

datatype regex =
    Atom cls
  | Empty
  | Cat regex regex
  | Alt regex regex
  | Star regex
  | Group nat regex
  | WordB
  | NotAhead regex
  | Bol
  | Eol

definition word_cls :: cls where
  "word_cls = In [(CHR ''a'', CHR ''z''), (CHR ''A'', CHR ''Z''), (CHR ''0'', CHR ''9''), (CHR ''_'', CHR ''_'')]"

definition digit_cls :: cls where
  "digit_cls = In [(CHR ''0'', CHR ''9'')]"

definition space_cls :: cls where
  "space_cls = In [(CHR 0x09, CHR 0x0D), (CHR '' '', CHR '' '')]"

definition is_word :: "char \<Rightarrow> bool" where
  "is_word c = cls_ok False word_cls c"

text \<open>\<^verbatim>\<open>\b\<close>: exactly one of the two neighbours of the position is a word character.\<close>

definition at_word_boundary :: "string \<Rightarrow> string \<Rightarrow> bool" where
  "at_word_boundary b a =
     ((case b of [] \<Rightarrow> False | c # _ \<Rightarrow> is_word c)
      \<noteq> (case a of [] \<Rightarrow> False | c # _ \<Rightarrow> is_word c))"

type_synonym captures = "(nat \<times> string) list"

text \<open>
  \<open>rmatch ic r b a g\<close>: the ends of the matches of \<open>r\<close> that start at the
  position, most preferred first. A greedy star tries one more iteration before it
  stops, and an iteration that consumes nothing is not repeated.
\<close>

fun rmatch :: "bool \<Rightarrow> regex \<Rightarrow> string \<Rightarrow> string \<Rightarrow> captures \<Rightarrow> (string \<times> string \<times> captures) list" where
  "rmatch ic (Atom c) b a g =
     (case a of [] \<Rightarrow> [] | x # xs \<Rightarrow> if cls_ok ic c x then [(x # b, xs, g)] else [])"
| "rmatch ic Empty b a g = [(b, a, g)]"
| "rmatch ic (Cat r1 r2) b a g =
     concat (map (\<lambda>(b', a', g'). rmatch ic r2 b' a' g') (rmatch ic r1 b a g))"
| "rmatch ic (Alt r1 r2) b a g = rmatch ic r1 b a g @ rmatch ic r2 b a g"
| "rmatch ic (Star r) b a g =
     concat (map (\<lambda>(b', a', g'). if length a' < length a then rmatch ic (Star r) b' a' g' else [])
                 (rmatch ic r b a g))
     @ [(b, a, g)]"
| "rmatch ic (Group n r) b a g =
     map (\<lambda>(b', a', g'). (b', a', (n, take (length a - length a') a) # g')) (rmatch ic r b a g)"
| "rmatch ic WordB b a g = (if at_word_boundary b a then [(b, a, g)] else [])"
| "rmatch ic (NotAhead r) b a g = (if rmatch ic r b a g = [] then [(b, a, g)] else [])"
| "rmatch ic Bol b a g = (if b = [] then [(b, a, g)] else [])"
| "rmatch ic Eol b a g = (if a = [] then [(b, a, g)] else [])"

text \<open>\<^verbatim>\<open>r+\<close> is \<^verbatim>\<open>rr*\<close>; a literal is the sequence of its characters.\<close>

definition Plus :: "regex \<Rightarrow> regex" where
  "Plus r = Cat r (Star r)"

definition chr :: "char \<Rightarrow> regex" where
  "chr c = Atom (In [(c, c)])"

fun lit :: "string \<Rightarrow> regex" where
  "lit [] = Empty"
| "lit (c # cs) = Cat (chr c) (lit cs)"

record RegExp =
  source :: string
  pattern :: regex
  ignoreCase :: bool

text \<open>The match the engine reports at a position: the first alternative, if any.\<close>

definition match_here :: "RegExp \<Rightarrow> string \<Rightarrow> string \<Rightarrow> (string \<times> string \<times> captures) option" where
  "match_here re b a =
     (case rmatch (ignoreCase re) (pattern re) b a [] of [] \<Rightarrow> None | m # _ \<Rightarrow> Some m)"

text \<open>
  The search of \<^verbatim>\<open>exec\<close>: the match at the leftmost position, at or after the current
  one, where the pattern matches.
\<close>

fun search :: "RegExp \<Rightarrow> string \<Rightarrow> string \<Rightarrow> (string \<times> string \<times> captures) option" where
  "search re b [] = match_here re b []"
| "search re b (x # xs) =
     (case match_here re b (x # xs) of
        Some m \<Rightarrow> Some m
      | None \<Rightarrow> search re (x # b) xs)"

text \<open>\<^verbatim>\<open>RegExp.prototype.test\<close> of a pattern without the \<^verbatim>\<open>g\<close> flag.\<close>

definition test :: "RegExp \<Rightarrow> string \<Rightarrow> bool" where
  "test re s = (search re [] s \<noteq> None)"

text \<open>The group \<open>n\<close> of a match; a group that did not take part is \<^verbatim>\<open>undefined\<close>.\<close>

definition group_of :: "captures \<Rightarrow> nat \<Rightarrow> string option" where
  "group_of g n = map_of g n"

text \<open>
  A replacement string is a sequence of literal pieces and group references
  (\<^verbatim>\<open>$1\<close>, \<^verbatim>\<open>$2\<close>); a group that did not take part is replaced by the empty string.
\<close>

datatype piece = Text string | Ref nat

fun expand :: "piece list \<Rightarrow> captures \<Rightarrow> string" where
  "expand [] g = []"
| "expand (Text s # ps) g = s @ expand ps g"
| "expand (Ref n # ps) g = (case group_of g n of None \<Rightarrow> [] | Some s \<Rightarrow> s) @ expand ps g"

text \<open>
  \<^verbatim>\<open>String.prototype.replace\<close> with a global pattern: each match, from left to right, is
  replaced; the scan resumes at the end of the match, and one character further after an
  empty match.
\<close>

function replace_from :: "RegExp \<Rightarrow> piece list \<Rightarrow> string \<Rightarrow> string \<Rightarrow> string" where
  "replace_from re rep b a =
     (case match_here re b a of
        None \<Rightarrow> (case a of [] \<Rightarrow> [] | x # xs \<Rightarrow> x # replace_from re rep (x # b) xs)
      | Some (b', a', g) \<Rightarrow>
          if length a' < length a then expand rep g @ replace_from re rep b' a'
          else (case a of [] \<Rightarrow> expand rep g
                | x # xs \<Rightarrow> expand rep g @ x # replace_from re rep (x # b) xs))"
  by pat_completeness auto
termination
  by (relation "measure (\<lambda>(re, rep, b, a). length a)") auto

definition replace :: "RegExp \<Rightarrow> piece list \<Rightarrow> string \<Rightarrow> string" where
  "replace re rep s = replace_from re rep [] s"

text \<open>
  The loop \<^verbatim>\<open>while ((match = re.exec(s)) !== null)\<close> over a global pattern: the first
  groups of the successive matches. Every match of the parser's pattern consumes a
  character, so each search resumes further right; a match that consumed nothing ends
  the scan of the model.
\<close>

function exec_all :: "RegExp \<Rightarrow> string \<Rightarrow> string \<Rightarrow> string option list" where
  "exec_all re b a =
     (case search re b a of
        None \<Rightarrow> []
      | Some (b', a', g) \<Rightarrow>
          group_of g 1 # (if length a' < length a then exec_all re b' a' else []))"
  by pat_completeness auto
termination
  by (relation "measure (\<lambda>(re, b, a). length a)") auto

section \<open>The expression parser (equation-parser.ts)\<close>

definition ALLOWED_FUNCTIONS :: "string list" where
  "ALLOWED_FUNCTIONS =
     [''sin'', ''cos'', ''tan'', ''sec'', ''csc'', ''cot'',
      ''asin'', ''acos'', ''atan'', ''atan2'',
      ''sinh'', ''cosh'', ''tanh'',
      ''exp'', ''log'', ''log10'', ''log2'',
      ''sqrt'', ''cbrt'', ''pow'', ''abs'',
      ''floor'', ''ceil'', ''round'', ''sign'',
      ''max'', ''min'', ''random'']"

definition ALLOWED_CONSTANTS :: "string list" where
  "ALLOWED_CONSTANTS = [''pi'', ''PI'', ''e'', ''E'', ''i'']"

text \<open>A pattern that is a plain fragment, with or without the \<^verbatim>\<open>i\<close> flag.\<close>

definition fragment :: "bool \<Rightarrow> string \<Rightarrow> RegExp" where
  "fragment ic s = \<lparr> source = s, pattern = lit s, ignoreCase = ic \<rparr>"

definition dangerousPatterns :: "RegExp list" where
  "dangerousPatterns =
     [fragment True ''import'',
      fragment True ''require'',
      fragment True ''eval'',
      fragment True ''function'',
      fragment True ''while'',
      fragment True ''for'',
      fragment True ''if'',
      fragment True ''var'',
      fragment True ''let'',
      fragment True ''const'',
      fragment False ''=>'',
      \<lparr> source = [CHR 0x5C, CHR ''.'', CHR 0x5C, CHR ''.''], pattern = lit ''..'', ignoreCase = False \<rparr>,
      fragment False ''__'',
      fragment True ''prototype'']"

definition validateExpression :: "string \<Rightarrow> Validation" where
  "validateExpression expression =
     (case find (\<lambda>p. test p expression) dangerousPatterns of
        Some p \<Rightarrow> \<lparr> valid = False,
                    error = Some (''Potentially unsafe expression detected: '' @ source p) \<rparr>
      | None \<Rightarrow> \<lparr> valid = True, error = None \<rparr>)"

section \<open>The single-equation solver (ode-solver.ts)\<close>

text \<open>
  A solution point \<^verbatim>\<open>{ t, y, dydt }\<close>; the fields carry a prefix, since \<open>t\<close> and \<open>y\<close> name
  variables throughout. The solution record leaves out \<^verbatim>\<open>computationTime\<close>, a difference
  of two readings of the wall clock.
\<close>

record 'y SolutionPoint =
  pt_t :: jsnum
  pt_y :: 'y
  pt_dydt :: 'y

record 'r Metadata =
  totalPoints :: nat
  usedStepSize :: jsnum
  domain :: "jsnum \<times> jsnum"
  yrange :: 'r

record ('y, 'r) ODESolution =
  points :: "'y SolutionPoint list"
  usedMethod :: string
  success :: bool
  error :: "string option"
  metadata :: "'r Metadata"

text \<open>\<^verbatim>\<open>Math.min(...values)\<close> and \<^verbatim>\<open>Math.max(...values)\<close>.\<close>

definition Math_max2 :: "jsnum \<Rightarrow> jsnum \<Rightarrow> jsnum" where
  "Math_max2 a b = (if a = NaN \<or> b = NaN then NaN else if a \<le> b then b else a)"

definition Math_min :: "jsnum list \<Rightarrow> jsnum" where
  "Math_min vs = foldl Math_min2 PInf vs"

definition Math_max :: "jsnum list \<Rightarrow> jsnum" where
  "Math_max vs = foldl Math_max2 NInf vs"

text \<open>\<^verbatim>\<open>options.maxIterations ?? 1000000\<close> and \<^verbatim>\<open>options.method ?? 'rk4'\<close>.\<close>

definition maxIterations_of :: "'y ODEOptions \<Rightarrow> jsnum" where
  "maxIterations_of options = (case maxIterations options of None \<Rightarrow> Fin 1000000 | Some n \<Rightarrow> n)"

definition methodName_of :: "'y ODEOptions \<Rightarrow> string" where
  "methodName_of options = (case method_key options of None \<Rightarrow> ''rk4'' | Some k \<Rightarrow> k)"

text \<open>The signed step \<^verbatim>\<open>h\<close> and the step of the current iteration.\<close>

definition isForward :: "'y ODEOptions \<Rightarrow> bool" where
  "isForward options = (t0 options < tEnd options)"

definition signed_step :: "'y ODEOptions \<Rightarrow> jsnum" where
  "signed_step options =
     (if t0 options < tEnd options then \<bar>stepSize options\<bar> else - \<bar>stepSize options\<bar>)"

definition currentH_of :: "'y ODEOptions \<Rightarrow> jsnum \<Rightarrow> jsnum" where
  "currentH_of options t =
     (let h = signed_step options in
      if isForward options \<and> tEnd options < t + h then tEnd options - t
      else if \<not> isForward options \<and> t + h < tEnd options then tEnd options - t
      else h)"

text \<open>
  The body of the \<^verbatim>\<open>try\<close> block of one iteration, up to the new point. The pause
  every 1000 iterations changes no value and is left out.
\<close>

definition attempt_step ::
  "NumberFormat \<Rightarrow> ODEFunction \<Rightarrow> (ODEFunction, jsnum) NumericalMethod \<Rightarrow> jsnum \<Rightarrow> jsnum \<Rightarrow> jsnum
     \<Rightarrow> thrown + jsnum SolutionPoint" where
  "attempt_step fmt f m t y currentH =
     (case solve m f t y currentH of Inl e \<Rightarrow> Inl e
      | Inr (newT, newY) \<Rightarrow>
          if \<not> isFinite newT \<or> \<not> isFinite newY then
            Inl (Error (''Non-finite values encountered at t='' @ toFixed fmt t 6
                        @ '', y='' @ toFixed fmt y 6))
          else if Fin 10000000000 < \<bar>newY\<bar> then
            Inl (Error (''Solution became unstable (|y| > 1e10) at t='' @ toFixed fmt newT 6))
          else
            (case f newT newY of Inl e \<Rightarrow> Inl e
             | Inr dydt \<Rightarrow>
                 if \<not> isFinite dydt then
                   Inl (Error (''Derivative became non-finite at t='' @ toFixed fmt newT 6
                               @ '', y='' @ toFixed fmt newY 6))
                 else Inr \<lparr> pt_t = newT, pt_y = newY, pt_dydt = dydt \<rparr>))"

text \<open>
  The integration loop, from the state \<^verbatim>\<open>(t, y, iterations, points)\<close> at the loop test to
  the state after the loop; a throw inside the \<^verbatim>\<open>try\<close> block is rethrown with the step
  number. A run of the loop that never ends has the value \<open>None\<close>.
\<close>

partial_function (option) integrate ::
  "NumberFormat \<Rightarrow> ODEFunction \<Rightarrow> jsnum ODEOptions \<Rightarrow> (ODEFunction, jsnum) NumericalMethod
     \<Rightarrow> jsnum \<Rightarrow> jsnum \<Rightarrow> nat \<Rightarrow> jsnum SolutionPoint list
     \<Rightarrow> (thrown + (jsnum \<times> jsnum \<times> nat \<times> jsnum SolutionPoint list)) option" where
  "integrate fmt f options m t y iterations pts =
     (if \<not> (Fin (real iterations) < maxIterations_of options) then Some (Inr (t, y, iterations, pts))
      else if isForward options \<and> tEnd options \<le> t then Some (Inr (t, y, Suc iterations, pts))
      else if \<not> isForward options \<and> t \<le> tEnd options then Some (Inr (t, y, Suc iterations, pts))
      else
        (case attempt_step fmt f m t y (currentH_of options t) of
           Inl e \<Rightarrow>
             Some (Inl (Error (''Integration failed at step '' @ toString fmt (Fin (real (Suc iterations)))
                               @ '': '' @ message_of e)))
         | Inr p \<Rightarrow> integrate fmt f options m (pt_t p) (pt_y p) (Suc iterations) (pts @ [p])))"

declare integrate.simps [code]

definition numericalSolve ::
  "NumberFormat \<Rightarrow> ODEFunction \<Rightarrow> jsnum ODEOptions \<Rightarrow> (ODEFunction, jsnum) NumericalMethod
     \<Rightarrow> (thrown + (jsnum, jsnum \<times> jsnum) ODESolution) option" where
  "numericalSolve fmt f options m =
     (case f (t0 options) (y0 options) of Inl e \<Rightarrow> Some (Inl e)
      | Inr dydt0 \<Rightarrow>
         (case integrate fmt f options m (t0 options) (y0 options) 0
                 [\<lparr> pt_t = t0 options, pt_y = y0 options, pt_dydt = dydt0 \<rparr>] of
            None \<Rightarrow> None
          | Some (Inl e) \<Rightarrow> Some (Inl e)
          | Some (Inr (t, y, iterations, pts)) \<Rightarrow>
              if maxIterations_of options \<le> Fin (real iterations) then
                Some (Inl (Error (''Maximum iterations ('' @ toString fmt (maxIterations_of options)
                                  @ '') reached without convergence'')))
              else
                (let yValues = map pt_y pts;
                     minY = Math_min yValues;
                     maxY = Math_max yValues
                 in Some (Inr \<lparr> points = pts, usedMethod = name m, success = True, error = None,
                      metadata = \<lparr> totalPoints = length pts, usedStepSize = stepSize options,
                                   domain = (t0 options, tEnd options), yrange = (minY, maxY) \<rparr> \<rparr>))))"

text \<open>The failed solution that every early return and every handler builds.\<close>

definition failed :: "'y ODEOptions \<Rightarrow> string \<Rightarrow> string \<Rightarrow> 'r \<Rightarrow> ('y, 'r) ODESolution" where
  "failed options nm msg zero =
     \<lparr> points = [], usedMethod = nm, success = False, error = Some msg,
       metadata = \<lparr> totalPoints = 0, usedStepSize = stepSize options,
                    domain = (t0 options, tEnd options), yrange = zero \<rparr> \<rparr>"

definition solveWithFunction ::
  "NumberFormat \<Rightarrow> ODEFunction \<Rightarrow> jsnum ODEOptions \<Rightarrow> (jsnum, jsnum \<times> jsnum) ODESolution option" where
  "solveWithFunction fmt f options =
     (let validation = validateOptions fmt options in
      if \<not> Validation.valid validation then
        Some (failed options (methodName_of options)
               (case Validation.error validation of None \<Rightarrow> ''Unknown validation error'' | Some m \<Rightarrow> m)
               (Fin 0, Fin 0))
      else
        (let methodName = methodName_of options in
         case getMethod methodName of
           None \<Rightarrow>
             Some (failed options methodName (''Unknown numerical method: '' @ methodName) (Fin 0, Fin 0))
         | Some m \<Rightarrow>
             (case numericalSolve fmt f options m of
                None \<Rightarrow> None
              | Some (Inl e) \<Rightarrow>
                  Some (failed options (methodName_of options)
                         (''Computation error: '' @ message_of e) (Fin 0, Fin 0))
              | Some (Inr solution) \<Rightarrow> Some solution)))"

text \<open>
  Vocabulary for the properties of the loop. A method advances when the time it
  returns is \<open>t + h\<close>; a point is sound when its three numbers are finite and its
  value is within the stability bound; \<open>loop_exit\<close> describes the state in which the
  loop, started with \<open>iterations\<close> entries behind it and the points \<open>pts\<close>, is left:
  through \<^verbatim>\<open>break\<close> at the end of the domain, after one entry more than points added, or
  through the loop test, after as many entries as points added.
\<close>

definition advances :: "('f, 'y) NumericalMethod \<Rightarrow> bool" where
  "advances m = (\<forall>f t y h newT newY. solve m f t y h = Inr (newT, newY) \<longrightarrow> newT = t + h)"

definition sound_point :: "jsnum SolutionPoint \<Rightarrow> bool" where
  "sound_point p =
     (isFinite (pt_t p) \<and> isFinite (pt_y p) \<and> isFinite (pt_dydt p)
      \<and> \<not> Fin 10000000000 < \<bar>pt_y p\<bar>)"

definition loop_exit ::
  "jsnum \<Rightarrow> jsnum \<Rightarrow> ('y SolutionPoint \<Rightarrow> bool) \<Rightarrow> jsnum \<Rightarrow> nat \<Rightarrow> 'y SolutionPoint list
     \<Rightarrow> thrown + (jsnum \<times> 'y \<times> nat \<times> 'y SolutionPoint list) \<Rightarrow> bool" where
  "loop_exit tE maxIt sound t iterations pts r =
     (case r of
        Inl e \<Rightarrow> (\<exists>msg. e = Error (''Integration failed at step '' @ msg))
      | Inr (t', y', iterations', pts') \<Rightarrow>
          (\<exists>more. pts' = pts @ more \<and> list_all sound more
             \<and> ((t' = tE \<and> iterations' = Suc (iterations + length more)
                  \<and> (if more = [] then t = tE else pt_t (last more) = tE))
                \<or> (\<not> Fin (real iterations') < maxIt \<and> iterations' = iterations + length more))))"

text \<open>
  The part of \<open>loop_exit\<close> that holds of every run of the loop, whatever the options.
\<close>

definition exit_shape ::
  "jsnum \<Rightarrow> ('y SolutionPoint \<Rightarrow> bool) \<Rightarrow> nat \<Rightarrow> 'y SolutionPoint list
     \<Rightarrow> thrown + (jsnum \<times> 'y \<times> nat \<times> 'y SolutionPoint list) \<Rightarrow> bool" where
  "exit_shape maxIt sound it pts r =
     (case r of Inl e \<Rightarrow> True
      | Inr (t', y', it', pts') \<Rightarrow>
     (\<exists>more. pts' = pts @ more \<and> list_all sound more
        \<and> (it' = Suc (it + length more) \<or> (\<not> Fin (real it') < maxIt \<and> it' = it + length more))))"


text \<open>A small run for closed examples: two Euler steps of the test equation.\<close>

definition demo :: "jsnum ODEOptions" where
  "demo = \<lparr> t0 = Fin 0, y0 = Fin 1, tEnd = Fin 1, stepSize = Fin (1/2), method_key = None, maxIterations = None \<rparr>"


text \<open>
  A method reads the derivative when a finite new value shows that the first stage
  \<open>f t y\<close> returned a finite number.
\<close>

definition reads_derivative :: "(ODEFunction, jsnum) NumericalMethod \<Rightarrow> bool" where
  "reads_derivative m = (\<forall>f t y h newT newY. solve m f t y h = Inr (newT, newY) \<and> isFinite newY \<longrightarrow>
      (\<exists>k. f t y = Inr k \<and> isFinite k))"


section \<open>The coupled-system solver (ode-solver.ts)\<close>

text \<open>
  The body of the \<^verbatim>\<open>try\<close> block of one iteration of the coupled loop.
  \<^verbatim>\<open>newY.some(yi => !Number.isFinite(yi))\<close> is \<open>list_ex\<close>.
\<close>

definition coupled_attempt_step ::
  "NumberFormat \<Rightarrow> CoupledODEFunction \<Rightarrow> (CoupledODEFunction, jsnum list) NumericalMethod
     \<Rightarrow> jsnum \<Rightarrow> jsnum list \<Rightarrow> jsnum \<Rightarrow> thrown + jsnum list SolutionPoint" where
  "coupled_attempt_step fmt f m t y currentH =
     (case solve m f t y currentH of Inl e \<Rightarrow> Inl e
      | Inr (newT, newY) \<Rightarrow>
          if \<not> isFinite newT \<or> list_ex (\<lambda>yi. \<not> isFinite yi) newY then
            Inl (Error (''Non-finite values encountered at t='' @ toFixed fmt t 6))
          else if list_ex (\<lambda>yi. Fin 10000000000 < \<bar>yi\<bar>) newY then
            Inl (Error (''Solution became unstable at t='' @ toFixed fmt newT 6))
          else
            (case f newT newY of Inl e \<Rightarrow> Inl e
             | Inr dydt \<Rightarrow>
                 if list_ex (\<lambda>derivative. \<not> isFinite derivative) dydt then
                   Inl (Error (''Derivative became non-finite at t='' @ toFixed fmt newT 6))
                 else Inr \<lparr> pt_t = newT, pt_y = newY, pt_dydt = dydt \<rparr>))"

partial_function (option) coupled_integrate ::
  "NumberFormat \<Rightarrow> CoupledODEFunction \<Rightarrow> jsnum list ODEOptions
     \<Rightarrow> (CoupledODEFunction, jsnum list) NumericalMethod
     \<Rightarrow> jsnum \<Rightarrow> jsnum list \<Rightarrow> nat \<Rightarrow> jsnum list SolutionPoint list
     \<Rightarrow> (thrown + (jsnum \<times> jsnum list \<times> nat \<times> jsnum list SolutionPoint list)) option" where
  "coupled_integrate fmt f options m t y iterations pts =
     (if \<not> (Fin (real iterations) < maxIterations_of options) then Some (Inr (t, y, iterations, pts))
      else if isForward options \<and> tEnd options \<le> t then Some (Inr (t, y, Suc iterations, pts))
      else if \<not> isForward options \<and> t \<le> tEnd options then Some (Inr (t, y, Suc iterations, pts))
      else
        (case coupled_attempt_step fmt f m t y (currentH_of options t) of
           Inl e \<Rightarrow>
             Some (Inl (Error (''Integration failed at step '' @ toString fmt (Fin (real (Suc iterations)))
                               @ '': '' @ message_of e)))
         | Inr p \<Rightarrow> coupled_integrate fmt f options m (pt_t p) (pt_y p) (Suc iterations) (pts @ [p])))"

declare coupled_integrate.simps [code]

text \<open>
  The range of component \<open>i\<close> over the trajectory:
  \<^verbatim>\<open>points.map(p => p.y[i] ?? 0)\<close>, then its minimum and maximum.
\<close>

definition component_range :: "jsnum list SolutionPoint list \<Rightarrow> nat \<Rightarrow> jsnum \<times> jsnum" where
  "component_range pts i =
     (let yValues = map (\<lambda>p. at_or_0 (pt_y p) i) pts
      in (Math_min yValues, Math_max yValues))"

definition coupled_numericalSolve ::
  "NumberFormat \<Rightarrow> CoupledODEFunction \<Rightarrow> jsnum list ODEOptions
     \<Rightarrow> (CoupledODEFunction, jsnum list) NumericalMethod
     \<Rightarrow> (thrown + (jsnum list, (jsnum \<times> jsnum) list) ODESolution) option" where
  "coupled_numericalSolve fmt f options m =
     (case f (t0 options) (y0 options) of Inl e \<Rightarrow> Some (Inl e)
      | Inr dydt0 \<Rightarrow>
         (case coupled_integrate fmt f options m (t0 options) (y0 options) 0
                 [\<lparr> pt_t = t0 options, pt_y = y0 options, pt_dydt = dydt0 \<rparr>] of
            None \<Rightarrow> None
          | Some (Inl e) \<Rightarrow> Some (Inl e)
          | Some (Inr (t, y, iterations, pts)) \<Rightarrow>
              if maxIterations_of options \<le> Fin (real iterations) then
                Some (Inl (Error (''Maximum iterations ('' @ toString fmt (maxIterations_of options)
                                  @ '') reached without convergence'')))
              else
                (let ranges = map (component_range pts) [0..<length (y0 options)]
                 in Some (Inr \<lparr> points = pts, usedMethod = name m, success = True, error = None,
                      metadata = \<lparr> totalPoints = length pts, usedStepSize = stepSize options,
                                   domain = (t0 options, tEnd options), yrange = ranges \<rparr> \<rparr>))))"

definition coupled_solveWithFunction ::
  "NumberFormat \<Rightarrow> CoupledODEFunction \<Rightarrow> jsnum list ODEOptions
     \<Rightarrow> (jsnum list, (jsnum \<times> jsnum) list) ODESolution option" where
  "coupled_solveWithFunction fmt f options =
     (let validation = coupled_validateOptions options;
          zero = map (\<lambda>_. (Fin 0, Fin 0)) (y0 options)
      in
      if \<not> Validation.valid validation then
        Some (failed options (methodName_of options)
               (case Validation.error validation of None \<Rightarrow> ''Unknown validation error'' | Some m \<Rightarrow> m)
               zero)
      else
        (let methodName = methodName_of options in
         case coupled_getMethod methodName of
           None \<Rightarrow>
             Some (failed options methodName (''Unknown numerical method: '' @ methodName) zero)
         | Some m \<Rightarrow>
             (case coupled_numericalSolve fmt f options m of
                None \<Rightarrow> None
              | Some (Inl e) \<Rightarrow>
                  Some (failed options (methodName_of options)
                         (''Computation error: '' @ message_of e) zero)
              | Some (Inr solution) \<Rightarrow> Some solution)))"

text \<open>A point of a coupled trajectory is sound when all its numbers pass the loop's checks.\<close>

definition coupled_sound_point :: "jsnum list SolutionPoint \<Rightarrow> bool" where
  "coupled_sound_point p =
     (isFinite (pt_t p) \<and> list_all isFinite (pt_y p) \<and> list_all isFinite (pt_dydt p)
      \<and> \<not> list_ex (\<lambda>yi. Fin 10000000000 < \<bar>yi\<bar>) (pt_y p))"


text \<open>
  A system of two equations for closed examples, integrated in one Euler step.
\<close>

definition short_system :: "jsnum list ODEOptions" where
  "short_system = \<lparr> t0 = Fin 0, y0 = [Fin 1, Fin 2], tEnd = Fin 1, stepSize = Fin 1,
       method_key = Some ''euler'', maxIterations = None \<rparr>"


subsection \<open>Normalization and identifiers\<close>

text \<open>The backslash of the pattern sources.\<close>

definition bs :: string where
  "bs = [CHR 0x5C]"

text \<open>The patterns of \<^verbatim>\<open>normalizeExpression\<close>, in the order in which they are applied.\<close>

definition operand :: regex where
  "operand = Alt (Plus (Atom word_cls))
                 (Cat (chr CHR ''('') (Cat (Plus (Atom (NotIn [(CHR '')'', CHR '')'')]))) (chr CHR '')'')))"

definition caret_pattern :: RegExp where
  "caret_pattern =
     \<lparr> source = bs @ ''b('' @ bs @ ''w+|'' @ bs @ ''([^)]+'' @ bs @ '')'' @ '')''
                 @ bs @ ''s*'' @ bs @ ''^'' @ bs @ ''s*(''
                 @ bs @ ''w+|'' @ bs @ ''([^)]+'' @ bs @ '')'' @ '')'',
       pattern = Cat WordB (Cat (Group 1 operand) (Cat (Star (Atom space_cls))
                   (Cat (chr CHR ''^'') (Cat (Star (Atom space_cls)) (Group 2 operand))))),
       ignoreCase = False \<rparr>"

definition starstar_pattern :: RegExp where
  "starstar_pattern =
     \<lparr> source = bs @ ''b('' @ bs @ ''w+|'' @ bs @ ''([^)]+'' @ bs @ '')'' @ '')''
                 @ bs @ ''s*'' @ bs @ ''*'' @ bs @ ''*'' @ bs @ ''s*(''
                 @ bs @ ''w+|'' @ bs @ ''([^)]+'' @ bs @ '')'' @ '')'',
       pattern = Cat WordB (Cat (Group 1 operand) (Cat (Star (Atom space_cls))
                   (Cat (lit ''**'') (Cat (Star (Atom space_cls)) (Group 2 operand))))),
       ignoreCase = False \<rparr>"

definition word_paren_pattern :: RegExp where
  "word_paren_pattern =
     \<lparr> source = ''('' @ bs @ ''w)'' @ bs @ ''s*'' @ bs @ ''('',
       pattern = Cat (Group 1 (Atom word_cls)) (Cat (Star (Atom space_cls)) (chr CHR ''('')),
       ignoreCase = False \<rparr>"

definition paren_word_pattern :: RegExp where
  "paren_word_pattern =
     \<lparr> source = bs @ '')'' @ bs @ ''s*('' @ bs @ ''w)'',
       pattern = Cat (chr CHR '')'') (Cat (Star (Atom space_cls)) (Group 1 (Atom word_cls))),
       ignoreCase = False \<rparr>"

definition pi_pattern :: RegExp where
  "pi_pattern =
     \<lparr> source = bs @ ''bpi'' @ bs @ ''b'',
       pattern = Cat WordB (Cat (lit ''pi'') WordB), ignoreCase = True \<rparr>"

definition e_pattern :: RegExp where
  "e_pattern =
     \<lparr> source = bs @ ''be'' @ bs @ ''b(?!'' @ bs @ ''w)'',
       pattern = Cat WordB (Cat (chr CHR ''e'') (Cat WordB (NotAhead (Atom word_cls)))),
       ignoreCase = True \<rparr>"

definition operator_pattern :: RegExp where
  "operator_pattern =
     \<lparr> source = ''([+'' @ bs @ ''-*/])'',
       pattern = Group 1 (Atom (In [(CHR ''+'', CHR ''+''), (CHR ''-'', CHR ''-''),
                                    (CHR ''*'', CHR ''*''), (CHR ''/'', CHR ''/'')])),
       ignoreCase = False \<rparr>"

definition spaces_pattern :: RegExp where
  "spaces_pattern =
     \<lparr> source = bs @ ''s+'', pattern = Plus (Atom space_cls), ignoreCase = False \<rparr>"

definition normalizeExpression :: "string \<Rightarrow> string" where
  "normalizeExpression expression =
     trim
      (replace spaces_pattern [Text '' '']
      (replace operator_pattern [Text '' '', Ref 1, Text '' '']
      (replace e_pattern [Text ''e'']
      (replace pi_pattern [Text ''pi'']
      (replace paren_word_pattern [Text '')*'', Ref 1]
      (replace word_paren_pattern [Ref 1, Text ''*('']
      (replace starstar_pattern [Text ''pow('', Ref 1, Text '', '', Ref 2, Text '')'']
      (replace caret_pattern [Text ''pow('', Ref 1, Text '', '', Ref 2, Text '')'']
      (trim expression)))))))))"

definition VARIABLE_PATTERN :: RegExp where
  "VARIABLE_PATTERN =
     \<lparr> source = bs @ ''b([a-zA-Z_][a-zA-Z0-9_]*)'' @ bs @ ''b'',
       pattern = Cat WordB
                  (Cat (Group 1 (Cat (Atom (In [(CHR ''a'', CHR ''z''), (CHR ''A'', CHR ''Z''),
                                                (CHR ''_'', CHR ''_'')]))
                                     (Star (Atom word_cls))))
                       WordB),
       ignoreCase = False \<rparr>"

text \<open>
  \<^verbatim>\<open>extractVariables\<close>: the identifiers that are neither allowed functions nor allowed
  constants, as \<^verbatim>\<open>Array.from(set).sort()\<close>: without repetition, in the order of the
  character codes.
\<close>

definition extractVariables :: "string \<Rightarrow> string list" where
  "extractVariables expression =
     sort (remdups
       (filter (\<lambda>variable. variable \<notin> set ALLOWED_FUNCTIONS \<and> variable \<notin> set ALLOWED_CONSTANTS)
         (filter (\<lambda>variable. trim variable \<noteq> [])
           (concat (map (\<lambda>g. case g of None \<Rightarrow> [] | Some variable \<Rightarrow> [variable])
                        (exec_all VARIABLE_PATTERN [] expression))))))"

subsection \<open>The expression engine\<close>

text \<open>
  The expressions are compiled and evaluated by the library mathjs, which is not part
  of the repository. It is a parameter of the parser: \<^verbatim>\<open>parse(text)\<close> returns a compiled
  expression or throws, and \<^verbatim>\<open>compiled.evaluate(scope)\<close> returns a value or throws. A
  value that is not a number fails \<^verbatim>\<open>Number.isFinite\<close> like \<^verbatim>\<open>NaN\<close> and is not told apart
  from it.
\<close>

type_synonym scope = "(string \<times> jsnum) list"

type_synonym MathEngine = "string \<Rightarrow> thrown + (scope \<Rightarrow> thrown + jsnum)"

record ('o, 'f) ParsedEquation = Validation +
  original :: 'o
  evaluate :: 'f
  variables :: "string list"

text \<open>\<^verbatim>\<open>Array.prototype.join\<close>.\<close>

fun join :: "string \<Rightarrow> string list \<Rightarrow> string" where
  "join sep [] = []"
| "join sep [x] = x"
| "join sep (x # y # ys) = x @ sep @ join sep (y # ys)"

subsection \<open>parse\<close>

definition parse :: "MathEngine \<Rightarrow> string \<Rightarrow> (string, ODEFunction) ParsedEquation" where
  "parse engine expression =
     (let cleanExpression = normalizeExpression expression;
          variables = extractVariables cleanExpression;
          invalidVars = filter (\<lambda>v. v \<notin> set [''t'', ''y'']) variables
      in if length invalidVars > 0 then
           \<lparr> valid = False,
             error = Some (''Invalid variables found: '' @ join '', '' invalidVars
                           @ ''. Only 't' and 'y' are allowed.''),
             original = expression,
             evaluate = (\<lambda>t y. Inl (Error ''Invalid variables'')),
             variables = variables \<rparr>
         else
           (case engine cleanExpression of
              Inl e \<Rightarrow>
                \<lparr> valid = False, error = Some (''Parse error: '' @ message_of e),
                  original = expression,
                  evaluate = (\<lambda>t y. Inl (Error ''Parse error'')),
                  variables = [] \<rparr>
            | Inr compiledExpression \<Rightarrow>
                (let evaluate = (\<lambda>t y.
                       case compiledExpression [(''t'', t), (''y'', y)] of
                         Inl e \<Rightarrow> Inl (Error (''Evaluation error: '' @ message_of e))
                       | Inr v \<Rightarrow> Inr v)
                 in case (case evaluate (Fin 1) (Fin 1) of
                            Inl e \<Rightarrow> Inl e
                          | Inr testResult \<Rightarrow>
                              if \<not> isFinite testResult
                              then Inl (Error ''Function produces non-finite values'')
                              else Inr ()) of
                      Inl e \<Rightarrow>
                        \<lparr> valid = False,
                          error = Some (''Function test failed: '' @ message_of e),
                          original = expression, evaluate = evaluate, variables = variables \<rparr>
                    | Inr _ \<Rightarrow>
                        \<lparr> valid = True, error = None,
                          original = expression, evaluate = evaluate, variables = variables \<rparr>)))"

subsection \<open>parseCoupled\<close>

text \<open>The decimal digits of a number, for the names \<^verbatim>\<open>y1\<close>, \<^verbatim>\<open>y2\<close>, ... of the scope.\<close>

fun decimal :: "nat \<Rightarrow> string" where
  "decimal n =
     (if n < 10 then [char_of (48 + n)]
      else decimal (n div 10) @ [char_of (48 + n mod 10)])"

definition expectedPattern :: RegExp where
  "expectedPattern =
     \<lparr> source = ''^(t|y'' @ bs @ ''d+)$'',
       pattern = Cat Bol (Cat (Group 1 (Alt (chr CHR ''t'') (Cat (chr CHR ''y'') (Plus (Atom digit_cls))))) Eol),
       ignoreCase = False \<rparr>"

text \<open>
  The loop over the clean expressions compiles each of them; the first one that the
  engine rejects throws, and the \<^verbatim>\<open>catch\<close> of \<^verbatim>\<open>parseCoupled\<close> reports it.
\<close>

fun compile_all :: "MathEngine \<Rightarrow> string list \<Rightarrow> thrown + (scope \<Rightarrow> thrown + jsnum) list" where
  "compile_all engine [] = Inr []"
| "compile_all engine (expr # exprs) =
     (case engine expr of
        Inl e \<Rightarrow> Inl e
      | Inr tree \<Rightarrow>
          (case compile_all engine exprs of Inl e \<Rightarrow> Inl e | Inr trees \<Rightarrow> Inr (tree # trees)))"

text \<open>\<^verbatim>\<open>parsedTrees.map(tree => ...)\<close>: the first tree whose evaluation fails throws.\<close>

fun evaluate_all :: "(scope \<Rightarrow> thrown + jsnum) list \<Rightarrow> scope \<Rightarrow> thrown + jsnum list" where
  "evaluate_all [] context = Inr []"
| "evaluate_all (tree # trees) context =
     (case (case tree context of
              Inl e \<Rightarrow> Inl e
            | Inr result \<Rightarrow> if \<not> isFinite result then Inl (Error ''Non-numeric result'') else Inr result) of
        Inl e \<Rightarrow> Inl (Error (''Evaluation failed: '' @ message_of e))
      | Inr result \<Rightarrow>
          (case evaluate_all trees context of Inl e \<Rightarrow> Inl e | Inr results \<Rightarrow> Inr (result # results)))"

definition coupled_scope :: "jsnum \<Rightarrow> jsnum list \<Rightarrow> scope" where
  "coupled_scope t y =
     (''t'', t) # map (\<lambda>(yValue, i). (''y'' @ decimal (i + 1), yValue)) (zip y [0..<length y])"

definition parseCoupled ::
  "MathEngine \<Rightarrow> string list \<Rightarrow> (string list, CoupledODEFunction) ParsedEquation" where
  "parseCoupled engine expressions =
     (if length expressions = 0 then
        \<lparr> valid = False, error = Some ''No equations provided'',
          original = [], evaluate = (\<lambda>t y. Inl (Error ''No equations'')), variables = [] \<rparr>
      else
        (let cleanExpressions = map normalizeExpression expressions in
         case compile_all engine cleanExpressions of
           Inl e \<Rightarrow>
             \<lparr> valid = False, error = Some (''Parse error: '' @ message_of e),
               original = expressions, evaluate = (\<lambda>t y. Inl (Error ''Parse error'')),
               variables = [] \<rparr>
         | Inr parsedTrees \<Rightarrow>
             (let variableArray = sort (remdups (concat (map extractVariables cleanExpressions))) in
              case find (\<lambda>variable. \<not> test expectedPattern variable) variableArray of
                Some variable \<Rightarrow>
                  \<lparr> valid = False,
                    error = Some (''Invalid variable '' @ [CHR 0x27] @ variable @ [CHR 0x27]
                                  @ ''. Expected format: t, y1, y2, y3, etc.''),
                    original = expressions,
                    evaluate = (\<lambda>t y. Inl (Error ''Invalid variables'')),
                    variables = variableArray \<rparr>
              | None \<Rightarrow>
                  \<lparr> valid = True, error = None, original = expressions,
                    evaluate = (\<lambda>t y. evaluate_all parsedTrees (coupled_scope t y)),
                    variables = variableArray \<rparr>)))"

subsection \<open>solve\<close>

definition solve_equation ::
  "NumberFormat \<Rightarrow> MathEngine \<Rightarrow> string \<Rightarrow> jsnum ODEOptions
     \<Rightarrow> (jsnum, jsnum \<times> jsnum) ODESolution option" where
  "solve_equation fmt engine expression options =
     (let parsedEq = parse engine expression in
      if \<not> Validation.valid parsedEq then
        Some (failed options (methodName_of options)
               (case Validation.error parsedEq of None \<Rightarrow> ''Unknown parsing error'' | Some m \<Rightarrow> m)
               (Fin 0, Fin 0))
      else solveWithFunction fmt (evaluate parsedEq) options)"

definition coupled_solve ::
  "NumberFormat \<Rightarrow> MathEngine \<Rightarrow> string list \<Rightarrow> jsnum list ODEOptions
     \<Rightarrow> (jsnum list, (jsnum \<times> jsnum) list) ODESolution option" where
  "coupled_solve fmt engine expressions options =
     (let parsedEqs = parseCoupled engine expressions in
      if \<not> Validation.valid parsedEqs then
        Some (failed options (methodName_of options)
               (case Validation.error parsedEqs of None \<Rightarrow> ''Unknown parsing error'' | Some m \<Rightarrow> m)
               (map (\<lambda>_. (Fin 0, Fin 0)) (y0 options)))
      else coupled_solveWithFunction fmt (evaluate parsedEqs) options)"

text \<open>
  Two engines for closed examples. The first accepts every text and evaluates it to 0.
  The second rejects a text that ends in a binary operator, as a parser of the grammar
  of the expressions does, and otherwise behaves like the first.
\<close>

definition constant_engine :: MathEngine where
  "constant_engine text = Inr (\<lambda>scope. Inr (Fin 0))"

definition dangling_engine :: MathEngine where
  "dangling_engine text =
     (if text \<noteq> [] \<and> last text \<in> set ''+-*/''
      then Inl (Error (''Unexpected end of expression (char '' @ decimal (length text + 1) @ '')''))
      else Inr (\<lambda>scope. Inr (Fin 0)))"

text \<open>Valid options whose iteration cap is \<^verbatim>\<open>NaN\<close>.\<close>

definition nan_cap :: "jsnum ODEOptions" where
  "nan_cap = \<lparr> t0 = Fin 0, y0 = Fin 1, tEnd = Fin 1, stepSize = Fin (1/10), method_key = None,
               maxIterations = Some NaN \<rparr>"


text \<open>
  The binary64 number written \<^verbatim>\<open>0.1\<close>, and options whose step and end are binary64 numbers
  (\<^verbatim>\<open>0.19014274576114837\<close> and \<^verbatim>\<open>1.9014274576114836\<close>) with a quotient that rounds to 10.
\<close>

definition binary64_tenth :: real where
  "binary64_tenth = 3602879701896397 / 36028797018963968"

definition rounded_ten :: "jsnum ODEOptions" where
  "rounded_ten = \<lparr> t0 = Fin 0, y0 = Fin 1, tEnd = Fin (8563267989571107 / 4503599627370496),
       stepSize = Fin (3425307195828443 / 18014398509481984), method_key = None,
       maxIterations = None \<rparr>"



text \<open>The test equation \<^verbatim>\<open>(t, y) => t + y\<close> of the unit tests.\<close>

definition simpleODE :: ODEFunction where
  "simpleODE t y = Inr (t + y)"

section \<open>Single steps\<close>

text \<open>
  C7. For \<^verbatim>\<open>f(t,y) = t + y\<close>, one Euler step from \<^verbatim>\<open>(0,1)\<close> with \<^verbatim>\<open>h = 0.1\<close> yields
  exactly \<^verbatim>\<open>y = 1.1\<close>, and one RK4 step from the same point yields a \<^verbatim>\<open>y\<close> strictly
  between 1.1 and 1.12 (133241/120000, about 1.1103). In general, for an evaluator that
  returns its stage derivatives, the Euler step is \<^verbatim>\<open>(t+h, y + h*f(t,y))\<close> and the RK4
  step is the classical four-stage formula with weights (1,2,2,1)/6.
\<close>

theorem C7_euler_rk4_steps:
  "solve euler simpleODE (Fin 0) (Fin 1) (Fin (1/10)) = Inr (Fin (1/10), Fin (11/10))
   \<and> solve rk4 simpleODE (Fin 0) (Fin 1) (Fin (1/10)) = Inr (Fin (1/10), Fin (133241/120000))
   \<and> (11/10 :: real) < 133241/120000 \<and> (133241/120000 :: real) < 112/100
   \<and> (f t y = Inr k1 \<longrightarrow> solve euler f t y h = Inr (t + h, y + h * k1))
   \<and> (f t y = Inr k1 \<and>
        f (t + h / Fin 2) (y + h * k1 / Fin 2) = Inr k2 \<and>
        f (t + h / Fin 2) (y + h * k2 / Fin 2) = Inr k3 \<and>
        f (t + h) (y + h * k3) = Inr k4 \<longrightarrow>
        solve rk4 f t y h =
          Inr (t + h, y + h * (k1 + Fin 2 * k2 + Fin 2 * k3 + k4) / Fin 6))"
  by (simp add: euler_def rk4_def euler_solve_def rk4_solve_def simpleODE_def)

theorem C7_euler_rk4_steps_witness:
  "solve euler (\<lambda>t y. Inr (Fin 3)) (Fin 0) (Fin 1) (Fin 2) = Inr (Fin 2, Fin 7)
   \<and> solve rk4 (\<lambda>t y. Inr (Fin 3)) (Fin 0) (Fin 1) (Fin 2) = Inr (Fin 2, Fin 7)"
  using C7_euler_rk4_steps [of "\<lambda>t y. Inr (Fin 3)" "Fin 0" "Fin 1" "Fin 3" "Fin 2" "Fin 3" "Fin 3" "Fin 3"]
  by simp

section \<open>Rounding to binary64\<close>

lemma ties_to_even_of_int: "ties_to_even (of_int m) = m"
  by (simp add: ties_to_even_def)

lemma ties_to_even_near: "\<bar>x - of_int m\<bar> < 1/2 \<Longrightarrow> ties_to_even x = m"
proof -
  assume a: "\<bar>x - of_int m\<bar> < 1/2"
  show ?thesis
  proof (cases "of_int m \<le> x")
    case True
    with a have "\<lfloor>x\<rfloor> = m" by (intro floor_unique) auto
    with a True show ?thesis by (simp add: ties_to_even_def)
  next
    case False
    with a have f: "\<lfloor>x\<rfloor> = m - 1" by (intro floor_unique) auto
    with a False show ?thesis by (simp add: ties_to_even_def)
  qed
qed

lemma ties_to_even_nonneg: "0 \<le> x \<Longrightarrow> 0 \<le> ties_to_even x"
  by (auto simp: ties_to_even_def Let_def)

lemma ties_to_even_le_double: "0 \<le> x \<Longrightarrow> of_int (ties_to_even x) \<le> 2 * x"
proof -
  assume x: "0 \<le> x"
  have fx: "of_int \<lfloor>x\<rfloor> \<le> x" by simp
  show ?thesis
  proof (cases "x - of_int \<lfloor>x\<rfloor> < 1/2")
    case True
    then have "ties_to_even x = \<lfloor>x\<rfloor>" by (simp add: ties_to_even_def)
    with fx x show ?thesis by linarith
  next
    case False
    have "ties_to_even x \<le> \<lfloor>x\<rfloor> + 1" by (simp add: ties_to_even_def Let_def)
    then have "of_int (ties_to_even x) \<le> (of_int \<lfloor>x\<rfloor> + 1 :: real)"
      by (metis of_int_1 of_int_add of_int_le_iff)
    moreover from x have "(0 :: real) \<le> of_int \<lfloor>x\<rfloor>" by simp
    ultimately show ?thesis using False by linarith
  qed
qed

lemma ties_to_even_minus: "ties_to_even (- x) = - ties_to_even x"
proof (cases "x = of_int \<lfloor>x\<rfloor>")
  case True
  then obtain n where "x = of_int n" by blast
  then have "ties_to_even x = n" "ties_to_even (- x) = - n"
    using ties_to_even_of_int[of n] ties_to_even_of_int[of "- n"] by simp_all
  then show ?thesis by simp
next
  case False
  define n where "n = \<lfloor>x\<rfloor>"
  have lo: "of_int n < x" using False unfolding n_def by (smt (verit) of_int_floor_le)
  have hi: "x < of_int n + 1" unfolding n_def by linarith
  have fm: "\<lfloor>- x\<rfloor> = - n - 1" using lo hi by (intro floor_unique) auto
  consider "x - of_int n < 1/2" | "1/2 < x - of_int n" | "x - of_int n = 1/2" by linarith
  then show ?thesis
  proof cases
    case 1
    then show ?thesis using lo hi by (simp add: ties_to_even_def fm n_def[symmetric])
  next
    case 2
    then show ?thesis using lo hi by (simp add: ties_to_even_def fm n_def[symmetric])
  next
    case 3
    then have "- x - of_int (- n - 1) = 1/2" by simp
    with 3 show ?thesis by (simp add: ties_to_even_def fm n_def[symmetric])
  qed
qed

lemma exponent_from_eq:
  "2 powi k \<le> x \<Longrightarrow> x < 2 powi (k + 1) \<Longrightarrow> k \<le> e \<Longrightarrow> e - int n \<le> k
     \<Longrightarrow> exponent_from n e x = k"
proof (induction n arbitrary: e)
  case 0
  then show ?case by simp
next
  case (Suc n)
  show ?case
  proof (cases "2 powi e \<le> x")
    case True
    have "e < k + 1"
    proof (rule ccontr)
      assume "\<not> e < k + 1"
      then have "(2 :: real) powi (k + 1) \<le> 2 powi e"
        by (intro power_int_increasing) auto
      with True Suc.prems(2) show False by linarith
    qed
    with Suc.prems(3) True show ?thesis by simp
  next
    case False
    with Suc.prems(1) have "e \<noteq> k" by auto
    with Suc.prems(3,4) have "k \<le> e - 1" "e - 1 - int n \<le> k" by simp_all
    from Suc.IH[OF Suc.prems(1,2) this] False show ?thesis by simp
  qed
qed

lemma ulp_exponent_eq:
  assumes "2 powi k \<le> \<bar>x\<bar>" "\<bar>x\<bar> < 2 powi (k + 1)" "- 1022 \<le> k" "k \<le> 1023"
  shows "ulp_exponent x = k - 52"
  using exponent_from_eq[OF assms(1,2), of 1023 2045] assms(3,4)
  by (simp add: ulp_exponent_def)

lemma round64_eval:
  assumes "2 powi k \<le> \<bar>x\<bar>" "\<bar>x\<bar> < 2 powi (k + 1)" "- 1022 \<le> k" "k \<le> 1023"
    and "\<bar>x / 2 powi (k - 52) - of_int m\<bar> < 1/2"
    and "\<bar>of_int m * 2 powi (k - 52)\<bar> < (2 :: real) ^ 1024"
  shows "round64 x = Fin (of_int m * 2 powi (k - 52))"
proof -
  have "(0 :: real) < 2 powi k" by simp
  with assms(1) have "0 < \<bar>x\<bar>" by linarith
  then have x0: "x \<noteq> 0" by simp
  have e: "ulp_exponent x = k - 52"
    using assms(1,2,3,4) by (rule ulp_exponent_eq)
  have r: "ties_to_even (x / 2 powi (k - 52)) = m" using assms(5) by (rule ties_to_even_near)
  show ?thesis using x0 assms(6) by (simp add: round64_def e r Let_def)
qed

lemma powi_nat_diff:
  assumes "j \<le> 52"
  shows "(2 :: real) powi (int j - 52) = 1 / 2 ^ (52 - j)"
proof -
  from assms have "int j - 52 = - int (52 - j)" by simp
  then have "(2 :: real) powi (int j - 52) = inverse (2 powi (int (52 - j)))"
    by (simp only: power_int_minus)
  then show ?thesis by (simp only: power_int_of_nat inverse_eq_divide)
qed

text \<open>
  The rounding of a number between 1 and \<^verbatim>\<open>2^53\<close> in magnitude, with the binade given by
  a natural exponent, as the closed examples need it.
\<close>

lemma round64_eval_nat:
  assumes "2 ^ j \<le> \<bar>x\<bar>" "\<bar>x\<bar> < 2 ^ (j + 1)" "j \<le> 52"
    and "\<bar>x * 2 ^ (52 - j) - of_int m\<bar> < 1/2"
    and "\<bar>m\<bar> \<le> 2 ^ 53"
  shows "round64 x = Fin (of_int m / 2 ^ (52 - j))"
proof -
  have a: "(2 :: real) powi (int j) = 2 ^ j" "(2 :: real) powi (int j + 1) = 2 ^ (j + 1)"
    using power_int_of_nat[of "2 :: real" j] power_int_of_nat[of "2 :: real" "j + 1"]
    by (simp_all add: add.commute)
  have d: "(2 :: real) powi (int j - 52) = 1 / 2 ^ (52 - j)"
    using assms(3) by (rule powi_nat_diff)
  have 1: "2 powi (int j) \<le> \<bar>x\<bar>" "\<bar>x\<bar> < 2 powi (int j + 1)"
    using assms(1,2) by (simp_all only: a)
  have 3: "- 1022 \<le> int j" "int j \<le> 1023" using assms(3) by simp_all
  have 4: "\<bar>x / 2 powi (int j - 52) - of_int m\<bar> < 1/2"
    using assms(4) by (simp only: d) simp
  have "\<bar>real_of_int m\<bar> \<le> 2 ^ 53"
    using assms(5) by (metis of_int_abs of_int_le_iff of_int_numeral of_int_power)
  moreover have "(1 :: real) \<le> 2 ^ (52 - j)" by simp
  ultimately have "\<bar>real_of_int m\<bar> / 2 ^ (52 - j) \<le> 2 ^ 53"
    by (smt (verit) divide_le_eq_1 frac_le zero_less_power div_by_1)
  moreover have "(2 :: real) ^ 53 < 2 ^ 1024" by simp
  ultimately have 5: "\<bar>of_int m * 2 powi (int j - 52)\<bar> < (2 :: real) ^ 1024"
    by (simp only: d) (simp add: abs_mult)
  from round64_eval[OF 1 3 4 5] show ?thesis by (simp only: d) simp
qed

lemma round64_of_nat:
  assumes "2 ^ j \<le> n" "n < 2 ^ (j + 1)" "j \<le> 52"
  shows "round64 (of_nat n) = Fin (of_nat n)"
proof -
  have 1: "2 ^ j \<le> \<bar>real n\<bar>"
    using assms(1) by (metis abs_of_nat of_nat_le_iff of_nat_numeral of_nat_power)
  have 2: "\<bar>real n\<bar> < 2 ^ (j + 1)"
    using assms(2) by (metis abs_of_nat of_nat_less_iff of_nat_numeral of_nat_power)
  have 4: "\<bar>real n * 2 ^ (52 - j) - of_int (int (n * 2 ^ (52 - j)))\<bar> < 1/2"
    by simp
  have "n * 2 ^ (52 - j) < 2 ^ (j + 1) * 2 ^ (52 - j)"
    using assms(2) by simp
  also have "\<dots> = 2 ^ 53"
    using assms(3) by (simp add: power_add[symmetric] del: power_Suc)
  finally have 5: "\<bar>int (n * 2 ^ (52 - j))\<bar> \<le> 2 ^ 53"
    by (metis abs_of_nat less_imp_le of_nat_le_iff of_nat_numeral of_nat_power)
  from round64_eval_nat[OF 1 2 assms(3) 4 5] show ?thesis by simp
qed

lemma round64_0: "round64 0 = Fin 0"
  by (simp add: round64_def)

lemma round64_1: "round64 1 = Fin 1"
  using round64_of_nat[of 0 1] by simp

lemma round64_2: "round64 2 = Fin 2"
  using round64_of_nat[of 1 2] by simp

lemma round64_10: "round64 10 = Fin 10"
  using round64_of_nat[of 3 10] by simp

lemmas round64_numerals = round64_0 round64_1 round64_2 round64_10

text \<open>The literal \<^verbatim>\<open>0.1\<close> denotes the binary64 number nearest to one tenth.\<close>

lemma powi_neg_nat: "(2 :: real) powi (- int n) = 1 / 2 ^ n"
  by (simp only: power_int_minus power_int_of_nat inverse_eq_divide)

lemma round64_tenth: "round64 (1/10) = Fin binary64_tenth"
proof -
  have a: "(2 :: real) powi (- 4) = 1 / 2 ^ 4" "(2 :: real) powi (- 4 + 1) = 1 / 2 ^ 3"
    "(2 :: real) powi (- 4 - 52) = 1 / 2 ^ 56"
    using powi_neg_nat[of 4] powi_neg_nat[of 3] powi_neg_nat[of 56] by simp_all
  have "round64 (1/10) = Fin (of_int 7205759403792794 * 2 powi (- 4 - 52))"
  proof (rule round64_eval)
    show "2 powi (- 4) \<le> \<bar>1 / 10 :: real\<bar>" by (simp only: a) simp
    show "\<bar>1 / 10 :: real\<bar> < 2 powi (- 4 + 1)" by (simp only: a) simp
    show "- 1022 \<le> (- 4 :: int)" "(- 4 :: int) \<le> 1023" by simp_all
    show "\<bar>1 / 10 / 2 powi (- 4 - 52) - real_of_int 7205759403792794\<bar> < 1 / 2"
      by (simp only: a) simp
    show "\<bar>real_of_int 7205759403792794 * 2 powi (- 4 - 52)\<bar> < 2 ^ 1024"
      by (simp only: a) simp
  qed
  then show ?thesis by (simp only: a binary64_tenth_def) simp
qed

text \<open>
  Rounding is odd, keeps the sign, and at most doubles a magnitude.
\<close>

lemma round64_minus: "round64 (- x) = - round64 x"
proof (cases "x = 0")
  case True
  then show ?thesis by (simp add: round64_def)
next
  case False
  define u :: real where "u = 2 powi ulp_exponent x"
  define r where "r = of_int (ties_to_even (x / u)) * u"
  have e: "ulp_exponent (- x) = ulp_exponent x" by (simp add: ulp_exponent_def)
  have m: "of_int (ties_to_even (- x / u)) * u = - r"
    using ties_to_even_minus[of "x / u"] by (simp add: r_def)
  have big: "r \<noteq> 0" if "2 ^ 1024 \<le> \<bar>r\<bar>"
  proof -
    have "(0 :: real) < 2 ^ 1024" by simp
    with that show ?thesis by linarith
  qed
  have 1: "round64 x = (if 2 ^ 1024 \<le> \<bar>r\<bar> then sign_inf (0 < r) else Fin r)"
    using False by (simp add: round64_def Let_def u_def[symmetric] r_def[symmetric])
  have 2: "round64 (- x) = (if 2 ^ 1024 \<le> \<bar>r\<bar> then sign_inf (0 < - r) else Fin (- r))"
    using False m by (simp add: round64_def Let_def e u_def[symmetric])
  show ?thesis
  proof (cases "2 ^ 1024 \<le> \<bar>r\<bar>")
    case True
    from big[OF True] consider "0 < r" | "r < 0" by linarith
    then show ?thesis using True by cases (simp_all add: 1 2)
  next
    case c: False
    then show ?thesis by (simp add: 1 2)
  qed
qed

lemma round64_nonneg_cases:
  assumes "0 \<le> x"
  shows "round64 x = PInf \<or> (\<exists>r. round64 x = Fin r \<and> 0 \<le> r \<and> r \<le> 2 * x)"
proof (cases "x = 0")
  case True
  then show ?thesis by (simp add: round64_def)
next
  case False
  define u :: real where "u = 2 powi ulp_exponent x"
  have u: "0 < u" by (simp add: u_def)
  define r where "r = of_int (ties_to_even (x / u)) * u"
  from assms(1) u have q: "0 \<le> x / u" by simp
  have r0: "0 \<le> r" unfolding r_def using ties_to_even_nonneg[OF q] u by simp
  have "of_int (ties_to_even (x / u)) * u \<le> (2 * (x / u)) * u"
    using ties_to_even_le_double[OF q] u by (intro mult_right_mono) auto
  then have r2: "r \<le> 2 * x" unfolding r_def using u by simp
  show ?thesis
  proof (cases "2 ^ 1024 \<le> \<bar>r\<bar>")
    case True
    moreover have "(0 :: real) < 2 ^ 1024" by simp
    ultimately have "0 < r" using r0 by linarith
    with True False \<open>2 ^ 1024 \<le> \<bar>r\<bar>\<close> have "round64 x = PInf"
      by (simp add: round64_def Let_def u_def[symmetric] r_def[symmetric])
    then show ?thesis by simp
  next
    case c: False
    then have "round64 x = Fin r"
      using False by (simp add: round64_def Let_def u_def[symmetric] r_def[symmetric])
    with r0 r2 show ?thesis by blast
  qed
qed

lemma abs_round64: "\<bar>round64 x\<bar> = round64 \<bar>x\<bar>"
proof -
  have pos: "\<bar>round64 z\<bar> = round64 z" if "0 \<le> z" for z
    using round64_nonneg_cases[OF that] by auto
  show ?thesis
  proof (cases "0 \<le> x")
    case True
    then show ?thesis using pos[of x] by simp
  next
    case False
    then have z: "0 \<le> - x" by simp
    have "\<bar>round64 x\<bar> = \<bar>- round64 (- x)\<bar>" using round64_minus[of "- x"] by simp
    also have "\<dots> = \<bar>round64 (- x)\<bar>" by (cases "round64 (- x)") simp_all
    also have "\<dots> = round64 (- x)" by (rule pos[OF z])
    finally show ?thesis using False by simp
  qed
qed

lemma round64_small:
  assumes "0 \<le> x" "x \<le> 2"
  shows "\<exists>q. round64 x = Fin q \<and> q \<le> 4"
proof -
  from round64_nonneg_cases[OF assms(1)] show ?thesis
  proof
    assume inf: "round64 x = PInf"
    show ?thesis
    proof (cases "x = 0")
      case True
      with inf show ?thesis by (simp add: round64_def)
    next
      case False
      define u :: real where "u = 2 powi ulp_exponent x"
      have u: "0 < u" by (simp add: u_def)
      define r where "r = of_int (ties_to_even (x / u)) * u"
      from assms(1) u have q: "0 \<le> x / u" by simp
      have "of_int (ties_to_even (x / u)) * u \<le> (2 * (x / u)) * u"
        using ties_to_even_le_double[OF q] u by (intro mult_right_mono) auto
      then have r2: "r \<le> 2 * x" unfolding r_def using u by simp
      have r0: "0 \<le> r" unfolding r_def using ties_to_even_nonneg[OF q] u by simp
      have "(4 :: real) < 2 ^ 1024" by simp
      with r2 r0 assms(2) have "\<not> 2 ^ 1024 \<le> \<bar>r\<bar>" by linarith
      then have "round64 x = Fin r"
        using False by (simp add: round64_def Let_def u_def[symmetric] r_def[symmetric])
      with inf show ?thesis by simp
    qed
  next
    assume "\<exists>r. round64 x = Fin r \<and> 0 \<le> r \<and> r \<le> 2 * x"
    with assms(2) show ?thesis by auto
  qed
qed

section \<open>Option validation\<close>

lemma trim_nonempty: "\<not> is_space c \<Longrightarrow> trim (c # s) \<noteq> []"
  by (simp add: trim_def)

lemma is_space_S: "\<not> is_space CHR ''S''"
  by (simp add: is_space_def)

lemma validateStepSize_invalid_warning:
  "\<not> StepSizeValidation.valid (validateStepSize fmt s d) \<Longrightarrow>
   \<exists>w. warning (validateStepSize fmt s d) = Some w \<and> trim w \<noteq> []"
  by (auto simp: validateStepSize_def Let_def trim_nonempty is_space_S split: if_splits)

lemma validateStepSize_valid_iff:
  "StepSizeValidation.valid (validateStepSize fmt s (a, b)) =
     (\<not> (binary64 (\<bar>binary64 (b - a)\<bar> / s) < Fin 10)
      \<and> \<not> (Fin 100000 < binary64 (\<bar>binary64 (b - a)\<bar> / s)))"
  by (simp add: validateStepSize_def Let_def)

text \<open>
  The scalar validator is the coupled validator on the one-equation system, followed
  by the step-size advisory.
\<close>

lemma validateOptions_valid_iff:
  "Validation.valid (validateOptions fmt opts) =
     (Validation.valid (coupled_validateOptions (as_system opts)) \<and>
      StepSizeValidation.valid (validateStepSize fmt (stepSize opts) (t0 opts, tEnd opts)))"
proof (cases "StepSizeValidation.valid (validateStepSize fmt (stepSize opts) (t0 opts, tEnd opts))")
  case True
  then show ?thesis
    by (simp add: validateOptions_def coupled_validateOptions_def as_system_def Let_def)
next
  case False
  from validateStepSize_invalid_warning[OF False] obtain w where
    "warning (validateStepSize fmt (stepSize opts) (t0 opts, tEnd opts)) = Some w" "trim w \<noteq> []"
    by blast
  with False show ?thesis
    by (simp add: validateOptions_def coupled_validateOptions_def as_system_def Let_def)
qed

lemma coupled_validateOptions_valid_char:
  "Validation.valid (coupled_validateOptions opts) =
     (\<exists>a b s. t0 opts = Fin a \<and> tEnd opts = Fin b \<and> stepSize opts = Fin s
        \<and> y0 opts \<noteq> [] \<and> list_all isFinite (y0 opts)
        \<and> 0 < s \<and> s \<le> \<bar>b - a\<bar> \<and> \<bar>b - a\<bar> \<le> 1000
        \<and> \<not> list_ex (\<lambda>yi. Fin 1000000 < \<bar>yi\<bar>) (y0 opts))"
  by (cases "t0 opts"; cases "tEnd opts"; cases "stepSize opts")
     (auto simp: coupled_validateOptions_def strictEq_def minus_jsnum_def)

lemma validateOptions_valid_char:
  "Validation.valid (validateOptions fmt opts) =
     (\<exists>a b s y. t0 opts = Fin a \<and> tEnd opts = Fin b \<and> stepSize opts = Fin s \<and> y0 opts = Fin y
        \<and> 0 < s \<and> s \<le> \<bar>b - a\<bar> \<and> \<bar>b - a\<bar> \<le> 1000 \<and> \<bar>y\<bar> \<le> 1000000
        \<and> StepSizeValidation.valid (validateStepSize fmt (Fin s) (Fin a, Fin b)))"
  unfolding validateOptions_valid_iff coupled_validateOptions_valid_char
  by (cases "t0 opts"; cases "tEnd opts"; cases "stepSize opts"; cases "y0 opts")
     (auto simp: as_system_def)

lemma validateOptions_error_nonempty:
  "\<not> Validation.valid (validateOptions fmt opts) \<Longrightarrow>
   \<exists>m. Validation.error (validateOptions fmt opts) = Some m \<and> m \<noteq> []"
proof (cases "StepSizeValidation.valid (validateStepSize fmt (stepSize opts) (t0 opts, tEnd opts))")
  case True
  assume "\<not> Validation.valid (validateOptions fmt opts)"
  with True show ?thesis
    by (auto simp: validateOptions_def Let_def split: if_splits)
next
  case False
  from validateStepSize_invalid_warning[OF False] obtain w where
    w: "warning (validateStepSize fmt (stepSize opts) (t0 opts, tEnd opts)) = Some w" "trim w \<noteq> []"
    by blast
  then have "w \<noteq> []" by (auto simp: trim_def)
  with w False show ?thesis
    by (auto simp: validateOptions_def Let_def split: if_splits)
qed

lemma coupled_validateOptions_error_nonempty:
  "\<not> Validation.valid (coupled_validateOptions opts) \<Longrightarrow>
   \<exists>m. Validation.error (coupled_validateOptions opts) = Some m \<and> m \<noteq> []"
  by (auto simp: coupled_validateOptions_def split: if_splits)

text \<open>
  A step as long as the domain fails the advisory: the rounded length of the domain is
  at most twice the step, so the rounded quotient is far below 10, or the length rounds
  to \<^verbatim>\<open>Infinity\<close> and the quotient is above 100000.
\<close>

lemma validateStepSize_whole_domain:
  assumes "0 < s" "s = \<bar>b - a\<bar>"
  shows "\<not> StepSizeValidation.valid (validateStepSize fmt (Fin s) (Fin a, Fin b))"
proof -
  have t: "\<bar>binary64 (Fin b - Fin a)\<bar> = round64 s"
    using assms(2) by (simp add: minus_jsnum_def abs_round64)
  from assms(1) have "0 \<le> s" by simp
  from round64_nonneg_cases[OF this] show ?thesis
  proof
    assume "round64 s = PInf"
    with assms(1) show ?thesis
      by (simp add: validateStepSize_valid_iff t)
  next
    assume "\<exists>r. round64 s = Fin r \<and> 0 \<le> r \<and> r \<le> 2 * s"
    then obtain r where r: "round64 s = Fin r" "0 \<le> r" "r \<le> 2 * s" by blast
    with assms(1) have "0 \<le> r / s" "r / s \<le> 2" by (simp_all add: field_simps)
    from round64_small[OF this] obtain q where "round64 (r / s) = Fin q" "q \<le> 4" by blast
    with assms(1) r show ?thesis
      by (simp add: validateStepSize_valid_iff t)
  qed
qed

text \<open>The same for a step that is at least half the rounded length of the domain.\<close>

lemma validateStepSize_short_domain:
  assumes "0 < s" "\<bar>binary64 (Fin b - Fin a)\<bar> = Fin r" "r \<le> 2 * s"
  shows "\<not> StepSizeValidation.valid (validateStepSize fmt (Fin s) (Fin a, Fin b))"
proof -
  from assms(2) have "0 \<le> r" by (cases "binary64 (Fin b - Fin a)") auto
  with assms(1,3) have "0 \<le> r / s" "r / s \<le> 2" by (simp_all add: field_simps)
  from round64_small[OF this] obtain q where "round64 (r / s) = Fin q" "q \<le> 4" by blast
  with assms(1,2) show ?thesis
    by (simp add: validateStepSize_valid_iff)
qed

text \<open>
  C2, as the code has it. Scalar option validation rejects a \<^verbatim>\<open>stepSize\<close> equal to the
  full domain length \<^verbatim>\<open>|tEnd - t0|\<close>: the step passes the comparison with the domain
  length, and the step-size advisory consulted afterwards rejects it. A \<^verbatim>\<open>stepSize\<close>
  strictly greater than the domain length is rejected, and so are options with \<^verbatim>\<open>t0\<close>
  equal to \<^verbatim>\<open>tEnd\<close>. Both hold for the exact length of the domain and for the length
  \<^verbatim>\<open>Math.abs(tEnd - t0)\<close> as the code computes it, rounded. For an accepted step the
  quotient \<^verbatim>\<open>numSteps\<close> that the advisory computes, \<^verbatim>\<open>Math.abs(tEnd - t0) / stepSize\<close> with
  each operation rounded, is not below 10.
\<close>

theorem C2_validateOptions_boundary:
  "(stepSize opts = \<bar>tEnd opts - t0 opts\<bar> \<longrightarrow> \<not> Validation.valid (validateOptions fmt opts))
   \<and> (stepSize opts = \<bar>binary64 (tEnd opts - t0 opts)\<bar> \<longrightarrow>
        \<not> Validation.valid (validateOptions fmt opts))
   \<and> (\<bar>tEnd opts - t0 opts\<bar> < stepSize opts \<longrightarrow> \<not> Validation.valid (validateOptions fmt opts))
   \<and> (\<bar>binary64 (tEnd opts - t0 opts)\<bar> < stepSize opts \<longrightarrow>
        \<not> Validation.valid (validateOptions fmt opts))
   \<and> (t0 opts = tEnd opts \<longrightarrow> \<not> Validation.valid (validateOptions fmt opts))
   \<and> (Validation.valid (validateOptions fmt opts) \<longrightarrow>
        \<not> (binary64 (\<bar>binary64 (tEnd opts - t0 opts)\<bar> / stepSize opts) < Fin 10))"
proof -
  have eq_exact: "\<not> Validation.valid (validateOptions fmt opts)"
    if eq: "stepSize opts = \<bar>tEnd opts - t0 opts\<bar>"
  proof
    assume "Validation.valid (validateOptions fmt opts)"
    then obtain a b s where o: "t0 opts = Fin a" "tEnd opts = Fin b" "stepSize opts = Fin s"
      and s: "0 < s"
      and v: "StepSizeValidation.valid (validateStepSize fmt (Fin s) (Fin a, Fin b))"
      unfolding validateOptions_valid_char by blast
    from eq o have "s = \<bar>b - a\<bar>" by (simp add: minus_jsnum_def)
    from validateStepSize_whole_domain[OF s this] v show False by blast
  qed
  have eq_rounded: "\<not> Validation.valid (validateOptions fmt opts)"
    if eq: "stepSize opts = \<bar>binary64 (tEnd opts - t0 opts)\<bar>"
  proof
    assume "Validation.valid (validateOptions fmt opts)"
    then obtain a b s where o: "t0 opts = Fin a" "tEnd opts = Fin b" "stepSize opts = Fin s"
      and s: "0 < s"
      and v: "StepSizeValidation.valid (validateStepSize fmt (Fin s) (Fin a, Fin b))"
      unfolding validateOptions_valid_char by blast
    from eq o have "\<bar>binary64 (Fin b - Fin a)\<bar> = Fin s" by simp
    from validateStepSize_short_domain[OF s this] s v show False by simp
  qed
  have gt_exact: "\<not> Validation.valid (validateOptions fmt opts)"
    if "\<bar>tEnd opts - t0 opts\<bar> < stepSize opts"
    using that unfolding validateOptions_valid_char by (auto simp: minus_jsnum_def)
  have gt_rounded: "\<not> Validation.valid (validateOptions fmt opts)"
    if lt: "\<bar>binary64 (tEnd opts - t0 opts)\<bar> < stepSize opts"
  proof
    assume "Validation.valid (validateOptions fmt opts)"
    then obtain a b s where o: "t0 opts = Fin a" "tEnd opts = Fin b" "stepSize opts = Fin s"
      and s: "0 < s"
      and v: "StepSizeValidation.valid (validateStepSize fmt (Fin s) (Fin a, Fin b))"
      unfolding validateOptions_valid_char by blast
    from lt o have l: "\<bar>binary64 (Fin b - Fin a)\<bar> < Fin s" by simp
    then obtain r where r: "\<bar>binary64 (Fin b - Fin a)\<bar> = Fin r"
      by (cases "binary64 (Fin b - Fin a)") auto
    with l s have "r \<le> 2 * s" by simp
    from validateStepSize_short_domain[OF s r this] v show False by simp
  qed
  have same_ends: "\<not> Validation.valid (validateOptions fmt opts)" if "t0 opts = tEnd opts"
    using that unfolding validateOptions_valid_char by auto
  have quotient: "\<not> (binary64 (\<bar>binary64 (tEnd opts - t0 opts)\<bar> / stepSize opts) < Fin 10)"
    if "Validation.valid (validateOptions fmt opts)"
    using that unfolding validateOptions_valid_char validateStepSize_valid_iff
    by (auto simp: minus_jsnum_def)
  from eq_exact eq_rounded gt_exact gt_rounded same_ends quotient show ?thesis by blast
qed

lemma tenth_step_valid:
  "Validation.valid (validateOptions fmt
        \<lparr> t0 = Fin 0, y0 = Fin 1, tEnd = Fin 1, stepSize = Fin (1/10), method_key = None, maxIterations = None \<rparr>)"
  by (simp add: validateOptions_def validateStepSize_def Let_def strictEq_def minus_jsnum_def
        round64_numerals)

theorem C2_validateOptions_boundary_witness:
  "\<not> Validation.valid (validateOptions plainFormat
        \<lparr> t0 = Fin 0, y0 = Fin 1, tEnd = Fin 2, stepSize = Fin 2, method_key = None, maxIterations = None \<rparr>)
   \<and> \<not> Validation.valid (validateOptions plainFormat
        \<lparr> t0 = Fin 0, y0 = Fin 1, tEnd = Fin 2, stepSize = Fin 3, method_key = None, maxIterations = None \<rparr>)
   \<and> \<not> Validation.valid (validateOptions plainFormat
        \<lparr> t0 = Fin 2, y0 = Fin 1, tEnd = Fin 2, stepSize = Fin (1/10), method_key = None, maxIterations = None \<rparr>)
   \<and> Validation.valid (validateOptions plainFormat
        \<lparr> t0 = Fin 0, y0 = Fin 1, tEnd = Fin 1, stepSize = Fin (1/10), method_key = None, maxIterations = None \<rparr>)
   \<and> \<not> (binary64 (\<bar>binary64 (Fin 1 - Fin 0)\<bar> / Fin (1/10)) < Fin 10)"
  using tenth_step_valid [of plainFormat]
    C2_validateOptions_boundary [of "\<lparr> t0 = Fin 0, y0 = Fin 1, tEnd = Fin 2, stepSize = Fin 2, method_key = None, maxIterations = None \<rparr>" plainFormat]
    C2_validateOptions_boundary [of "\<lparr> t0 = Fin 0, y0 = Fin 1, tEnd = Fin 2, stepSize = Fin 3, method_key = None, maxIterations = None \<rparr>" plainFormat]
    C2_validateOptions_boundary [of "\<lparr> t0 = Fin 2, y0 = Fin 1, tEnd = Fin 2, stepSize = Fin (1/10), method_key = None, maxIterations = None \<rparr>" plainFormat]
    C2_validateOptions_boundary [of "\<lparr> t0 = Fin 0, y0 = Fin 1, tEnd = Fin 1, stepSize = Fin (1/10), method_key = None, maxIterations = None \<rparr>" plainFormat]
  by (simp add: minus_jsnum_def round64_numerals)

text \<open>
  The claim as the specification words it fails: a step equal to the domain length,
  here 1 on the domain from 0 to 1, is rejected by the scalar validator, whatever the
  number formatter.
\<close>

theorem C2_stepSize_equal_domain_rejected:
  "stepSize \<lparr> t0 = Fin 0, y0 = Fin 1, tEnd = Fin 1, stepSize = Fin 1, method_key = None, maxIterations = None \<rparr>
     = \<bar>Fin 1 - Fin 0\<bar>
   \<and> (\<forall>fmt. \<not> Validation.valid (validateOptions fmt
        \<lparr> t0 = Fin 0, y0 = Fin 1, tEnd = Fin 1, stepSize = Fin 1, method_key = None, maxIterations = None \<rparr>))"
  by (simp add: validateOptions_valid_char validateStepSize_valid_iff minus_jsnum_def round64_numerals)

text \<open>
  The advisory on binary64 inputs. The number written \<^verbatim>\<open>0.1\<close> is slightly above one tenth,
  and the quotient \<^verbatim>\<open>1 / 0.1\<close> rounds to 10: the step 0.1 on the domain from 0 to 1 is
  accepted, as the unit tests expect. Likewise the step \<^verbatim>\<open>0.19014274576114837\<close> on the
  domain from 0 to \<^verbatim>\<open>1.9014274576114836\<close> is accepted, the rounded quotient being 10,
  although ten such steps exceed the domain.
\<close>

lemma round64_quotient_tenth: "round64 (1 / binary64_tenth) = Fin 10"
  unfolding binary64_tenth_def
  using round64_eval_nat[of 3 "1 / (3602879701896397 / 36028797018963968)" "5629499534213120"]
  by simp

lemma validateStepSize_binary64_tenth:
  "StepSizeValidation.valid (validateStepSize fmt (Fin binary64_tenth) (Fin 0, Fin 1))"
  using round64_quotient_tenth
  by (simp add: validateStepSize_valid_iff minus_jsnum_def round64_numerals binary64_tenth_def)

lemma round64_rounded_ten_tEnd:
  "round64 (8563267989571107 / 4503599627370496) = Fin (8563267989571107 / 4503599627370496)"
  using round64_eval_nat[of 0 "8563267989571107 / 4503599627370496" "8563267989571107"]
  by simp

lemma round64_rounded_ten_quotient:
  "round64 ((8563267989571107 / 4503599627370496) / (3425307195828443 / 18014398509481984)) = Fin 10"
  using round64_eval_nat[of 3 "(8563267989571107 / 4503599627370496) / (3425307195828443 / 18014398509481984)"
      "5629499534213120"]
  by simp

lemma rounded_ten_accepted:
  "Validation.valid (validateOptions fmt rounded_ten)
   \<and> \<bar>tEnd rounded_ten - t0 rounded_ten\<bar> < Fin 10 * stepSize rounded_ten"
  using round64_rounded_ten_tEnd round64_rounded_ten_quotient
  by (simp add: validateOptions_def validateStepSize_def Let_def strictEq_def minus_jsnum_def
        rounded_ten_def)




section \<open>The textual safety filter\<close>

lemma eq_char_of: "(c = char_of (n :: nat)) = (take_bit 8 n = (of_char c :: nat))"
  using char_of_eq_iff [of n c] by auto

lemmas fragment_eval =
  validateExpression_def dangerousPatterns_def fragment_def test_def match_here_def chr_def
  in_ranges_def lower_char_def upper_char_def

lemma validateExpression_floor: "Validation.valid (validateExpression ''floor(t)'')"
  by (simp add: fragment_eval)

lemma search_offset:
  "match_here re (rev ps @ b) a \<noteq> None \<Longrightarrow> search re b (ps @ a) \<noteq> None"
proof (induction ps arbitrary: b)
  case Nil
  then show ?case by (cases a) (auto split: option.splits)
next
  case (Cons p ps)
  then show ?case by (auto split: option.splits)
qed

lemma test_for:
  assumes "lower_char c1 = CHR ''f''" "lower_char c2 = CHR ''o''" "lower_char c3 = CHR ''r''"
  shows "test (fragment True ''for'') (ps @ c1 # c2 # c3 # ss)"
  unfolding test_def
  using assms search_offset[of "fragment True ''for''" ps "[]" "c1 # c2 # c3 # ss"]
  by (simp add: match_here_def fragment_def chr_def in_ranges_def)

lemma validateExpression_invalid_iff:
  "(\<not> Validation.valid (validateExpression e)) = (\<exists>p \<in> set dangerousPatterns. test p e)"
  by (auto simp: validateExpression_def find_None_iff find_Some_iff split: option.splits)

lemma validateExpression_for:
  assumes "sublist ''for'' (toLowerCase e)"
  shows "\<not> Validation.valid (validateExpression e)"
proof -
  from assms obtain ps ss where "toLowerCase e = ps @ ''for'' @ ss"
    by (auto simp: sublist_def)
  then obtain ps' c1 c2 c3 ss' where e: "e = ps' @ c1 # c2 # c3 # ss'"
    and "lower_char c1 = CHR ''f''" "lower_char c2 = CHR ''o''" "lower_char c3 = CHR ''r''"
    unfolding toLowerCase_def
    by (auto simp: map_eq_append_conv Cons_eq_map_conv)
  then have "test (fragment True ''for'') e"
    using test_for by blast
  then show ?thesis
    unfolding validateExpression_invalid_iff by (auto simp: dangerousPatterns_def)
qed

text \<open>
  C10, as the code has it. \<^verbatim>\<open>validateExpression\<close> matches its dangerous patterns as
  substrings, the keyword fragments without regard to letter case, so it returns
  \<^verbatim>\<open>valid: false\<close> for every expression in which the letters \<^verbatim>\<open>for\<close> occur in sequence, in
  any case. The allow-listed name \<^verbatim>\<open>floor\<close> does not contain that fragment (its letters
  are f, l, o, o, r), and \<^verbatim>\<open>validateExpression('floor(t)')\<close> returns \<^verbatim>\<open>valid: true\<close>.
\<close>

theorem C10_validateExpression_for_fragment:
  "(sublist ''for'' (toLowerCase expression) \<longrightarrow> \<not> Validation.valid (validateExpression expression))
   \<and> \<not> sublist ''for'' (toLowerCase ''floor(t)'')
   \<and> Validation.valid (validateExpression ''floor(t)'')"
proof -
  have "\<not> sublist ''for'' (toLowerCase ''floor(t)'')"
    by (simp add: toLowerCase_def lower_char_def sublist_Cons_right eq_char_of)
  then show ?thesis
    using validateExpression_for validateExpression_floor by blast
qed

theorem C10_validateExpression_for_fragment_witness:
  "sublist ''for'' (toLowerCase ''FORmat(t)'') \<and> \<not> Validation.valid (validateExpression ''FORmat(t)'')"
proof -
  have s: "sublist ''for'' (toLowerCase ''FORmat(t)'')"
    by (simp add: toLowerCase_def lower_char_def sublist_Cons_right eq_char_of)
  with C10_validateExpression_for_fragment [of "''FORmat(t)''"] show ?thesis
    by blast
qed

text \<open>
  The claim as stated fails at its own example: \<^verbatim>\<open>floor\<close> is an allow-listed function
  name and \<^verbatim>\<open>validateExpression('floor(t)')\<close> accepts.
\<close>

theorem C10_floor_accepted:
  "''floor'' \<in> set ALLOWED_FUNCTIONS \<and> Validation.valid (validateExpression ''floor(t)'')
   \<and> Validation.error (validateExpression ''floor(t)'') = None"
  by (simp add: ALLOWED_FUNCTIONS_def fragment_eval)

section \<open>The integration loop\<close>

lemma euler_advances: "advances euler"
  by (auto simp: advances_def euler_def euler_solve_def split: sum.splits)

lemma heun_advances: "advances heun"
  by (auto simp: advances_def heun_def heun_solve_def Let_def split: sum.splits)

lemma rk4_advances: "advances rk4"
  by (auto simp: advances_def rk4_def rk4_solve_def Let_def split: sum.splits)

lemma getMethod_advances: "getMethod k = Some m \<Longrightarrow> advances m"
  by (auto simp: getMethod_def getAllMethods_def euler_advances heun_advances rk4_advances
      split: if_splits)

lemma attempt_step_sound:
  "attempt_step fmt f m t y h = Inr p \<Longrightarrow> sound_point p"
  by (auto simp: attempt_step_def sound_point_def split: sum.splits if_splits prod.splits)

lemma attempt_step_time:
  "attempt_step fmt f m t y h = Inr p \<Longrightarrow> advances m \<Longrightarrow> pt_t p = t + h"
  unfolding attempt_step_def advances_def
  by (fastforce split: sum.splits if_splits prod.splits)

lemma ceil_step:
  fixes s x :: real
  assumes "0 < s" "0 < x"
  shows "nat \<lceil>(if x < s then 0 else x - s) / s\<rceil> < nat \<lceil>x / s\<rceil>"
proof -
  have pos: "0 < \<lceil>x / s\<rceil>" using assms by (simp add: ceiling_less_iff[symmetric] less_ceiling_iff)
  show ?thesis
  proof (cases "x < s")
    case True
    with pos show ?thesis by simp
  next
    case False
    have "(x - s) / s = x / s - 1" using assms by (simp add: field_simps)
    then have "\<lceil>(x - s) / s\<rceil> = \<lceil>x / s\<rceil> - 1" by simp
    with pos False show ?thesis by simp
  qed
qed

lemma integrate_validated:
  fixes a b s :: real
  assumes o: "t0 options = Fin a" "tEnd options = Fin b" "stepSize options = Fin s"
    and s: "0 < s" and adv: "advances m"
  shows "(if a < b then \<tau> \<le> b else b \<le> \<tau>) \<Longrightarrow>
     \<exists>r. integrate fmt f options m (Fin \<tau>) y it pts = Some r
        \<and> loop_exit (Fin b) (maxIterations_of options) sound_point (Fin \<tau>) it pts r"
proof (induction "nat \<lceil>\<bar>b - \<tau>\<bar> / s\<rceil>" arbitrary: \<tau> y it pts rule: less_induct)
  case less
  have fw: "isForward options = (a < b)"
    by (simp add: isForward_def o)
  have h: "signed_step options = Fin (if a < b then s else - s)"
    using s by (simp add: signed_step_def o)
  let ?d = "if \<bar>b - \<tau>\<bar> < s then b - \<tau> else (if a < b then s else - s)"
  have cur: "currentH_of options (Fin \<tau>) = Fin ?d"
    using s less.prems by (auto simp: currentH_of_def Let_def fw h o minus_jsnum_def)
  show ?case
  proof (cases "Fin (real it) < maxIterations_of options")
    case False
    then show ?thesis
      by (subst integrate.simps) (simp add: loop_exit_def)
  next
    case cap: True
    show ?thesis
    proof (cases "\<tau> = b")
      case True
      then show ?thesis
        using cap by (subst integrate.simps) (auto simp: loop_exit_def fw o)
    next
      case False
      with less.prems have notend: "\<not> (isForward options \<and> tEnd options \<le> Fin \<tau>)"
        "\<not> (\<not> isForward options \<and> Fin \<tau> \<le> tEnd options)"
        by (auto simp: fw o split: if_splits)
      show ?thesis
      proof (cases "attempt_step fmt f m (Fin \<tau>) y (currentH_of options (Fin \<tau>))")
        case (Inl e)
        then show ?thesis
          using cap notend by (subst integrate.simps) (auto simp: loop_exit_def)
      next
        case (Inr p)
        let ?\<tau>' = "\<tau> + ?d"
        have pt: "pt_t p = Fin ?\<tau>'"
          using attempt_step_time[OF Inr adv] by (simp add: cur)
        have sp: "sound_point p" using attempt_step_sound[OF Inr] .
        have dist: "\<bar>b - ?\<tau>'\<bar> = (if \<bar>b - \<tau>\<bar> < s then 0 else \<bar>b - \<tau>\<bar> - s)"
          using less.prems s by (auto split: if_splits)
        have "0 < \<bar>b - \<tau>\<bar>" using False by simp
        from ceil_step[OF s this] have dec: "nat \<lceil>\<bar>b - ?\<tau>'\<bar> / s\<rceil> < nat \<lceil>\<bar>b - \<tau>\<bar> / s\<rceil>"
          unfolding dist by simp
        have inv': "if a < b then ?\<tau>' \<le> b else b \<le> ?\<tau>'"
          using less.prems s by (auto split: if_splits)
        from less.hyps[OF dec inv', of "pt_y p" "Suc it" "pts @ [p]"]
        obtain r where r: "integrate fmt f options m (Fin ?\<tau>') (pt_y p) (Suc it) (pts @ [p]) = Some r"
          and ex: "loop_exit (Fin b) (maxIterations_of options) sound_point (Fin ?\<tau>') (Suc it) (pts @ [p]) r"
          by blast
        have step: "integrate fmt f options m (Fin \<tau>) y it pts = Some r"
          using cap notend Inr r pt by (subst integrate.simps) auto
        have "loop_exit (Fin b) (maxIterations_of options) sound_point (Fin \<tau>) it pts r"
        proof (cases r)
          case (Inl e)
          with ex show ?thesis by (simp add: loop_exit_def)
        next
          case (Inr st)
          obtain t' y' it' pts' where st: "st = (t', y', it', pts')" by (cases st) auto
          from ex Inr st obtain more where m: "pts' = (pts @ [p]) @ more" "list_all sound_point more"
            and d: "(t' = Fin b \<and> it' = Suc (Suc it + length more)
                  \<and> (if more = [] then Fin ?\<tau>' = Fin b else pt_t (last more) = Fin b))
                \<or> (\<not> Fin (real it') < maxIterations_of options \<and> it' = Suc it + length more)"
            by (auto simp: loop_exit_def)
          have "pts' = pts @ (p # more)" using m by simp
          moreover have "list_all sound_point (p # more)" using m sp by simp
          moreover have "(t' = Fin b \<and> it' = Suc (it + length (p # more))
                  \<and> (if p # more = [] then Fin \<tau> = Fin b else pt_t (last (p # more)) = Fin b))
                \<or> (\<not> Fin (real it') < maxIterations_of options \<and> it' = it + length (p # more))"
            using d pt by (auto split: if_splits)
          ultimately show ?thesis
            unfolding loop_exit_def Inr st by (simp only: sum.case prod.case) blast
        qed
        with step show ?thesis by blast
      qed
    qed
  qed
qed

lemma integrate_exit:
  assumes "integrate fmt f options m t y it pts = Some r"
  shows "exit_shape (maxIterations_of options) sound_point it pts r"
proof (rule integrate.raw_induct[where P = "\<lambda>fmt f options m t y it pts r. exit_shape (maxIterations_of options) sound_point it pts r", OF _ assms])
  fix integrate' :: "NumberFormat \<Rightarrow> ODEFunction \<Rightarrow> jsnum ODEOptions \<Rightarrow> (ODEFunction, jsnum) NumericalMethod
     \<Rightarrow> jsnum \<Rightarrow> jsnum \<Rightarrow> nat \<Rightarrow> jsnum SolutionPoint list
     \<Rightarrow> (thrown + (jsnum \<times> jsnum \<times> nat \<times> jsnum SolutionPoint list)) option"
    and fmt f and options :: "jsnum ODEOptions" and m t y it pts r
  assume IH: "\<And>fmt f options m t y it pts r. integrate' fmt f options m t y it pts = Some r \<Longrightarrow>
      exit_shape (maxIterations_of options) sound_point it pts r"
  assume body: "(if \<not> Fin (real it) < maxIterations_of options then Some (Inr (t, y, it, pts))
      else if isForward options \<and> tEnd options \<le> t then Some (Inr (t, y, Suc it, pts))
      else if \<not> isForward options \<and> t \<le> tEnd options then Some (Inr (t, y, Suc it, pts))
      else
        (case attempt_step fmt f m t y (currentH_of options t) of
           Inl e \<Rightarrow>
             Some (Inl (Error (''Integration failed at step '' @ toString fmt (Fin (real (Suc it)))
                               @ '': '' @ message_of e)))
         | Inr p \<Rightarrow> integrate' fmt f options m (pt_t p) (pt_y p) (Suc it) (pts @ [p]))) = Some r"
  show "exit_shape (maxIterations_of options) sound_point it pts r"
  proof (cases "\<not> Fin (real it) < maxIterations_of options \<or> (isForward options \<and> tEnd options \<le> t) \<or> (\<not> isForward options \<and> t \<le> tEnd options)")
    case True
    with body show ?thesis by (auto simp: exit_shape_def split: if_splits)
  next
    case False
    show ?thesis
    proof (cases "attempt_step fmt f m t y (currentH_of options t)")
      case (Inl e)
      with body False show ?thesis by (auto simp: exit_shape_def)
    next
      case (Inr p)
      with body False have "integrate' fmt f options m (pt_t p) (pt_y p) (Suc it) (pts @ [p]) = Some r"
        by auto
      from IH[OF this] attempt_step_sound[OF Inr] show ?thesis
        unfolding exit_shape_def
        by (cases r) (auto 0 3 split: prod.splits intro: exI[where x = "p # _"])
    qed
  qed
qed

lemma Fin_less_mono: "Fin a < M \<Longrightarrow> b \<le> a \<Longrightarrow> Fin b < M"
  by (cases M) auto

lemma currentH_of_maxIterations [simp]:
  "currentH_of (options\<lparr>maxIterations := c\<rparr>) t = currentH_of options t"
  by (simp add: currentH_of_def signed_step_def isForward_def Let_def)

lemma isForward_maxIterations [simp]:
  "isForward (options\<lparr>maxIterations := c\<rparr>) = isForward options"
  by (simp add: isForward_def)

lemma maxIterations_of_update [simp]:
  "maxIterations_of (options\<lparr>maxIterations := Some c\<rparr>) = c"
  by (simp add: maxIterations_of_def)

lemma integrate_cap_change:
  assumes "integrate fmt f options m t y it pts = Some r"
  shows "\<forall>t' y' it' pts'. r = Inr (t', y', it', pts') \<longrightarrow>
         (\<exists>more. pts' = pts @ more \<and> (it' = Suc (it + length more) \<or> it' = it + length more)
            \<and> (it' = Suc (it + length more) \<and> Fin (real (it + length more)) < M2 \<longrightarrow>
                 integrate fmt f (options\<lparr>maxIterations := Some M2\<rparr>) m t y it pts = Some r))"
proof (rule integrate.raw_induct[where P = "\<lambda>fmt f options m t y it pts r.
     \<forall>t' y' it' pts'. r = Inr (t', y', it', pts') \<longrightarrow>
         (\<exists>more. pts' = pts @ more \<and> (it' = Suc (it + length more) \<or> it' = it + length more)
            \<and> (it' = Suc (it + length more) \<and> Fin (real (it + length more)) < M2 \<longrightarrow>
                 integrate fmt f (options\<lparr>maxIterations := Some M2\<rparr>) m t y it pts = Some r))", OF _ assms])
  fix integrate' :: "NumberFormat \<Rightarrow> ODEFunction \<Rightarrow> jsnum ODEOptions \<Rightarrow> (ODEFunction, jsnum) NumericalMethod
     \<Rightarrow> jsnum \<Rightarrow> jsnum \<Rightarrow> nat \<Rightarrow> jsnum SolutionPoint list
     \<Rightarrow> (thrown + (jsnum \<times> jsnum \<times> nat \<times> jsnum SolutionPoint list)) option"
    and fmt f and options :: "jsnum ODEOptions" and m t y it pts r
  assume IH: "\<And>fmt f options m t y it pts r. integrate' fmt f options m t y it pts = Some r \<Longrightarrow>
      \<forall>t' y' it' pts'. r = Inr (t', y', it', pts') \<longrightarrow>
         (\<exists>more. pts' = pts @ more \<and> (it' = Suc (it + length more) \<or> it' = it + length more)
            \<and> (it' = Suc (it + length more) \<and> Fin (real (it + length more)) < M2 \<longrightarrow>
                 integrate fmt f (options\<lparr>maxIterations := Some M2\<rparr>) m t y it pts = Some r))"
  assume body: "(if \<not> Fin (real it) < maxIterations_of options then Some (Inr (t, y, it, pts))
      else if isForward options \<and> tEnd options \<le> t then Some (Inr (t, y, Suc it, pts))
      else if \<not> isForward options \<and> t \<le> tEnd options then Some (Inr (t, y, Suc it, pts))
      else
        (case attempt_step fmt f m t y (currentH_of options t) of
           Inl e \<Rightarrow>
             Some (Inl (Error (''Integration failed at step '' @ toString fmt (Fin (real (Suc it)))
                               @ '': '' @ message_of e)))
         | Inr p \<Rightarrow> integrate' fmt f options m (pt_t p) (pt_y p) (Suc it) (pts @ [p]))) = Some r"
  show "\<forall>t' y' it' pts'. r = Inr (t', y', it', pts') \<longrightarrow>
         (\<exists>more. pts' = pts @ more \<and> (it' = Suc (it + length more) \<or> it' = it + length more)
            \<and> (it' = Suc (it + length more) \<and> Fin (real (it + length more)) < M2 \<longrightarrow>
                 integrate fmt f (options\<lparr>maxIterations := Some M2\<rparr>) m t y it pts = Some r))"
  proof (intro allI impI)
    fix t' y' it' pts'
    assume r: "r = Inr (t', y', it', pts')"
    show "\<exists>more. pts' = pts @ more \<and> (it' = Suc (it + length more) \<or> it' = it + length more)
            \<and> (it' = Suc (it + length more) \<and> Fin (real (it + length more)) < M2 \<longrightarrow>
                 integrate fmt f (options\<lparr>maxIterations := Some M2\<rparr>) m t y it pts = Some r)"
    proof (cases "\<not> Fin (real it) < maxIterations_of options")
      case True
      with body r show ?thesis by (intro exI[of _ "[]"]) auto
    next
      case cap: False
      show ?thesis
      proof (cases "(isForward options \<and> tEnd options \<le> t) \<or> (\<not> isForward options \<and> t \<le> tEnd options)")
        case True
        with body cap r have "r = Inr (t, y, Suc it, pts)" by (auto split: if_splits)
        with True r show ?thesis
          by (intro exI[of _ "[]"]) (auto simp: integrate.simps[of _ _ "options\<lparr>maxIterations := Some M2\<rparr>"])
      next
        case False
        show ?thesis
        proof (cases "attempt_step fmt f m t y (currentH_of options t)")
          case (Inl e)
          with body cap False r show ?thesis by auto
        next
          case (Inr p)
          with body cap False have rec: "integrate' fmt f options m (pt_t p) (pt_y p) (Suc it) (pts @ [p]) = Some r"
            by auto
          from IH[OF rec] r obtain more1 where m1: "pts' = (pts @ [p]) @ more1"
            and alt: "it' = Suc (Suc it + length more1) \<or> it' = Suc it + length more1"
            and ch: "it' = Suc (Suc it + length more1) \<and> Fin (real (Suc it + length more1)) < M2 \<longrightarrow>
                 integrate fmt f (options\<lparr>maxIterations := Some M2\<rparr>) m (pt_t p) (pt_y p) (Suc it) (pts @ [p]) = Some r"
            by blast
          have "integrate fmt f (options\<lparr>maxIterations := Some M2\<rparr>) m t y it pts = Some r"
            if a: "it' = Suc (it + length (p # more1))" and b: "Fin (real (it + length (p # more1))) < M2"
          proof -
            from b have now: "Fin (real it) < M2" by (rule Fin_less_mono) simp
            from a b ch have "integrate fmt f (options\<lparr>maxIterations := Some M2\<rparr>) m (pt_t p) (pt_y p) (Suc it) (pts @ [p]) = Some r"
              by simp
            with now False Inr show ?thesis
              by (subst integrate.simps) auto
          qed
          with m1 alt show ?thesis
            by (intro exI[of _ "p # more1"]) auto
        qed
      qed
    qed
  qed
qed

lemma not_le_Fin: "M \<noteq> NaN \<Longrightarrow> \<not> M \<le> Fin a \<Longrightarrow> Fin a < M"
  by (cases M) auto

lemma numericalSolve_success:
  assumes "numericalSolve fmt f options m = Some (Inr sol)"
  shows "\<exists>d0 t y it. f (t0 options) (y0 options) = Inr d0
     \<and> integrate fmt f options m (t0 options) (y0 options) 0
          [\<lparr> pt_t = t0 options, pt_y = y0 options, pt_dydt = d0 \<rparr>] = Some (Inr (t, y, it, points sol))
     \<and> \<not> maxIterations_of options \<le> Fin (real it)
     \<and> sol = \<lparr> points = points sol, usedMethod = name m, success = True, error = None,
              metadata = \<lparr> totalPoints = length (points sol), usedStepSize = stepSize options,
                           domain = (t0 options, tEnd options),
                           yrange = (Math_min (map pt_y (points sol)), Math_max (map pt_y (points sol))) \<rparr> \<rparr>"
  using assms
  by (auto simp: numericalSolve_def Let_def split: sum.splits option.splits if_splits)

lemma numericalSolve_cap_off_by_one:
  assumes ok: "numericalSolve fmt f options m = Some (Inr sol)"
    and nan: "maxIterations options \<noteq> Some NaN"
  shows "Fin (real (length (points sol))) < maxIterations_of options
    \<and> numericalSolve fmt f (options\<lparr>maxIterations := Some (Fin (real (length (points sol))))\<rparr>) m
        = Some (Inl (Error (''Maximum iterations ('' @ toString fmt (Fin (real (length (points sol))))
                            @ '') reached without convergence'')))
    \<and> numericalSolve fmt f (options\<lparr>maxIterations := Some (Fin (real (length (points sol)) + 1))\<rparr>) m
        = Some (Inr sol)"
proof -
  from numericalSolve_success[OF ok] obtain d0 t y it where
    d0: "f (t0 options) (y0 options) = Inr d0"
    and run: "integrate fmt f options m (t0 options) (y0 options) 0
          [\<lparr> pt_t = t0 options, pt_y = y0 options, pt_dydt = d0 \<rparr>] = Some (Inr (t, y, it, points sol))"
    and post: "\<not> maxIterations_of options \<le> Fin (real it)"
    and sol: "sol = \<lparr> points = points sol, usedMethod = name m, success = True, error = None,
              metadata = \<lparr> totalPoints = length (points sol), usedStepSize = stepSize options,
                           domain = (t0 options, tEnd options),
                           yrange = (Math_min (map pt_y (points sol)), Math_max (map pt_y (points sol))) \<rparr> \<rparr>"
    by blast
  have "maxIterations_of options \<noteq> NaN"
    using nan by (auto simp: maxIterations_of_def split: option.splits)
  from not_le_Fin[OF this post] have lt: "Fin (real it) < maxIterations_of options" .
  let ?p0 = "\<lparr> pt_t = t0 options, pt_y = y0 options, pt_dydt = d0 \<rparr>"
  from integrate_exit[OF run] lt obtain more where
    more: "points sol = [?p0] @ more" and it: "it = Suc (length more)"
    by (auto simp: exit_shape_def)
  then have len: "length (points sol) = it" by simp
  have ch: "Fin (real (length more)) < M2 \<Longrightarrow>
      integrate fmt f (options\<lparr>maxIterations := Some M2\<rparr>) m (t0 options) (y0 options) 0 [?p0]
        = Some (Inr (t, y, it, points sol))" for M2
    using integrate_cap_change[OF run, of M2] more it by auto
  have c1: "numericalSolve fmt f (options\<lparr>maxIterations := Some (Fin (real it))\<rparr>) m
        = Some (Inl (Error (''Maximum iterations ('' @ toString fmt (Fin (real it))
                            @ '') reached without convergence'')))"
    using ch[of "Fin (real it)"] d0 it by (simp add: numericalSolve_def)
  have c2: "numericalSolve fmt f (options\<lparr>maxIterations := Some (Fin (real it + 1))\<rparr>) m = Some (Inr sol)"
    using ch[of "Fin (real it + 1)"] d0 it by (subst sol) (simp add: numericalSolve_def Let_def)
  from lt c1 c2 show ?thesis unfolding len by blast
qed

lemma demo_run:
  "numericalSolve plainFormat simpleODE demo euler = Some (Inr
     \<lparr> points = [\<lparr> pt_t = Fin 0, pt_y = Fin 1, pt_dydt = Fin 1 \<rparr>,
                 \<lparr> pt_t = Fin (1/2), pt_y = Fin (3/2), pt_dydt = Fin 2 \<rparr>,
                 \<lparr> pt_t = Fin 1, pt_y = Fin (5/2), pt_dydt = Fin (7/2) \<rparr>],
       usedMethod = ''Euler's Method'', success = True, error = None,
       metadata = \<lparr> totalPoints = 3, usedStepSize = Fin (1/2), domain = (Fin 0, Fin 1),
                    yrange = (Fin 1, Fin (5/2)) \<rparr> \<rparr>)"
  by (simp add: numericalSolve_def demo_def simpleODE_def integrate.simps maxIterations_of_def
       isForward_def attempt_step_def currentH_of_def signed_step_def euler_def euler_solve_def
       minus_jsnum_def Let_def Math_min_def Math_max_def Math_min2_def Math_max2_def)


lemma validateOptions_maxIterations [simp]:
  "validateOptions fmt (options\<lparr>maxIterations := c\<rparr>) = validateOptions fmt options"
  by (simp add: validateOptions_def)

lemma methodName_of_maxIterations [simp]:
  "methodName_of (options\<lparr>maxIterations := c\<rparr>) = methodName_of options"
  by (simp add: methodName_of_def)

lemma failed_maxIterations [simp]:
  "failed (options\<lparr>maxIterations := c\<rparr>) nm msg z = failed options nm msg z"
  by (simp add: failed_def)

section \<open>The shape of a scalar solution\<close>

lemma sign_inf_not_finite [simp]: "\<not> isFinite (sign_inf c)"
  by (cases c) auto

lemma isFinite_plus: "isFinite (a + b) \<Longrightarrow> isFinite a \<and> isFinite b"
  by (cases a; cases b) auto

lemma isFinite_times: "isFinite (a * b) \<Longrightarrow> isFinite a \<and> isFinite b"
  by (cases a; cases b) (auto split: if_splits)

lemma isFinite_divide: "isFinite (a / b) \<Longrightarrow> isFinite a"
  by (cases a; cases b) (auto split: if_splits)

lemma euler_reads: "reads_derivative euler"
  unfolding reads_derivative_def
proof (intro allI impI, elim conjE)
  fix f t y h newT newY
  assume a: "solve euler f t y h = Inr (newT, newY)" and fin: "isFinite newY"
  then obtain k1 where k1: "f t y = Inr k1" "newY = y + h * k1"
    by (auto simp: euler_def euler_solve_def split: sum.splits)
  with fin have "isFinite k1"
    by (auto dest!: isFinite_plus isFinite_times)
  with k1 show "\<exists>k. f t y = Inr k \<and> isFinite k" by blast
qed

lemma heun_reads: "reads_derivative heun"
  unfolding reads_derivative_def
proof (intro allI impI, elim conjE)
  fix f t y h newT newY
  assume a: "solve heun f t y h = Inr (newT, newY)" and fin: "isFinite newY"
  then obtain k1 k2 where k1: "f t y = Inr k1" "newY = y + h * (k1 + k2) / Fin 2"
    by (auto simp: heun_def heun_solve_def Let_def split: sum.splits)
  with fin have "isFinite k1"
    by (auto dest!: isFinite_plus isFinite_times isFinite_divide)
  with k1 show "\<exists>k. f t y = Inr k \<and> isFinite k" by blast
qed

lemma rk4_reads: "reads_derivative rk4"
  unfolding reads_derivative_def
proof (intro allI impI, elim conjE)
  fix f t y h newT newY
  assume a: "solve rk4 f t y h = Inr (newT, newY)" and fin: "isFinite newY"
  then obtain k1 k2 k3 k4 where k1: "f t y = Inr k1"
      "newY = y + h * (k1 + Fin 2 * k2 + Fin 2 * k3 + k4) / Fin 6"
    by (auto simp: rk4_def rk4_solve_def Let_def split: sum.splits)
  with fin have "isFinite k1"
    by (auto dest!: isFinite_plus isFinite_times isFinite_divide)
  with k1 show "\<exists>k. f t y = Inr k \<and> isFinite k" by blast
qed

lemma getMethod_reads: "getMethod k = Some m \<Longrightarrow> reads_derivative m"
  by (auto simp: getMethod_def getAllMethods_def euler_reads heun_reads rk4_reads
      split: if_splits)

lemma attempt_step_reads:
  "attempt_step fmt f m t y h = Inr p \<Longrightarrow> reads_derivative m \<Longrightarrow> \<exists>k. f t y = Inr k \<and> isFinite k"
  unfolding attempt_step_def reads_derivative_def
  by (fastforce split: sum.splits if_splits prod.splits)

lemma solveWithFunction_shape:
  "\<exists>sol. solveWithFunction fmt f options = Some sol \<and>
     (if success sol
      then points sol \<noteq> [] \<and> pt_t (hd (points sol)) = t0 options \<and> pt_y (hd (points sol)) = y0 options
           \<and> (maxIterations options \<noteq> Some NaN \<longrightarrow>
                 pt_t (last (points sol)) = tEnd options \<and> list_all sound_point (points sol))
      else points sol = [] \<and> (\<exists>msg. error sol = Some msg \<and> msg \<noteq> []))"
proof (cases "Validation.valid (validateOptions fmt options)")
  case False
  from validateOptions_error_nonempty[OF False] False show ?thesis
    by (auto simp: solveWithFunction_def failed_def Let_def)
next
  case valid: True
  show ?thesis
  proof (cases "getMethod (methodName_of options)")
    case None
    with valid show ?thesis
      by (simp add: solveWithFunction_def failed_def Let_def)
  next
    case (Some m)
    from valid obtain a b s y where o: "t0 options = Fin a" "tEnd options = Fin b"
      "stepSize options = Fin s" "y0 options = Fin y" and s: "0 < s" and ab: "a \<noteq> b"
      and y: "\<bar>y\<bar> \<le> 1000000"
      unfolding validateOptions_valid_char by auto
    show ?thesis
    proof (cases "f (t0 options) (y0 options)")
      case (Inl e)
      with valid Some show ?thesis
        by (simp add: solveWithFunction_def numericalSolve_def failed_def Let_def)
    next
      case (Inr d0)
      let ?p0 = "\<lparr> pt_t = t0 options, pt_y = y0 options, pt_dydt = d0 \<rparr>"
      have "if a < b then a \<le> b else b \<le> a" by simp
      from integrate_validated[OF o(1,2,3) s getMethod_advances[OF Some] this, of fmt f "y0 options" 0 "[?p0]"]
      obtain r where run: "integrate fmt f options m (t0 options) (y0 options) 0 [?p0] = Some r"
        and ex: "loop_exit (Fin b) (maxIterations_of options) sound_point (Fin a) 0 [?p0] r"
        by (auto simp: o)
      show ?thesis
      proof (cases r)
        case (Inl e)
        with valid Some Inr run show ?thesis
          by (simp add: solveWithFunction_def numericalSolve_def failed_def Let_def)
      next
        case st: (Inr st)
        obtain t' y' it' pts' where st': "st = (t', y', it', pts')" by (cases st) auto
        show ?thesis
        proof (cases "maxIterations_of options \<le> Fin (real it')")
          case True
          with valid Some Inr run st st' show ?thesis
            by (simp add: solveWithFunction_def numericalSolve_def failed_def Let_def)
        next
          case False
          from ex st st' obtain more where more: "pts' = [?p0] @ more" "list_all sound_point more"
            and d: "(t' = Fin b \<and> it' = Suc (0 + length more)
                  \<and> (if more = [] then Fin a = Fin b else pt_t (last more) = Fin b))
                \<or> (\<not> Fin (real it') < maxIterations_of options \<and> it' = 0 + length more)"
            by (auto simp: loop_exit_def)
          have sol: "solveWithFunction fmt f options = Some
              \<lparr> points = pts', usedMethod = name m, success = True, error = None,
                metadata = \<lparr> totalPoints = length pts', usedStepSize = stepSize options,
                   domain = (t0 options, tEnd options),
                   yrange = (Math_min (map pt_y pts'), Math_max (map pt_y pts')) \<rparr> \<rparr>"
            using valid Some Inr run st st' False
            by (simp add: solveWithFunction_def numericalSolve_def Let_def)
          have last_sound: "pt_t (last pts') = tEnd options \<and> list_all sound_point pts'"
            if nan: "maxIterations options \<noteq> Some NaN"
          proof -
            have "maxIterations_of options \<noteq> NaN"
              using nan by (auto simp: maxIterations_of_def split: option.splits)
            from not_le_Fin[OF this False] have lt: "Fin (real it') < maxIterations_of options" .
            with d ab have brk: "more \<noteq> []" "pt_t (last more) = Fin b" "it' = Suc (length more)"
              by (auto split: if_splits)
            from lt brk have c0: "Fin (real 0) < maxIterations_of options"
              by (elim Fin_less_mono) simp
            have notend: "\<not> (isForward options \<and> tEnd options \<le> t0 options)"
                "\<not> (\<not> isForward options \<and> t0 options \<le> tEnd options)"
              using ab by (auto simp: isForward_def o)
            from run st st' c0 notend obtain p where
              "attempt_step fmt f m (t0 options) (y0 options) (currentH_of options (t0 options)) = Inr p"
              by (subst (asm) integrate.simps) (auto split: sum.splits)
            from attempt_step_reads[OF this getMethod_reads[OF Some]] Inr have "isFinite d0"
              by auto
            then have "sound_point ?p0"
              using y by (simp add: sound_point_def o)
            with more brk show ?thesis by (simp add: o)
          qed
          from sol more last_sound show ?thesis by simp
        qed
      qed
    qed
  qed
qed


section \<open>The coupled integration loop\<close>

lemma coupled_euler_advances: "advances coupled_euler"
  by (auto simp: advances_def coupled_euler_def coupled_euler_solve_def split: sum.splits)

lemma coupled_heun_advances: "advances coupled_heun"
  by (auto simp: advances_def coupled_heun_def coupled_heun_solve_def Let_def split: sum.splits)

lemma coupled_rk4_advances: "advances coupled_rk4"
  by (auto simp: advances_def coupled_rk4_def coupled_rk4_solve_def Let_def split: sum.splits)

lemma coupled_getMethod_advances: "coupled_getMethod k = Some m \<Longrightarrow> advances m"
  by (auto simp: coupled_getMethod_def coupled_getAllMethods_def coupled_euler_advances coupled_heun_advances coupled_rk4_advances
      split: if_splits)

lemma coupled_attempt_step_sound:
  "coupled_attempt_step fmt f m t y h = Inr p \<Longrightarrow> coupled_sound_point p"
  by (auto simp: coupled_attempt_step_def coupled_sound_point_def list_ex_iff list_all_iff
      split: sum.splits if_splits prod.splits)

lemma coupled_attempt_step_time:
  "coupled_attempt_step fmt f m t y h = Inr p \<Longrightarrow> advances m \<Longrightarrow> pt_t p = t + h"
  unfolding coupled_attempt_step_def advances_def
  by (fastforce split: sum.splits if_splits prod.splits)


lemma coupled_integrate_validated:
  fixes a b s :: real
  assumes o: "t0 options = Fin a" "tEnd options = Fin b" "stepSize options = Fin s"
    and s: "0 < s" and adv: "advances m"
  shows "(if a < b then \<tau> \<le> b else b \<le> \<tau>) \<Longrightarrow>
     \<exists>r. coupled_integrate fmt f options m (Fin \<tau>) y it pts = Some r
        \<and> loop_exit (Fin b) (maxIterations_of options) coupled_sound_point (Fin \<tau>) it pts r"
proof (induction "nat \<lceil>\<bar>b - \<tau>\<bar> / s\<rceil>" arbitrary: \<tau> y it pts rule: less_induct)
  case less
  have fw: "isForward options = (a < b)"
    by (simp add: isForward_def o)
  have h: "signed_step options = Fin (if a < b then s else - s)"
    using s by (simp add: signed_step_def o)
  let ?d = "if \<bar>b - \<tau>\<bar> < s then b - \<tau> else (if a < b then s else - s)"
  have cur: "currentH_of options (Fin \<tau>) = Fin ?d"
    using s less.prems by (auto simp: currentH_of_def Let_def fw h o minus_jsnum_def)
  show ?case
  proof (cases "Fin (real it) < maxIterations_of options")
    case False
    then show ?thesis
      by (subst coupled_integrate.simps) (simp add: loop_exit_def)
  next
    case cap: True
    show ?thesis
    proof (cases "\<tau> = b")
      case True
      then show ?thesis
        using cap by (subst coupled_integrate.simps) (auto simp: loop_exit_def fw o)
    next
      case False
      with less.prems have notend: "\<not> (isForward options \<and> tEnd options \<le> Fin \<tau>)"
        "\<not> (\<not> isForward options \<and> Fin \<tau> \<le> tEnd options)"
        by (auto simp: fw o split: if_splits)
      show ?thesis
      proof (cases "coupled_attempt_step fmt f m (Fin \<tau>) y (currentH_of options (Fin \<tau>))")
        case (Inl e)
        then show ?thesis
          using cap notend by (subst coupled_integrate.simps) (auto simp: loop_exit_def)
      next
        case (Inr p)
        let ?\<tau>' = "\<tau> + ?d"
        have pt: "pt_t p = Fin ?\<tau>'"
          using coupled_attempt_step_time[OF Inr adv] by (simp add: cur)
        have sp: "coupled_sound_point p" using coupled_attempt_step_sound[OF Inr] .
        have dist: "\<bar>b - ?\<tau>'\<bar> = (if \<bar>b - \<tau>\<bar> < s then 0 else \<bar>b - \<tau>\<bar> - s)"
          using less.prems s by (auto split: if_splits)
        have "0 < \<bar>b - \<tau>\<bar>" using False by simp
        from ceil_step[OF s this] have dec: "nat \<lceil>\<bar>b - ?\<tau>'\<bar> / s\<rceil> < nat \<lceil>\<bar>b - \<tau>\<bar> / s\<rceil>"
          unfolding dist by simp
        have inv': "if a < b then ?\<tau>' \<le> b else b \<le> ?\<tau>'"
          using less.prems s by (auto split: if_splits)
        from less.hyps[OF dec inv', of "pt_y p" "Suc it" "pts @ [p]"]
        obtain r where r: "coupled_integrate fmt f options m (Fin ?\<tau>') (pt_y p) (Suc it) (pts @ [p]) = Some r"
          and ex: "loop_exit (Fin b) (maxIterations_of options) coupled_sound_point (Fin ?\<tau>') (Suc it) (pts @ [p]) r"
          by blast
        have step: "coupled_integrate fmt f options m (Fin \<tau>) y it pts = Some r"
          using cap notend Inr r pt by (subst coupled_integrate.simps) auto
        have "loop_exit (Fin b) (maxIterations_of options) coupled_sound_point (Fin \<tau>) it pts r"
        proof (cases r)
          case (Inl e)
          with ex show ?thesis by (simp add: loop_exit_def)
        next
          case (Inr st)
          obtain t' y' it' pts' where st: "st = (t', y', it', pts')" by (cases st) auto
          from ex Inr st obtain more where m: "pts' = (pts @ [p]) @ more" "list_all coupled_sound_point more"
            and d: "(t' = Fin b \<and> it' = Suc (Suc it + length more)
                  \<and> (if more = [] then Fin ?\<tau>' = Fin b else pt_t (last more) = Fin b))
                \<or> (\<not> Fin (real it') < maxIterations_of options \<and> it' = Suc it + length more)"
            by (auto simp: loop_exit_def)
          have "pts' = pts @ (p # more)" using m by simp
          moreover have "list_all coupled_sound_point (p # more)" using m sp by simp
          moreover have "(t' = Fin b \<and> it' = Suc (it + length (p # more))
                  \<and> (if p # more = [] then Fin \<tau> = Fin b else pt_t (last (p # more)) = Fin b))
                \<or> (\<not> Fin (real it') < maxIterations_of options \<and> it' = it + length (p # more))"
            using d pt by (auto split: if_splits)
          ultimately show ?thesis
            unfolding loop_exit_def Inr st by (simp only: sum.case prod.case) blast
        qed
        with step show ?thesis by blast
      qed
    qed
  qed
qed

lemma coupled_integrate_exit:
  assumes "coupled_integrate fmt f options m t y it pts = Some r"
  shows "exit_shape (maxIterations_of options) coupled_sound_point it pts r"
proof (rule coupled_integrate.raw_induct[where P = "\<lambda>fmt f options m t y it pts r. exit_shape (maxIterations_of options) coupled_sound_point it pts r", OF _ assms])
  fix coupled_integrate' :: "NumberFormat \<Rightarrow> CoupledODEFunction \<Rightarrow> jsnum list ODEOptions \<Rightarrow> (CoupledODEFunction, jsnum list) NumericalMethod
     \<Rightarrow> jsnum \<Rightarrow> jsnum list \<Rightarrow> nat \<Rightarrow> jsnum list SolutionPoint list
     \<Rightarrow> (thrown + (jsnum \<times> jsnum list \<times> nat \<times> jsnum list SolutionPoint list)) option"
    and fmt f and options :: "jsnum list ODEOptions" and m t y it pts r
  assume IH: "\<And>fmt f options m t y it pts r. coupled_integrate' fmt f options m t y it pts = Some r \<Longrightarrow>
      exit_shape (maxIterations_of options) coupled_sound_point it pts r"
  assume body: "(if \<not> Fin (real it) < maxIterations_of options then Some (Inr (t, y, it, pts))
      else if isForward options \<and> tEnd options \<le> t then Some (Inr (t, y, Suc it, pts))
      else if \<not> isForward options \<and> t \<le> tEnd options then Some (Inr (t, y, Suc it, pts))
      else
        (case coupled_attempt_step fmt f m t y (currentH_of options t) of
           Inl e \<Rightarrow>
             Some (Inl (Error (''Integration failed at step '' @ toString fmt (Fin (real (Suc it)))
                               @ '': '' @ message_of e)))
         | Inr p \<Rightarrow> coupled_integrate' fmt f options m (pt_t p) (pt_y p) (Suc it) (pts @ [p]))) = Some r"
  show "exit_shape (maxIterations_of options) coupled_sound_point it pts r"
  proof (cases "\<not> Fin (real it) < maxIterations_of options \<or> (isForward options \<and> tEnd options \<le> t) \<or> (\<not> isForward options \<and> t \<le> tEnd options)")
    case True
    with body show ?thesis by (auto simp: exit_shape_def split: if_splits)
  next
    case False
    show ?thesis
    proof (cases "coupled_attempt_step fmt f m t y (currentH_of options t)")
      case (Inl e)
      with body False show ?thesis by (auto simp: exit_shape_def)
    next
      case (Inr p)
      with body False have "coupled_integrate' fmt f options m (pt_t p) (pt_y p) (Suc it) (pts @ [p]) = Some r"
        by auto
      from IH[OF this] coupled_attempt_step_sound[OF Inr] show ?thesis
        unfolding exit_shape_def
        by (cases r) (auto 0 3 split: prod.splits intro: exI[where x = "p # _"])
    qed
  qed
qed


lemma coupled_integrate_cap_change:
  assumes "coupled_integrate fmt f options m t y it pts = Some r"
  shows "\<forall>t' y' it' pts'. r = Inr (t', y', it', pts') \<longrightarrow>
         (\<exists>more. pts' = pts @ more \<and> (it' = Suc (it + length more) \<or> it' = it + length more)
            \<and> (it' = Suc (it + length more) \<and> Fin (real (it + length more)) < M2 \<longrightarrow>
                 coupled_integrate fmt f (options\<lparr>maxIterations := Some M2\<rparr>) m t y it pts = Some r))"
proof (rule coupled_integrate.raw_induct[where P = "\<lambda>fmt f options m t y it pts r.
     \<forall>t' y' it' pts'. r = Inr (t', y', it', pts') \<longrightarrow>
         (\<exists>more. pts' = pts @ more \<and> (it' = Suc (it + length more) \<or> it' = it + length more)
            \<and> (it' = Suc (it + length more) \<and> Fin (real (it + length more)) < M2 \<longrightarrow>
                 coupled_integrate fmt f (options\<lparr>maxIterations := Some M2\<rparr>) m t y it pts = Some r))", OF _ assms])
  fix coupled_integrate' :: "NumberFormat \<Rightarrow> CoupledODEFunction \<Rightarrow> jsnum list ODEOptions \<Rightarrow> (CoupledODEFunction, jsnum list) NumericalMethod
     \<Rightarrow> jsnum \<Rightarrow> jsnum list \<Rightarrow> nat \<Rightarrow> jsnum list SolutionPoint list
     \<Rightarrow> (thrown + (jsnum \<times> jsnum list \<times> nat \<times> jsnum list SolutionPoint list)) option"
    and fmt f and options :: "jsnum list ODEOptions" and m t y it pts r
  assume IH: "\<And>fmt f options m t y it pts r. coupled_integrate' fmt f options m t y it pts = Some r \<Longrightarrow>
      \<forall>t' y' it' pts'. r = Inr (t', y', it', pts') \<longrightarrow>
         (\<exists>more. pts' = pts @ more \<and> (it' = Suc (it + length more) \<or> it' = it + length more)
            \<and> (it' = Suc (it + length more) \<and> Fin (real (it + length more)) < M2 \<longrightarrow>
                 coupled_integrate fmt f (options\<lparr>maxIterations := Some M2\<rparr>) m t y it pts = Some r))"
  assume body: "(if \<not> Fin (real it) < maxIterations_of options then Some (Inr (t, y, it, pts))
      else if isForward options \<and> tEnd options \<le> t then Some (Inr (t, y, Suc it, pts))
      else if \<not> isForward options \<and> t \<le> tEnd options then Some (Inr (t, y, Suc it, pts))
      else
        (case coupled_attempt_step fmt f m t y (currentH_of options t) of
           Inl e \<Rightarrow>
             Some (Inl (Error (''Integration failed at step '' @ toString fmt (Fin (real (Suc it)))
                               @ '': '' @ message_of e)))
         | Inr p \<Rightarrow> coupled_integrate' fmt f options m (pt_t p) (pt_y p) (Suc it) (pts @ [p]))) = Some r"
  show "\<forall>t' y' it' pts'. r = Inr (t', y', it', pts') \<longrightarrow>
         (\<exists>more. pts' = pts @ more \<and> (it' = Suc (it + length more) \<or> it' = it + length more)
            \<and> (it' = Suc (it + length more) \<and> Fin (real (it + length more)) < M2 \<longrightarrow>
                 coupled_integrate fmt f (options\<lparr>maxIterations := Some M2\<rparr>) m t y it pts = Some r))"
  proof (intro allI impI)
    fix t' y' it' pts'
    assume r: "r = Inr (t', y', it', pts')"
    show "\<exists>more. pts' = pts @ more \<and> (it' = Suc (it + length more) \<or> it' = it + length more)
            \<and> (it' = Suc (it + length more) \<and> Fin (real (it + length more)) < M2 \<longrightarrow>
                 coupled_integrate fmt f (options\<lparr>maxIterations := Some M2\<rparr>) m t y it pts = Some r)"
    proof (cases "\<not> Fin (real it) < maxIterations_of options")
      case True
      with body r show ?thesis by (intro exI[of _ "[]"]) auto
    next
      case cap: False
      show ?thesis
      proof (cases "(isForward options \<and> tEnd options \<le> t) \<or> (\<not> isForward options \<and> t \<le> tEnd options)")
        case True
        with body cap r have "r = Inr (t, y, Suc it, pts)" by (auto split: if_splits)
        with True r show ?thesis
          by (intro exI[of _ "[]"]) (auto simp: coupled_integrate.simps[of _ _ "options\<lparr>maxIterations := Some M2\<rparr>"])
      next
        case False
        show ?thesis
        proof (cases "coupled_attempt_step fmt f m t y (currentH_of options t)")
          case (Inl e)
          with body cap False r show ?thesis by auto
        next
          case (Inr p)
          with body cap False have rec: "coupled_integrate' fmt f options m (pt_t p) (pt_y p) (Suc it) (pts @ [p]) = Some r"
            by auto
          from IH[OF rec] r obtain more1 where m1: "pts' = (pts @ [p]) @ more1"
            and alt: "it' = Suc (Suc it + length more1) \<or> it' = Suc it + length more1"
            and ch: "it' = Suc (Suc it + length more1) \<and> Fin (real (Suc it + length more1)) < M2 \<longrightarrow>
                 coupled_integrate fmt f (options\<lparr>maxIterations := Some M2\<rparr>) m (pt_t p) (pt_y p) (Suc it) (pts @ [p]) = Some r"
            by blast
          have "coupled_integrate fmt f (options\<lparr>maxIterations := Some M2\<rparr>) m t y it pts = Some r"
            if a: "it' = Suc (it + length (p # more1))" and b: "Fin (real (it + length (p # more1))) < M2"
          proof -
            from b have now: "Fin (real it) < M2" by (rule Fin_less_mono) simp
            from a b ch have "coupled_integrate fmt f (options\<lparr>maxIterations := Some M2\<rparr>) m (pt_t p) (pt_y p) (Suc it) (pts @ [p]) = Some r"
              by simp
            with now False Inr show ?thesis
              by (subst coupled_integrate.simps) auto
          qed
          with m1 alt show ?thesis
            by (intro exI[of _ "p # more1"]) auto
        qed
      qed
    qed
  qed
qed


lemma coupled_numericalSolve_success:
  assumes "coupled_numericalSolve fmt f options m = Some (Inr sol)"
  shows "\<exists>d0 t y it. f (t0 options) (y0 options) = Inr d0
     \<and> coupled_integrate fmt f options m (t0 options) (y0 options) 0
          [\<lparr> pt_t = t0 options, pt_y = y0 options, pt_dydt = d0 \<rparr>] = Some (Inr (t, y, it, points sol))
     \<and> \<not> maxIterations_of options \<le> Fin (real it)
     \<and> sol = \<lparr> points = points sol, usedMethod = name m, success = True, error = None,
              metadata = \<lparr> totalPoints = length (points sol), usedStepSize = stepSize options,
                           domain = (t0 options, tEnd options),
                           yrange = map (component_range (points sol)) [0..<length (y0 options)] \<rparr> \<rparr>"
  using assms
  by (auto simp: coupled_numericalSolve_def Let_def split: sum.splits option.splits if_splits)

lemma coupled_numericalSolve_cap_off_by_one:
  assumes ok: "coupled_numericalSolve fmt f options m = Some (Inr sol)"
    and nan: "maxIterations options \<noteq> Some NaN"
  shows "Fin (real (length (points sol))) < maxIterations_of options
    \<and> coupled_numericalSolve fmt f (options\<lparr>maxIterations := Some (Fin (real (length (points sol))))\<rparr>) m
        = Some (Inl (Error (''Maximum iterations ('' @ toString fmt (Fin (real (length (points sol))))
                            @ '') reached without convergence'')))
    \<and> coupled_numericalSolve fmt f (options\<lparr>maxIterations := Some (Fin (real (length (points sol)) + 1))\<rparr>) m
        = Some (Inr sol)"
proof -
  from coupled_numericalSolve_success[OF ok] obtain d0 t y it where
    d0: "f (t0 options) (y0 options) = Inr d0"
    and run: "coupled_integrate fmt f options m (t0 options) (y0 options) 0
          [\<lparr> pt_t = t0 options, pt_y = y0 options, pt_dydt = d0 \<rparr>] = Some (Inr (t, y, it, points sol))"
    and post: "\<not> maxIterations_of options \<le> Fin (real it)"
    and sol: "sol = \<lparr> points = points sol, usedMethod = name m, success = True, error = None,
              metadata = \<lparr> totalPoints = length (points sol), usedStepSize = stepSize options,
                           domain = (t0 options, tEnd options),
                           yrange = map (component_range (points sol)) [0..<length (y0 options)] \<rparr> \<rparr>"
    by blast
  have "maxIterations_of options \<noteq> NaN"
    using nan by (auto simp: maxIterations_of_def split: option.splits)
  from not_le_Fin[OF this post] have lt: "Fin (real it) < maxIterations_of options" .
  let ?p0 = "\<lparr> pt_t = t0 options, pt_y = y0 options, pt_dydt = d0 \<rparr>"
  from coupled_integrate_exit[OF run] lt obtain more where
    more: "points sol = [?p0] @ more" and it: "it = Suc (length more)"
    by (auto simp: exit_shape_def)
  then have len: "length (points sol) = it" by simp
  have ch: "Fin (real (length more)) < M2 \<Longrightarrow>
      coupled_integrate fmt f (options\<lparr>maxIterations := Some M2\<rparr>) m (t0 options) (y0 options) 0 [?p0]
        = Some (Inr (t, y, it, points sol))" for M2
    using coupled_integrate_cap_change[OF run, of M2] more it by auto
  have c1: "coupled_numericalSolve fmt f (options\<lparr>maxIterations := Some (Fin (real it))\<rparr>) m
        = Some (Inl (Error (''Maximum iterations ('' @ toString fmt (Fin (real it))
                            @ '') reached without convergence'')))"
    using ch[of "Fin (real it)"] d0 it by (simp add: coupled_numericalSolve_def)
  have c2: "coupled_numericalSolve fmt f (options\<lparr>maxIterations := Some (Fin (real it + 1))\<rparr>) m = Some (Inr sol)"
    using ch[of "Fin (real it + 1)"] d0 it by (subst sol) (simp add: coupled_numericalSolve_def Let_def)
  from lt c1 c2 show ?thesis unfolding len by blast
qed



section \<open>Evaluator vectors in the coupled solver\<close>

lemma length_map_index [simp]: "length (map_index g ys) = length ys"
  by (simp add: map_index_def)

lemma nth_map_index [simp]: "i < length ys \<Longrightarrow> map_index g ys ! i = g (ys ! i) i"
  by (simp add: map_index_def)

















lemma coupled_nan_cap_run:
  "coupled_solveWithFunction plainFormat (\<lambda>t y. Inr d0) (as_system nan_cap) = Some
     \<lparr> points = [\<lparr> pt_t = Fin 0, pt_y = [Fin 1], pt_dydt = d0 \<rparr>],
       usedMethod = ''Runge-Kutta 4th Order (Coupled)'', success = True, error = None,
       metadata = \<lparr> totalPoints = 1, usedStepSize = Fin (1/10), domain = (Fin 0, Fin 1),
                    yrange = [(Fin 1, Fin 1)] \<rparr> \<rparr>"
  by (simp add: coupled_solveWithFunction_def coupled_validateOptions_def strictEq_def
       coupled_getMethod_def coupled_getAllMethods_def toLowerCase_def lower_char_def methodName_of_def
       coupled_numericalSolve_def as_system_def nan_cap_def coupled_integrate.simps maxIterations_of_def
       coupled_rk4_def at_or_0_def component_range_def
       minus_jsnum_def Let_def Math_min_def Math_max_def Math_min2_def Math_max2_def)


lemma short_system_valid: "Validation.valid (coupled_validateOptions short_system)"
  by (simp add: coupled_validateOptions_def short_system_def strictEq_def minus_jsnum_def)

lemma short_system_method: "coupled_getMethod ''euler'' = Some coupled_euler"
  by (simp add: coupled_getMethod_def coupled_getAllMethods_def toLowerCase_def lower_char_def)



section \<open>Identifiers in parse and parseCoupled\<close>

lemmas regex_eval =
  replace_def match_here_def chr_def in_ranges_def lower_char_def upper_char_def
  word_cls_def space_cls_def digit_cls_def group_of_def Plus_def at_word_boundary_def is_word_def
  trim_def is_space_def

lemmas normalize_eval =
  normalizeExpression_def caret_pattern_def starstar_pattern_def word_paren_pattern_def
  paren_word_pattern_def pi_pattern_def e_pattern_def operator_pattern_def spaces_pattern_def
  operand_def regex_eval

lemmas extract_eval =
  extractVariables_def VARIABLE_PATTERN_def ALLOWED_FUNCTIONS_def ALLOWED_CONSTANTS_def regex_eval

lemma sublist_append_right: "sublist v b \<Longrightarrow> sublist v (a @ b)"
  unfolding sublist_def by (metis append.assoc)

lemma sublist_append_left: "sublist v a \<Longrightarrow> sublist v (a @ b)"
  unfolding sublist_def by (metis append.assoc)

lemma sublist_join: "v \<in> set xs \<Longrightarrow> sublist v (join sep xs)"
proof (induction sep xs rule: join.induct)
  case (1 sep)
  then show ?case by simp
next
  case (2 sep x)
  then show ?case by simp
next
  case (3 sep x y ys)
  show ?case
  proof (cases "v = x")
    case True
    then show ?thesis by simp
  next
    case False
    with 3 have "sublist v (join sep (y # ys))" by simp
    then have "sublist v (x @ sep @ join sep (y # ys))"
      by (intro sublist_append_right)
    then show ?thesis by simp
  qed
qed

lemma find_Some_mem: "find P xs = Some w \<Longrightarrow> w \<in> set xs \<and> P w"
  by (induction xs) (auto split: if_splits)

lemma parse_invalid_variables:
  assumes "v \<in> set (extractVariables (normalizeExpression expression))" "v \<noteq> ''t''" "v \<noteq> ''y''"
  shows "\<not> Validation.valid (parse engine expression)"
    and "Validation.error (parse engine expression) =
      Some (''Invalid variables found: ''
            @ join '', '' (filter (\<lambda>v. v \<notin> set [''t'', ''y''])
                              (extractVariables (normalizeExpression expression)))
            @ ''. Only 't' and 'y' are allowed.'')"
    and "\<exists>msg. Validation.error (parse engine expression) = Some msg \<and> sublist v msg"
proof -
  let ?inv = "filter (\<lambda>v. v \<notin> set [''t'', ''y'']) (extractVariables (normalizeExpression expression))"
  from assms have v: "v \<in> set ?inv" by simp
  from assms have "?inv \<noteq> []" unfolding filter_empty_conv by auto
  then have ne: "length ?inv > 0" by blast
  from ne show "\<not> Validation.valid (parse engine expression)"
    by (simp add: parse_def Let_def)
  from ne show e: "Validation.error (parse engine expression) =
      Some (''Invalid variables found: '' @ join '', '' ?inv @ ''. Only 't' and 'y' are allowed.'')"
    by (simp add: parse_def Let_def)
  have "sublist v (join '', '' ?inv)" using v by (rule sublist_join)
  then have "sublist v (''Invalid variables found: '' @ join '', '' ?inv @ ''. Only 't' and 'y' are allowed.'')"
    by (intro sublist_append_right sublist_append_left)
  with e show "\<exists>msg. Validation.error (parse engine expression) = Some msg \<and> sublist v msg"
    by blast
qed

lemma find_sorted_least:
  "sorted xs \<Longrightarrow> find P xs = Some w \<Longrightarrow> x \<in> set xs \<Longrightarrow> P x \<Longrightarrow> w \<le> x"
  by (induction xs) (auto split: if_splits)

lemma parseCoupled_invalid_variable:
  assumes v: "v \<in> set (concat (map extractVariables (map normalizeExpression expressions)))"
    and bad: "\<not> test expectedPattern v"
  shows "\<not> Validation.valid (parseCoupled engine expressions)"
    and "compile_all engine (map normalizeExpression expressions) = Inr trees \<Longrightarrow>
      \<exists>w. w \<in> set (concat (map extractVariables (map normalizeExpression expressions)))
         \<and> \<not> test expectedPattern w
         \<and> (\<forall>w'. w' \<in> set (concat (map extractVariables (map normalizeExpression expressions)))
                 \<and> \<not> test expectedPattern w' \<longrightarrow> w \<le> w')
         \<and> Validation.error (parseCoupled engine expressions) =
             Some (''Invalid variable '' @ [CHR 0x27] @ w @ [CHR 0x27]
                   @ ''. Expected format: t, y1, y2, y3, etc.'')"
    and "compile_all engine (map normalizeExpression expressions) = Inl e \<Longrightarrow>
      Validation.error (parseCoupled engine expressions) = Some (''Parse error: '' @ message_of e)"
proof -
  define vars where "vars = sort (remdups (concat (map extractVariables (map normalizeExpression expressions))))"
  have setv: "set vars = set (concat (map extractVariables (map normalizeExpression expressions)))"
    by (simp add: vars_def)
  have sorted: "sorted vars" by (simp add: vars_def)
  from v have ne: "length expressions \<noteq> 0" by auto
  from v bad setv have "\<not> (\<forall>w \<in> set vars. test expectedPattern w)" by blast
  then have "find (\<lambda>variable. \<not> test expectedPattern variable) vars \<noteq> None"
    unfolding find_None_iff by blast
  then obtain w where w: "find (\<lambda>variable. \<not> test expectedPattern variable) vars = Some w"
    by blast
  from find_Some_mem[OF w] setv have w': "w \<in> set (concat (map extractVariables (map normalizeExpression expressions)))"
    "\<not> test expectedPattern w"
    by blast+
  have least: "w \<le> w'"
    if "w' \<in> set (concat (map extractVariables (map normalizeExpression expressions)))"
      "\<not> test expectedPattern w'" for w'
    using find_sorted_least[OF sorted w, of w'] that setv by blast
  have unfold: "parseCoupled engine expressions =
     (case compile_all engine (map normalizeExpression expressions) of
           Inl e \<Rightarrow>
             \<lparr> valid = False, error = Some (''Parse error: '' @ message_of e),
               original = expressions, evaluate = (\<lambda>t y. Inl (Error ''Parse error'')),
               variables = [] \<rparr>
         | Inr parsedTrees \<Rightarrow>
                  \<lparr> valid = False,
                    error = Some (''Invalid variable '' @ [CHR 0x27] @ w @ [CHR 0x27]
                                  @ ''. Expected format: t, y1, y2, y3, etc.''),
                    original = expressions,
                    evaluate = (\<lambda>t y. Inl (Error ''Invalid variables'')),
                    variables = vars \<rparr>)"
    using ne w unfolding parseCoupled_def Let_def vars_def[symmetric]
    by (simp only: if_False option.case split: sum.splits)
  show "\<not> Validation.valid (parseCoupled engine expressions)"
    unfolding unfold by (simp split: sum.splits)
  show "\<exists>w. w \<in> set (concat (map extractVariables (map normalizeExpression expressions)))
         \<and> \<not> test expectedPattern w
         \<and> (\<forall>w'. w' \<in> set (concat (map extractVariables (map normalizeExpression expressions)))
                 \<and> \<not> test expectedPattern w' \<longrightarrow> w \<le> w')
         \<and> Validation.error (parseCoupled engine expressions) =
             Some (''Invalid variable '' @ [CHR 0x27] @ w @ [CHR 0x27]
                   @ ''. Expected format: t, y1, y2, y3, etc.'')"
    if "compile_all engine (map normalizeExpression expressions) = Inr trees"
  proof -
    have "Validation.error (parseCoupled engine expressions) =
             Some (''Invalid variable '' @ [CHR 0x27] @ w @ [CHR 0x27]
                   @ ''. Expected format: t, y1, y2, y3, etc.'')"
      unfolding unfold using that by simp
    with w' least show ?thesis by blast
  qed
  show "Validation.error (parseCoupled engine expressions) = Some (''Parse error: '' @ message_of e)"
    if "compile_all engine (map normalizeExpression expressions) = Inl e"
    unfolding unfold using that by simp
qed

lemma parse_error_nonempty:
  "\<not> Validation.valid (parse engine expression) \<Longrightarrow>
   \<exists>msg. Validation.error (parse engine expression) = Some msg \<and> msg \<noteq> []"
  by (auto simp: parse_def Let_def split: sum.splits if_splits)

lemma parseCoupled_error_nonempty:
  "\<not> Validation.valid (parseCoupled engine expressions) \<Longrightarrow>
   \<exists>msg. Validation.error (parseCoupled engine expressions) = Some msg \<and> msg \<noteq> []"
  by (auto simp: parseCoupled_def Let_def split: sum.splits if_splits option.splits)

text \<open>
  C8, as the code has it. If the identifiers extracted from the normalized expression,
  the allowed function and constant names apart, contain one other than \<^verbatim>\<open>t\<close> and \<^verbatim>\<open>y\<close>,
  \<^verbatim>\<open>parse\<close> returns \<^verbatim>\<open>valid: false\<close> and its error message contains every such identifier.
  If the identifiers extracted from the expressions of a system contain one that is not
  \<^verbatim>\<open>t\<close> or \<^verbatim>\<open>y\<close> followed by digits, \<^verbatim>\<open>parseCoupled\<close> returns \<^verbatim>\<open>valid: false\<close>. When the engine
  compiles every expression, its error is \<^verbatim>\<open>Invalid variable 'w'. Expected format: t, y1,
  y2, y3, etc.\<close> for one offending identifier \<^verbatim>\<open>w\<close> only, the least of them in the order of
  \<^verbatim>\<open>Array.prototype.sort\<close>. When the engine rejects an expression, the error is the engine's
  message behind \<^verbatim>\<open>Parse error:\<close>, since the expressions are compiled before the identifiers
  are checked.
\<close>

theorem C8_invalid_identifiers_reported:
  "(v \<in> set (extractVariables (normalizeExpression expression)) \<and> v \<noteq> ''t'' \<and> v \<noteq> ''y'' \<longrightarrow>
      \<not> Validation.valid (parse engine expression)
      \<and> (\<exists>msg. Validation.error (parse engine expression) = Some msg \<and> sublist v msg))
   \<and> (v \<in> set (concat (map extractVariables (map normalizeExpression expressions)))
       \<and> \<not> test expectedPattern v \<longrightarrow>
      \<not> Validation.valid (parseCoupled engine expressions)
      \<and> (\<forall>trees. compile_all engine (map normalizeExpression expressions) = Inr trees \<longrightarrow>
           (\<exists>w. w \<in> set (concat (map extractVariables (map normalizeExpression expressions)))
              \<and> \<not> test expectedPattern w
              \<and> (\<forall>w'. w' \<in> set (concat (map extractVariables (map normalizeExpression expressions)))
                      \<and> \<not> test expectedPattern w' \<longrightarrow> w \<le> w')
              \<and> Validation.error (parseCoupled engine expressions) =
                  Some (''Invalid variable '' @ [CHR 0x27] @ w @ [CHR 0x27]
                        @ ''. Expected format: t, y1, y2, y3, etc.'')))
      \<and> (\<forall>e. compile_all engine (map normalizeExpression expressions) = Inl e \<longrightarrow>
           Validation.error (parseCoupled engine expressions) = Some (''Parse error: '' @ message_of e)))"
proof -
  have scalar: "\<not> Validation.valid (parse engine expression)
      \<and> (\<exists>msg. Validation.error (parse engine expression) = Some msg \<and> sublist v msg)"
    if "v \<in> set (extractVariables (normalizeExpression expression))" "v \<noteq> ''t''" "v \<noteq> ''y''"
    using parse_invalid_variables(1,3)[OF that] by blast
  have coupled: "\<not> Validation.valid (parseCoupled engine expressions)
      \<and> (\<forall>trees. compile_all engine (map normalizeExpression expressions) = Inr trees \<longrightarrow>
           (\<exists>w. w \<in> set (concat (map extractVariables (map normalizeExpression expressions)))
              \<and> \<not> test expectedPattern w
              \<and> (\<forall>w'. w' \<in> set (concat (map extractVariables (map normalizeExpression expressions)))
                      \<and> \<not> test expectedPattern w' \<longrightarrow> w \<le> w')
              \<and> Validation.error (parseCoupled engine expressions) =
                  Some (''Invalid variable '' @ [CHR 0x27] @ w @ [CHR 0x27]
                        @ ''. Expected format: t, y1, y2, y3, etc.'')))
      \<and> (\<forall>e. compile_all engine (map normalizeExpression expressions) = Inl e \<longrightarrow>
           Validation.error (parseCoupled engine expressions) = Some (''Parse error: '' @ message_of e))"
    if a: "v \<in> set (concat (map extractVariables (map normalizeExpression expressions)))"
      and b: "\<not> test expectedPattern v"
    using parseCoupled_invalid_variable(1)[OF a b, of engine]
      parseCoupled_invalid_variable(2)[OF a b, of engine]
      parseCoupled_invalid_variable(3)[OF a b, of engine]
    by blast
  from scalar coupled show ?thesis by blast
qed

lemma extract_t_plus_z: "extractVariables (normalizeExpression ''t + z'') = [''t'', ''z'']"
  by (simp add: normalize_eval extract_eval)

lemma extract_z_plus_q: "extractVariables (normalizeExpression ''z + q'') = [''q'', ''z'']"
  by (simp add: normalize_eval extract_eval)

lemma extract_z_plus: "extractVariables (normalizeExpression ''z +'') = [''z'']"
  by (simp add: normalize_eval extract_eval)

lemma expectedPattern_z: "\<not> test expectedPattern ''z''"
  by (simp add: test_def expectedPattern_def regex_eval)

lemma expectedPattern_q: "\<not> test expectedPattern ''q''"
  by (simp add: test_def expectedPattern_def regex_eval)

theorem C8_invalid_identifiers_reported_witness:
  "\<not> Validation.valid (parse constant_engine ''t + z'')
   \<and> (\<exists>msg. Validation.error (parse constant_engine ''t + z'') = Some msg \<and> sublist ''z'' msg)
   \<and> \<not> Validation.valid (parseCoupled constant_engine [''z + q''])
   \<and> Validation.error (parseCoupled constant_engine [''z + q''])
       = Some ''Invalid variable 'q'. Expected format: t, y1, y2, y3, etc.''
   \<and> Validation.error (parseCoupled dangling_engine [''z +''])
       = Some ''Parse error: Unexpected end of expression (char 4)''"
proof -
  have c: "compile_all constant_engine (map normalizeExpression [''z + q'']) = Inr [\<lambda>c. Inr (Fin 0)]"
    by (simp add: constant_engine_def)
  have d: "compile_all dangling_engine (map normalizeExpression [''z +''])
             = Inl (Error ''Unexpected end of expression (char 4)'')"
    by (simp add: dangling_engine_def normalize_eval char_of_eq_iff)
  from C8_invalid_identifiers_reported
         [where v = "''z''" and expression = "''t + z''" and expressions = "[''z + q'']"
            and engine = constant_engine] extract_t_plus_z extract_z_plus_q
       expectedPattern_z c
  obtain w where 1: "\<not> Validation.valid (parse constant_engine ''t + z'')"
      "\<exists>msg. Validation.error (parse constant_engine ''t + z'') = Some msg \<and> sublist ''z'' msg"
      "\<not> Validation.valid (parseCoupled constant_engine [''z + q''])"
    and w: "w \<in> {''z'', ''q''}" "\<forall>w'. w' \<in> {''z'', ''q''} \<and> \<not> test expectedPattern w' \<longrightarrow> w \<le> w'"
      "Validation.error (parseCoupled constant_engine [''z + q'']) =
         Some (''Invalid variable '' @ [CHR 0x27] @ w @ [CHR 0x27]
               @ ''. Expected format: t, y1, y2, y3, etc.'')"
    by auto
  from w(2) expectedPattern_q have "w \<le> ''q''" by blast
  with w(1) have "w = ''q''" by auto
  with w(3) have 2: "Validation.error (parseCoupled constant_engine [''z + q''])
       = Some ''Invalid variable 'q'. Expected format: t, y1, y2, y3, etc.''"
    by simp
  from C8_invalid_identifiers_reported
         [where v = "''z''" and expression = "''t + z''" and expressions = "[''z +'']"
            and engine = dangling_engine] extract_z_plus expectedPattern_z d
  have 3: "Validation.error (parseCoupled dangling_engine [''z +''])
       = Some ''Parse error: Unexpected end of expression (char 4)''"
    by auto
  from 1 2 3 show ?thesis by blast
qed

text \<open>
  The claim as the specification words it fails for \<^verbatim>\<open>parseCoupled\<close> in two ways. The
  expression \<^verbatim>\<open>z +\<close> refers to the identifier \<^verbatim>\<open>z\<close>, the engine rejects its dangling
  operator, and the error message is the engine's, which does not name \<^verbatim>\<open>z\<close>. The
  expression \<^verbatim>\<open>z + q\<close>, which the engine compiles, refers to the identifiers \<^verbatim>\<open>z\<close> and \<^verbatim>\<open>q\<close>,
  neither of them allowed, and the error message names \<^verbatim>\<open>q\<close> and not \<^verbatim>\<open>z\<close>.
\<close>

theorem C8_coupled_error_omits_identifier:
  "extractVariables (normalizeExpression ''z +'') = [''z'']
   \<and> \<not> test expectedPattern ''z''
   \<and> \<not> Validation.valid (parseCoupled dangling_engine [''z +''])
   \<and> Validation.error (parseCoupled dangling_engine [''z +''])
       = Some ''Parse error: Unexpected end of expression (char 4)''
   \<and> \<not> sublist ''z'' ''Parse error: Unexpected end of expression (char 4)''
   \<and> extractVariables (normalizeExpression ''z + q'') = [''q'', ''z'']
   \<and> \<not> test expectedPattern ''q''
   \<and> Validation.error (parseCoupled dangling_engine [''z + q''])
       = Some ''Invalid variable 'q'. Expected format: t, y1, y2, y3, etc.''
   \<and> \<not> sublist ''z'' ''Invalid variable 'q'. Expected format: t, y1, y2, y3, etc.''"
proof -
  have a: "\<not> sublist ''z'' ''Parse error: Unexpected end of expression (char 4)''"
    by (simp add: sublist_Cons_right)
  have b: "parseCoupled dangling_engine [''z +''] =
      \<lparr> valid = False, error = Some ''Parse error: Unexpected end of expression (char 4)'',
        original = [''z +''], evaluate = (\<lambda>t y. Inl (Error ''Parse error'')), variables = [] \<rparr>"
    by (simp add: parseCoupled_def dangling_engine_def normalize_eval char_of_eq_iff)
  have n: "normalizeExpression ''z + q'' = ''z + q''"
    by (simp add: normalize_eval)
  have c: "Validation.error (parseCoupled dangling_engine [''z + q''])
       = Some ''Invalid variable 'q'. Expected format: t, y1, y2, y3, etc.''"
    using extract_z_plus_q expectedPattern_q
    by (simp add: parseCoupled_def dangling_engine_def n Let_def)
  have d: "\<not> sublist ''z'' ''Invalid variable 'q'. Expected format: t, y1, y2, y3, etc.''"
    by (simp add: sublist_Cons_right)
  from a b c d show ?thesis
    using extract_z_plus extract_z_plus_q expectedPattern_z expectedPattern_q by simp
qed

section \<open>Function calls and powers in parse\<close>

lemma normalize_sin: "normalizeExpression ''sin(t) * y'' = ''sin * (t) * y''"
  by (simp add: normalize_eval)

lemma normalize_sin_fixed: "normalizeExpression ''sin * (t) * y'' = ''sin * (t) * y''"
  by (simp add: normalize_eval)

lemma normalize_exp: "normalizeExpression ''exp(t) - y'' = ''exp * (t) - y''"
  by (simp add: normalize_eval)

lemma normalize_pow: "normalizeExpression ''t^2 + y^3'' = ''pow * (t, 2) + pow * (y, 3)''"
  by (simp add: normalize_eval)

text \<open>
  C5, at the expressions of the unit tests. \<^verbatim>\<open>normalizeExpression\<close> inserts a
  multiplication sign between every word character and a following parenthesis, also
  after a function name and after the \<^verbatim>\<open>pow\<close> it has just written for a power. The engine
  therefore never receives the call \<^verbatim>\<open>sin(t)\<close>: \<^verbatim>\<open>parse('sin(t) * y')\<close> is, the original
  text apart, \<^verbatim>\<open>parse('sin * (t) * y')\<close>, the product of the function \<^verbatim>\<open>sin\<close> and two numbers.
  An engine whose evaluation of that product throws makes \<^verbatim>\<open>parse\<close> fail its test
  evaluation and return \<^verbatim>\<open>valid: false\<close>.
\<close>

theorem C5_function_calls_become_products:
  "normalizeExpression ''sin(t) * y'' = ''sin * (t) * y''
   \<and> normalizeExpression ''exp(t) - y'' = ''exp * (t) - y''
   \<and> normalizeExpression ''t^2 + y^3'' = ''pow * (t, 2) + pow * (y, 3)''
   \<and> (\<forall>engine. parse engine ''sin(t) * y''
         = (parse engine ''sin * (t) * y'')\<lparr> original := ''sin(t) * y'' \<rparr>)
   \<and> (\<forall>msg. \<not> Validation.valid (parse (\<lambda>text. Inr (\<lambda>scope. Inl (Error msg))) ''sin(t) * y'')
         \<and> Validation.error (parse (\<lambda>text. Inr (\<lambda>scope. Inl (Error msg))) ''sin(t) * y'')
            = Some (''Function test failed: Evaluation error: '' @ msg))"
proof -
  have v: "extractVariables ''sin * (t) * y'' = [''t'', ''y'']"
    by (simp add: extract_eval)
  have "parse engine ''sin(t) * y'' = (parse engine ''sin * (t) * y'')\<lparr> original := ''sin(t) * y'' \<rparr>"
    for engine
    by (simp add: parse_def normalize_sin normalize_sin_fixed Let_def split: sum.splits)
  moreover have "\<not> Validation.valid (parse (\<lambda>text. Inr (\<lambda>scope. Inl (Error msg))) ''sin(t) * y'')
         \<and> Validation.error (parse (\<lambda>text. Inr (\<lambda>scope. Inl (Error msg))) ''sin(t) * y'')
            = Some (''Function test failed: Evaluation error: '' @ msg)" for msg
    by (simp add: parse_def normalize_sin v Let_def)
  ultimately show ?thesis
    using normalize_sin normalize_exp normalize_pow by blast
qed

section \<open>The shape of every solution\<close>

lemma coupled_solveWithFunction_shape:
  "\<exists>sol. coupled_solveWithFunction fmt f options = Some sol \<and>
     (if success sol
      then points sol \<noteq> [] \<and> pt_t (hd (points sol)) = t0 options \<and> pt_y (hd (points sol)) = y0 options
           \<and> (maxIterations options \<noteq> Some NaN \<longrightarrow>
                 pt_t (last (points sol)) = tEnd options
                 \<and> list_all coupled_sound_point (tl (points sol)))
      else points sol = [] \<and> (\<exists>msg. error sol = Some msg \<and> msg \<noteq> []))"
proof (cases "Validation.valid (coupled_validateOptions options)")
  case False
  from coupled_validateOptions_error_nonempty[OF False] False show ?thesis
    by (auto simp: coupled_solveWithFunction_def failed_def Let_def)
next
  case valid: True
  show ?thesis
  proof (cases "coupled_getMethod (methodName_of options)")
    case None
    with valid show ?thesis
      by (simp add: coupled_solveWithFunction_def failed_def Let_def)
  next
    case (Some m)
    from valid obtain a b s where o: "t0 options = Fin a" "tEnd options = Fin b"
      "stepSize options = Fin s" and s: "0 < s" and ab: "s \<le> \<bar>b - a\<bar>"
      unfolding coupled_validateOptions_valid_char by auto
    from s ab have neq: "a \<noteq> b" by auto
    show ?thesis
    proof (cases "f (t0 options) (y0 options)")
      case (Inl e)
      with valid Some show ?thesis
        by (simp add: coupled_solveWithFunction_def coupled_numericalSolve_def failed_def Let_def)
    next
      case (Inr d0)
      let ?p0 = "\<lparr> pt_t = t0 options, pt_y = y0 options, pt_dydt = d0 \<rparr>"
      have "if a < b then a \<le> b else b \<le> a" by simp
      from coupled_integrate_validated[OF o(1,2,3) s coupled_getMethod_advances[OF Some] this,
          of fmt f "y0 options" 0 "[?p0]"]
      obtain r where run: "coupled_integrate fmt f options m (t0 options) (y0 options) 0 [?p0] = Some r"
        and ex: "loop_exit (Fin b) (maxIterations_of options) coupled_sound_point (Fin a) 0 [?p0] r"
        by (auto simp: o)
      show ?thesis
      proof (cases r)
        case (Inl e)
        with valid Some Inr run show ?thesis
          by (simp add: coupled_solveWithFunction_def coupled_numericalSolve_def failed_def Let_def)
      next
        case st: (Inr st)
        obtain t' y' it' pts' where st': "st = (t', y', it', pts')" by (cases st) auto
        show ?thesis
        proof (cases "maxIterations_of options \<le> Fin (real it')")
          case True
          with valid Some Inr run st st' show ?thesis
            by (simp add: coupled_solveWithFunction_def coupled_numericalSolve_def failed_def Let_def)
        next
          case False
          from ex st st' obtain more where more: "pts' = [?p0] @ more" "list_all coupled_sound_point more"
            and d: "(t' = Fin b \<and> it' = Suc (0 + length more)
                  \<and> (if more = [] then Fin a = Fin b else pt_t (last more) = Fin b))
                \<or> (\<not> Fin (real it') < maxIterations_of options \<and> it' = 0 + length more)"
            by (auto simp: loop_exit_def)
          have sol: "coupled_solveWithFunction fmt f options = Some
              \<lparr> points = pts', usedMethod = name m, success = True, error = None,
                metadata = \<lparr> totalPoints = length pts', usedStepSize = stepSize options,
                   domain = (t0 options, tEnd options),
                   yrange = map (component_range pts') [0..<length (y0 options)] \<rparr> \<rparr>"
            using valid Some Inr run st st' False
            by (simp add: coupled_solveWithFunction_def coupled_numericalSolve_def Let_def)
          have last_sound: "pt_t (last pts') = tEnd options \<and> list_all coupled_sound_point (tl pts')"
            if nan: "maxIterations options \<noteq> Some NaN"
          proof -
            have "maxIterations_of options \<noteq> NaN"
              using nan by (auto simp: maxIterations_of_def split: option.splits)
            from not_le_Fin[OF this False] have lt: "Fin (real it') < maxIterations_of options" .
            with d neq have brk: "more \<noteq> []" "pt_t (last more) = Fin b"
              by (auto split: if_splits)
            with more show ?thesis by (simp add: o)
          qed
          from sol more last_sound show ?thesis by simp
        qed
      qed
    qed
  qed
qed

lemma solve_equation_shape:
  "\<exists>sol. solve_equation fmt engine expression options = Some sol \<and>
     (if success sol
      then points sol \<noteq> [] \<and> pt_t (hd (points sol)) = t0 options \<and> pt_y (hd (points sol)) = y0 options
           \<and> (maxIterations options \<noteq> Some NaN \<longrightarrow>
                 pt_t (last (points sol)) = tEnd options \<and> list_all sound_point (points sol))
      else points sol = [] \<and> (\<exists>msg. error sol = Some msg \<and> msg \<noteq> []))"
proof (cases "Validation.valid (parse engine expression)")
  case False
  from parse_error_nonempty[OF False] False show ?thesis
    by (auto simp: solve_equation_def failed_def Let_def)
next
  case True
  then show ?thesis
    using solveWithFunction_shape[of fmt "evaluate (parse engine expression)" options]
    by (simp add: solve_equation_def Let_def)
qed

lemma coupled_solve_shape:
  "\<exists>sol. coupled_solve fmt engine expressions options = Some sol \<and>
     (if success sol
      then points sol \<noteq> [] \<and> pt_t (hd (points sol)) = t0 options \<and> pt_y (hd (points sol)) = y0 options
           \<and> (maxIterations options \<noteq> Some NaN \<longrightarrow>
                 pt_t (last (points sol)) = tEnd options
                 \<and> list_all coupled_sound_point (tl (points sol)))
      else points sol = [] \<and> (\<exists>msg. error sol = Some msg \<and> msg \<noteq> []))"
proof (cases "Validation.valid (parseCoupled engine expressions)")
  case False
  from parseCoupled_error_nonempty[OF False] False show ?thesis
    by (auto simp: coupled_solve_def failed_def Let_def)
next
  case True
  then show ?thesis
    using coupled_solveWithFunction_shape[of fmt "evaluate (parseCoupled engine expressions)" options]
    by (simp add: coupled_solve_def Let_def)
qed

lemma nan_cap_run:
  "solveWithFunction plainFormat f nan_cap =
     (case f (Fin 0) (Fin 1) of
        Inl e \<Rightarrow> Some (failed nan_cap ''rk4'' (''Computation error: '' @ message_of e) (Fin 0, Fin 0))
      | Inr d0 \<Rightarrow> Some
         \<lparr> points = [\<lparr> pt_t = Fin 0, pt_y = Fin 1, pt_dydt = d0 \<rparr>],
           usedMethod = ''Runge-Kutta 4th Order'', success = True, error = None,
           metadata = \<lparr> totalPoints = 1, usedStepSize = Fin (1/10), domain = (Fin 0, Fin 1),
                        yrange = (Fin 1, Fin 1) \<rparr> \<rparr>)"
  by (simp add: solveWithFunction_def validateOptions_def validateStepSize_def strictEq_def
       round64_numerals getMethod_def getAllMethods_def toLowerCase_def lower_char_def methodName_of_def
       numericalSolve_def nan_cap_def integrate.simps maxIterations_of_def rk4_def
       minus_jsnum_def Let_def Math_min_def Math_max_def Math_min2_def Math_max2_def
       split: sum.splits)

text \<open>The same run with the step \<^verbatim>\<open>0.1\<close> as the binary64 number it denotes.\<close>

lemma nan_cap_binary64_run:
  "solveWithFunction plainFormat f (nan_cap\<lparr>stepSize := Fin binary64_tenth\<rparr>) =
     (case f (Fin 0) (Fin 1) of
        Inl e \<Rightarrow> Some (failed (nan_cap\<lparr>stepSize := Fin binary64_tenth\<rparr>) ''rk4''
                         (''Computation error: '' @ message_of e) (Fin 0, Fin 0))
      | Inr d0 \<Rightarrow> Some
         \<lparr> points = [\<lparr> pt_t = Fin 0, pt_y = Fin 1, pt_dydt = d0 \<rparr>],
           usedMethod = ''Runge-Kutta 4th Order'', success = True, error = None,
           metadata = \<lparr> totalPoints = 1, usedStepSize = Fin binary64_tenth, domain = (Fin 0, Fin 1),
                        yrange = (Fin 1, Fin 1) \<rparr> \<rparr>)"
  using round64_quotient_tenth
  by (simp add: solveWithFunction_def validateOptions_def validateStepSize_def strictEq_def
       round64_numerals getMethod_def getAllMethods_def toLowerCase_def lower_char_def methodName_of_def
       numericalSolve_def nan_cap_def integrate.simps maxIterations_of_def rk4_def
       minus_jsnum_def Let_def Math_min_def Math_max_def Math_min2_def Math_max2_def binary64_tenth_def
       split: sum.splits)

lemma integrate_unstable:
  assumes "solve m f t y (currentH_of options t) = Inr (newT, newY)"
    and "Fin 10000000000 < \<bar>newY\<bar>"
    and "Fin (real it) < maxIterations_of options"
    and "\<not> (isForward options \<and> tEnd options \<le> t)" "\<not> (\<not> isForward options \<and> t \<le> tEnd options)"
  shows "\<exists>msg. integrate fmt f options m t y it pts =
           Some (Inl (Error (''Integration failed at step '' @ msg)))"
  using assms by (subst integrate.simps) (auto simp: attempt_step_def)

text \<open>
  C1, at the input where the code leaves the invariant. The options are valid and
  \<^verbatim>\<open>maxIterations\<close> is \<^verbatim>\<open>NaN\<close>: the loop test \<^verbatim>\<open>iterations < maxIterations\<close> is false at once,
  the test \<^verbatim>\<open>iterations >= maxIterations\<close> after the loop is false as well, and
  \<^verbatim>\<open>solveWithFunction\<close> returns \<^verbatim>\<open>success: true\<close> with the initial point alone, whose time 0 is
  not the requested end 1. For every other cap the invariant holds
  (\<open>solveWithFunction_shape\<close>, \<open>solve_equation_shape\<close>, \<open>coupled_solveWithFunction_shape\<close>,
  \<open>coupled_solve_shape\<close>).
\<close>

theorem C1_nan_cap_truncated_success:
  "Validation.valid (validateOptions plainFormat nan_cap)
   \<and> tEnd nan_cap = Fin 1
   \<and> solveWithFunction plainFormat simpleODE nan_cap = Some
       \<lparr> points = [\<lparr> pt_t = Fin 0, pt_y = Fin 1, pt_dydt = Fin 1 \<rparr>],
         usedMethod = ''Runge-Kutta 4th Order'', success = True, error = None,
         metadata = \<lparr> totalPoints = 1, usedStepSize = Fin (1/10), domain = (Fin 0, Fin 1),
                      yrange = (Fin 1, Fin 1) \<rparr> \<rparr>"
  by (simp add: nan_cap_run simpleODE_def)
     (simp add: nan_cap_def validateOptions_def validateStepSize_def strictEq_def minus_jsnum_def Let_def
        round64_numerals)

theorem C1_nan_cap_truncated_success_witness:
  "\<exists>sol. solveWithFunction plainFormat simpleODE nan_cap = Some sol \<and> success sol
         \<and> pt_t (last (points sol)) = Fin 0 \<and> tEnd nan_cap = Fin 1"
  using C1_nan_cap_truncated_success by simp

text \<open>
  C6, at the input where the code returns a non-finite number. With the options above
  and the equation \<^verbatim>\<open>(t, y) => y / t\<close>, whose derivative at the initial point is
  \<^verbatim>\<open>Infinity\<close>, the returned solution is successful and its only point has a non-finite
  \<^verbatim>\<open>dydt\<close>: the derivative of the initial point is not checked, and the first step, which
  would fail on it, is never taken. For every other cap all returned points are sound
  (\<open>solveWithFunction_shape\<close>), and a step whose new value exceeds 1e10 in magnitude ends
  the solve with a failure (\<open>integrate_unstable\<close>).
\<close>

theorem C6_nan_cap_nonfinite_point:
  "solveWithFunction plainFormat (\<lambda>t y. Inr (y / t)) nan_cap = Some
       \<lparr> points = [\<lparr> pt_t = Fin 0, pt_y = Fin 1, pt_dydt = PInf \<rparr>],
         usedMethod = ''Runge-Kutta 4th Order'', success = True, error = None,
         metadata = \<lparr> totalPoints = 1, usedStepSize = Fin (1/10), domain = (Fin 0, Fin 1),
                      yrange = (Fin 1, Fin 1) \<rparr> \<rparr>
   \<and> \<not> isFinite PInf"
  by (simp add: nan_cap_run)

section \<open>The iteration cap\<close>

lemma short_system_numerical_run:
  "coupled_numericalSolve plainFormat (\<lambda>t y. Inr [Fin 1, Fin 0]) short_system coupled_euler = Some (Inr
     \<lparr> points = [\<lparr> pt_t = Fin 0, pt_y = [Fin 1, Fin 2], pt_dydt = [Fin 1, Fin 0] \<rparr>,
                 \<lparr> pt_t = Fin 1, pt_y = [Fin 2, Fin 2], pt_dydt = [Fin 1, Fin 0] \<rparr>],
       usedMethod = ''Euler's Method (Coupled)'', success = True, error = None,
       metadata = \<lparr> totalPoints = 2, usedStepSize = Fin 1, domain = (Fin 0, Fin 1),
                    yrange = [(Fin 1, Fin 2), (Fin 2, Fin 2)] \<rparr> \<rparr>)"
  by (simp add: coupled_numericalSolve_def short_system_def coupled_integrate.simps maxIterations_of_def
       isForward_def coupled_attempt_step_def currentH_of_def signed_step_def coupled_euler_def
       coupled_euler_solve_def map_index_def at_or_0_def component_range_def
       minus_jsnum_def Let_def Math_min_def Math_max_def Math_min2_def Math_max2_def)

text \<open>
  The cap that is a number. A complete trajectory of N accepted steps has N + 1 points
  and takes N + 1 loop entries, the last of which detects the end of the domain.
  Whenever \<^verbatim>\<open>numericalSolve\<close>, scalar or coupled, succeeds under a cap that is a number, the
  number of points (the number of loop entries) is strictly less than \<^verbatim>\<open>maxIterations\<close>
  (\<open>numericalSolve_cap_off_by_one\<close>, \<open>coupled_numericalSolve_cap_off_by_one\<close>). The same
  solve with \<^verbatim>\<open>maxIterations\<close> equal to N + 1, so that it needs exactly
  \<^verbatim>\<open>maxIterations - 1\<close> accepted steps, returns \<^verbatim>\<open>success: false\<close> with the maximum-iterations
  error although the loop completed the trajectory; with \<^verbatim>\<open>maxIterations\<close> equal to N + 2
  it returns the solution.
\<close>

lemma solveWithFunction_cap_off_by_one:
  assumes ok: "solveWithFunction fmt f options = Some sol" "success sol"
    and nan: "maxIterations options \<noteq> Some NaN"
  shows "Fin (real (length (points sol))) < maxIterations_of options"
    and "\<exists>sol'. solveWithFunction fmt f (options\<lparr>maxIterations := Some (Fin (real (length (points sol))))\<rparr>)
             = Some sol'
           \<and> \<not> success sol' \<and> points sol' = []
           \<and> error sol' = Some (''Computation error: Maximum iterations (''
                  @ toString fmt (Fin (real (length (points sol)))) @ '') reached without convergence'')"
    and "solveWithFunction fmt f (options\<lparr>maxIterations := Some (Fin (real (length (points sol)) + 1))\<rparr>)
           = Some sol"
proof -
  from ok have v: "Validation.valid (validateOptions fmt options)"
    by (auto simp: solveWithFunction_def failed_def Let_def split: if_splits)
  with ok obtain m where m: "getMethod (methodName_of options) = Some m"
    by (cases "getMethod (methodName_of options)")
       (auto simp: solveWithFunction_def failed_def Let_def)
  with ok v have n: "numericalSolve fmt f options m = Some (Inr sol)"
    by (auto simp: solveWithFunction_def failed_def Let_def split: option.splits sum.splits)
  note c = numericalSolve_cap_off_by_one[OF n nan]
  from c show "Fin (real (length (points sol))) < maxIterations_of options" by blast
  from c v m show "\<exists>sol'. solveWithFunction fmt f (options\<lparr>maxIterations := Some (Fin (real (length (points sol))))\<rparr>)
             = Some sol'
           \<and> \<not> success sol' \<and> points sol' = []
           \<and> error sol' = Some (''Computation error: Maximum iterations (''
                  @ toString fmt (Fin (real (length (points sol)))) @ '') reached without convergence'')"
    by (simp add: solveWithFunction_def failed_def Let_def)
  from c v m show "solveWithFunction fmt f (options\<lparr>maxIterations := Some (Fin (real (length (points sol)) + 1))\<rparr>)
           = Some sol"
    by (simp add: solveWithFunction_def Let_def)
qed

lemma coupled_validateOptions_maxIterations:
  "coupled_validateOptions (options\<lparr>maxIterations := c\<rparr>) = coupled_validateOptions options"
  by (simp add: coupled_validateOptions_def)

lemma coupled_solveWithFunction_cap_off_by_one:
  assumes ok: "coupled_solveWithFunction fmt f options = Some sol" "success sol"
    and nan: "maxIterations options \<noteq> Some NaN"
  shows "Fin (real (length (points sol))) < maxIterations_of options"
    and "\<exists>sol'. coupled_solveWithFunction fmt f
               (options\<lparr>maxIterations := Some (Fin (real (length (points sol))))\<rparr>) = Some sol'
           \<and> \<not> success sol' \<and> points sol' = []
           \<and> error sol' = Some (''Computation error: Maximum iterations (''
                  @ toString fmt (Fin (real (length (points sol)))) @ '') reached without convergence'')"
    and "coupled_solveWithFunction fmt f
           (options\<lparr>maxIterations := Some (Fin (real (length (points sol)) + 1))\<rparr>) = Some sol"
proof -
  from ok have v: "Validation.valid (coupled_validateOptions options)"
    by (auto simp: coupled_solveWithFunction_def failed_def Let_def split: if_splits)
  with ok obtain m where m: "coupled_getMethod (methodName_of options) = Some m"
    by (cases "coupled_getMethod (methodName_of options)")
       (auto simp: coupled_solveWithFunction_def failed_def Let_def)
  with ok v have n: "coupled_numericalSolve fmt f options m = Some (Inr sol)"
    by (auto simp: coupled_solveWithFunction_def failed_def Let_def split: option.splits sum.splits)
  note c = coupled_numericalSolve_cap_off_by_one[OF n nan]
  from c show "Fin (real (length (points sol))) < maxIterations_of options" by blast
  from c v m show "\<exists>sol'. coupled_solveWithFunction fmt f
               (options\<lparr>maxIterations := Some (Fin (real (length (points sol))))\<rparr>) = Some sol'
           \<and> \<not> success sol' \<and> points sol' = []
           \<and> error sol' = Some (''Computation error: Maximum iterations (''
                  @ toString fmt (Fin (real (length (points sol)))) @ '') reached without convergence'')"
    by (simp add: coupled_solveWithFunction_def failed_def Let_def coupled_validateOptions_maxIterations)
  from c v m show "coupled_solveWithFunction fmt f
           (options\<lparr>maxIterations := Some (Fin (real (length (points sol)) + 1))\<rparr>) = Some sol"
    by (simp add: coupled_solveWithFunction_def Let_def coupled_validateOptions_maxIterations)
qed

text \<open>
  The two solves of the closed examples: two Euler steps of 1/2 need the cap 4, one
  coupled Euler step of 1 needs the cap 3.
\<close>

lemma cap_off_by_one_examples:
  "numericalSolve plainFormat simpleODE (demo\<lparr>maxIterations := Some (Fin 3)\<rparr>) euler
     = Some (Inl (Error ''Maximum iterations (0) reached without convergence''))
   \<and> (\<exists>sol. numericalSolve plainFormat simpleODE (demo\<lparr>maxIterations := Some (Fin 4)\<rparr>) euler
              = Some (Inr sol) \<and> length (points sol) = 3)
   \<and> (\<exists>sol'. coupled_solveWithFunction plainFormat (\<lambda>t y. Inr [Fin 1, Fin 0])
               (short_system\<lparr>maxIterations := Some (Fin 2)\<rparr>) = Some sol'
         \<and> \<not> success sol' \<and> points sol' = []
         \<and> error sol' = Some ''Computation error: Maximum iterations (0) reached without convergence'')
   \<and> (\<exists>sol. coupled_solveWithFunction plainFormat (\<lambda>t y. Inr [Fin 1, Fin 0])
               (short_system\<lparr>maxIterations := Some (Fin 3)\<rparr>) = Some sol
         \<and> success sol \<and> length (points sol) = 2)"
proof -
  let ?sol = "\<lparr> points = [\<lparr> pt_t = Fin 0, pt_y = Fin 1, pt_dydt = Fin 1 \<rparr>,
                 \<lparr> pt_t = Fin (1/2), pt_y = Fin (3/2), pt_dydt = Fin 2 \<rparr>,
                 \<lparr> pt_t = Fin 1, pt_y = Fin (5/2), pt_dydt = Fin (7/2) \<rparr>],
       usedMethod = ''Euler's Method'', success = True, error = None,
       metadata = \<lparr> totalPoints = 3, usedStepSize = Fin (1/2), domain = (Fin 0, Fin 1),
                    yrange = (Fin 1, Fin (5/2)) \<rparr> \<rparr>"
  let ?csol = "\<lparr> points = [\<lparr> pt_t = Fin 0, pt_y = [Fin 1, Fin 2], pt_dydt = [Fin 1, Fin 0] \<rparr>,
                 \<lparr> pt_t = Fin 1, pt_y = [Fin 2, Fin 2], pt_dydt = [Fin 1, Fin 0] \<rparr>],
       usedMethod = ''Euler's Method (Coupled)'', success = True, error = None,
       metadata = \<lparr> totalPoints = 2, usedStepSize = Fin 1, domain = (Fin 0, Fin 1),
                    yrange = [(Fin 1, Fin 2), (Fin 2, Fin 2)] \<rparr> \<rparr>"
  have d: "maxIterations demo \<noteq> Some NaN" "maxIterations short_system \<noteq> Some NaN"
    by (simp_all add: demo_def short_system_def)
  have c: "coupled_solveWithFunction plainFormat (\<lambda>t y. Inr [Fin 1, Fin 0]) short_system = Some ?csol"
    using short_system_numerical_run short_system_valid short_system_method
    by (simp add: coupled_solveWithFunction_def Let_def methodName_of_def short_system_def)
  from numericalSolve_cap_off_by_one[OF demo_run d(1)]
       coupled_solveWithFunction_cap_off_by_one(2,3)[OF c _ d(2)]
  show ?thesis
    by (simp add: plainFormat_def)
qed

text \<open>
  C9, at the input where the code leaves the rule. The claim's rule is that a solve
  succeeds only when the number of loop entries is strictly less than \<^verbatim>\<open>maxIterations\<close>.
  With valid options and \<^verbatim>\<open>maxIterations\<close> \<^verbatim>\<open>NaN\<close> the loop of either solver ends with the
  counter at 0, no loop entry made; 0 is not less than \<^verbatim>\<open>NaN\<close>, yet the check
  \<^verbatim>\<open>iterations >= maxIterations\<close> after the loop does not throw and the solve returns
  \<^verbatim>\<open>success: true\<close>. For a cap that is a number the rule and the off-by-one hold
  (\<open>solveWithFunction_cap_off_by_one\<close>, \<open>coupled_solveWithFunction_cap_off_by_one\<close>).
\<close>

theorem C9_nan_cap_success_without_loop_entry:
  "maxIterations_of nan_cap = NaN
   \<and> integrate plainFormat simpleODE nan_cap rk4 (Fin 0) (Fin 1) 0
        [\<lparr> pt_t = Fin 0, pt_y = Fin 1, pt_dydt = Fin 1 \<rparr>]
      = Some (Inr (Fin 0, Fin 1, 0, [\<lparr> pt_t = Fin 0, pt_y = Fin 1, pt_dydt = Fin 1 \<rparr>]))
   \<and> \<not> Fin (real 0) < maxIterations_of nan_cap
   \<and> (\<exists>sol. solveWithFunction plainFormat simpleODE nan_cap = Some sol
         \<and> success sol \<and> error sol = None)
   \<and> maxIterations_of (as_system nan_cap) = NaN
   \<and> coupled_integrate plainFormat (\<lambda>t y. Inr [Fin 1]) (as_system nan_cap) coupled_rk4 (Fin 0) [Fin 1] 0
        [\<lparr> pt_t = Fin 0, pt_y = [Fin 1], pt_dydt = [Fin 1] \<rparr>]
      = Some (Inr (Fin 0, [Fin 1], 0, [\<lparr> pt_t = Fin 0, pt_y = [Fin 1], pt_dydt = [Fin 1] \<rparr>]))
   \<and> (\<exists>sol. coupled_solveWithFunction plainFormat (\<lambda>t y. Inr [Fin 1]) (as_system nan_cap) = Some sol
         \<and> success sol \<and> error sol = None)"
proof -
  have 1: "maxIterations_of nan_cap = NaN" "maxIterations_of (as_system nan_cap) = NaN"
    by (simp_all add: maxIterations_of_def nan_cap_def as_system_def)
  have 2: "integrate plainFormat simpleODE nan_cap rk4 (Fin 0) (Fin 1) 0
        [\<lparr> pt_t = Fin 0, pt_y = Fin 1, pt_dydt = Fin 1 \<rparr>]
      = Some (Inr (Fin 0, Fin 1, 0, [\<lparr> pt_t = Fin 0, pt_y = Fin 1, pt_dydt = Fin 1 \<rparr>]))"
    by (subst integrate.simps) (simp add: 1)
  have 3: "coupled_integrate plainFormat (\<lambda>t y. Inr [Fin 1]) (as_system nan_cap) coupled_rk4 (Fin 0) [Fin 1] 0
        [\<lparr> pt_t = Fin 0, pt_y = [Fin 1], pt_dydt = [Fin 1] \<rparr>]
      = Some (Inr (Fin 0, [Fin 1], 0, [\<lparr> pt_t = Fin 0, pt_y = [Fin 1], pt_dydt = [Fin 1] \<rparr>]))"
    by (subst coupled_integrate.simps) (simp add: 1)
  have 4: "\<exists>sol. solveWithFunction plainFormat simpleODE nan_cap = Some sol
         \<and> success sol \<and> error sol = None"
    by (simp add: nan_cap_run simpleODE_def)
  have 5: "\<exists>sol. coupled_solveWithFunction plainFormat (\<lambda>t y. Inr [Fin 1]) (as_system nan_cap) = Some sol
         \<and> success sol \<and> error sol = None"
    by (simp add: coupled_nan_cap_run)
  from 1 2 3 4 5 show ?thesis by simp
qed

end
